(* ===== verification/Prelude.thy ===== *)
theory Prelude
  imports Main "HOL-Library.Word"
begin

text \<open>
  What every component shares: the three-valued result of the parsers
  (\<^verbatim>\<open>boost::tribool\<close>), the value of a C++ \<^verbatim>\<open>char\<close>, the fact collections of the
  development, and the interface of an incremental parser. All three parsers of the
  library have the same \<^verbatim>\<open>parse\<close> loop around their own \<^verbatim>\<open>consume\<close>; the locale
  \<open>incremental_parser\<close> states that loop once and proves what follows from it.
\<close>

section \<open>Fact collections\<close>

named_theorems parse_steps \<open>how a parser runs over one syntactic unit\<close>
named_theorems handler_defs \<open>the definitions of the completion handlers\<close>

section \<open>Three-valued results\<close>

text \<open>
  \<^verbatim>\<open>boost::tribool\<close>: the parsers return true (a complete message), false (invalid
  data) or indeterminate (more data is required).
\<close>

datatype tribool = TFalse | TTrue | Indeterminate

definition tribool_of_bool :: "bool \<Rightarrow> tribool" where
  "tribool_of_bool b = (if b then TTrue else TFalse)"

text \<open>The loop's test \<^verbatim>\<open>result || !result\<close>.\<close>

fun determinate :: "tribool \<Rightarrow> bool" where
  "determinate TTrue = True"
| "determinate TFalse = True"
| "determinate Indeterminate = False"

lemma determinate_iff: "determinate t \<longleftrightarrow> t \<noteq> Indeterminate"
  by (cases t) auto

lemma tribool_of_bool_neq_Indeterminate [simp]: "tribool_of_bool b \<noteq> Indeterminate"
  by (simp add: tribool_of_bool_def)

lemma tribool_of_bool_simps [simp]:
  "tribool_of_bool True = TTrue" "tribool_of_bool False = TFalse"
  by (simp_all add: tribool_of_bool_def)

section \<open>Characters\<close>

text \<open>
  A C++ \<^verbatim>\<open>char\<close> is one byte, here the HOL \<open>char\<close>. On the compilers this code
  is written for (MSVC, gcc and clang on x86) \<^verbatim>\<open>char\<close> is signed, so its promotion to
  \<^verbatim>\<open>int\<close> is \<open>sc\<close>: bytes above 127 become negative numbers.
\<close>

definition sc :: "char \<Rightarrow> int" where
  "sc c = (let n = of_char c :: int in if n < 128 then n else n - 256)"

lemma of_char_range: "0 \<le> (of_char c :: int)" "(of_char c :: int) < 256"
proof -
  show "0 \<le> (of_char c :: int)"
    by (metis nat_of_char_less_256 of_nat_of_char of_nat_0_le_iff)
  have "of_nat (of_char c) = (of_char c :: int)" by (rule of_nat_of_char)
  then show "(of_char c :: int) < 256"
    using nat_of_char_less_256 [of c] by linarith
qed

lemma sc_range: "- 128 \<le> sc c" "sc c \<le> 127"
  using of_char_range [of c] by (auto simp: sc_def Let_def)

lemma sc_eq_iff: "sc a = sc b \<longleftrightarrow> a = b"
proof
  assume "sc a = sc b"
  then have "(of_char a :: int) = of_char b"
    using of_char_range [of a] of_char_range [of b]
    by (auto simp: sc_def Let_def split: if_splits)
  then show "a = b" by (simp add: of_char_eq_iff)
qed simp

section \<open>Lists\<close>

lemma takeWhile_append_stop:
  "\<lbrakk>\<forall>x\<in>set xs. P x; ys = [] \<or> \<not> P (hd ys)\<rbrakk> \<Longrightarrow> takeWhile P (xs @ ys) = xs"
  by (induction xs) (cases ys; auto)+

lemma dropWhile_append_stop:
  "\<lbrakk>\<forall>x\<in>set xs. P x; ys = [] \<or> \<not> P (hd ys)\<rbrakk> \<Longrightarrow> dropWhile P (xs @ ys) = ys"
  by (induction xs) (cases ys; auto)+

lemma take_middle_drop: "i \<le> j \<Longrightarrow> xs = take i xs @ take (j - i) (drop i xs) @ drop j xs"
  by (metis append.assoc append_take_drop_id le_add_diff_inverse take_add)

lemma concat_neq_Nil: "\<lbrakk>bs \<noteq> []; last bs \<noteq> []\<rbrakk> \<Longrightarrow> concat bs \<noteq> []"
  by (metis concat_eq_Nil_conv last_in_set)

section \<open>The interface of an incremental parser\<close>

text \<open>
  \<open>consume st r x\<close> handles one input element in parser state \<open>st\<close> with the
  message built so far \<open>r\<close>. \<open>parse\<close> is the \<^verbatim>\<open>while (begin != end)\<close> loop; its last
  result component is the input it did not look at, the iterator the C++ returns.
\<close>

type_synonym ('s, 'r) consumed = "tribool \<times> 's \<times> 'r"
type_synonym ('s, 'r, 'x) parsed = "tribool \<times> 's \<times> 'r \<times> 'x list"

fun parse_loop :: "('s \<Rightarrow> 'r \<Rightarrow> 'x \<Rightarrow> ('s, 'r) consumed) \<Rightarrow> 's \<Rightarrow> 'r \<Rightarrow> 'x list \<Rightarrow> ('s, 'r, 'x) parsed" where
  "parse_loop f st r [] = (Indeterminate, st, r, [])"
| "parse_loop f st r (x # xs) =
     (case f st r x of (res, st', r') \<Rightarrow>
        if determinate res then (res, st', r', xs) else parse_loop f st' r' xs)"

locale incremental_parser =
  fixes consume :: "'s \<Rightarrow> 'r \<Rightarrow> 'x \<Rightarrow> ('s, 'r) consumed"
    and parse :: "'s \<Rightarrow> 'r \<Rightarrow> 'x list \<Rightarrow> ('s, 'r, 'x) parsed"
    and inv :: "'s \<Rightarrow> 'r \<Rightarrow> bool"
  assumes parse_Nil: "parse st r [] = (Indeterminate, st, r, [])"
    and parse_Cons: "parse st r (x # xs) =
      (case consume st r x of (res, st', r') \<Rightarrow>
         if determinate res then (res, st', r', xs) else parse st' r' xs)"
    and consume_inv: "\<lbrakk>inv st r; consume st r x = (res, st', r')\<rbrakk> \<Longrightarrow> inv st' r'"
begin

lemma parse_step:
  "consume st r x = (Indeterminate, st', r') \<Longrightarrow> parse st r (x # xs) = parse st' r' xs"
  by (simp add: parse_Cons)

lemma parse_stop:
  "\<lbrakk>consume st r x = (res, st', r'); res \<noteq> Indeterminate\<rbrakk>
    \<Longrightarrow> parse st r (x # xs) = (res, st', r', xs)"
  by (simp add: parse_Cons determinate_iff)

text \<open>Feeding the input in two pieces gives what feeding it at once gives.\<close>

lemma parse_append:
  "parse st r (xs @ ys) =
     (case parse st r xs of (res, st', r', rest) \<Rightarrow>
        if res = Indeterminate then parse st' r' ys else (res, st', r', rest @ ys))"
proof (induction xs arbitrary: st r)
  case Nil
  show ?case by (simp add: parse_Nil)
next
  case (Cons x xs)
  obtain res st' r' where c: "consume st r x = (res, st', r')" by (cases "consume st r x")
  show ?case
    by (cases res) (simp_all add: parse_Cons c Cons.IH)
qed

lemma parse_append_indeterminate:
  "parse st r xs = (Indeterminate, st', r', rest) \<Longrightarrow> parse st r (xs @ ys) = parse st' r' ys"
  by (simp add: parse_append)

lemma parse_append_decided:
  "\<lbrakk>parse st r xs = (res, st', r', rest); res \<noteq> Indeterminate\<rbrakk>
    \<Longrightarrow> parse st r (xs @ ys) = (res, st', r', rest @ ys)"
  by (simp add: parse_append)

text \<open>The unread input is a suffix of the input; an undecided parse has read all of it.\<close>

lemma parse_rest:
  "parse st r xs = (res, st', r', rest) \<Longrightarrow>
     (\<exists>pre. xs = pre @ rest \<and> (res \<noteq> Indeterminate \<longrightarrow> pre \<noteq> []))"
proof (induction xs arbitrary: st r)
  case Nil
  then show ?case by (simp add: parse_Nil)
next
  case (Cons x xs)
  obtain res1 st1 r1 where c: "consume st r x = (res1, st1, r1)" by (cases "consume st r x")
  show ?case
  proof (cases "determinate res1")
    case True
    then have "rest = xs" using Cons.prems c by (simp add: parse_Cons)
    then show ?thesis by (intro exI [of _ "[x]"]) simp
  next
    case False
    then have "parse st1 r1 xs = (res, st', r', rest)" using Cons.prems c by (simp add: parse_Cons)
    from Cons.IH [OF this] obtain pre where "xs = pre @ rest" by blast
    then show ?thesis by (intro exI [of _ "x # pre"]) simp
  qed
qed

lemma parse_indeterminate_rest:
  "parse st r xs = (Indeterminate, st', r', rest) \<Longrightarrow> rest = []"
proof (induction xs arbitrary: st r)
  case Nil
  then show ?case by (simp add: parse_Nil)
next
  case (Cons x xs)
  obtain res1 st1 r1 where c: "consume st r x = (res1, st1, r1)" by (cases "consume st r x")
  with Cons show ?case by (cases res1) (auto simp: parse_Cons)
qed

lemma parse_inv:
  "\<lbrakk>inv st r; parse st r xs = (res, st', r', rest)\<rbrakk> \<Longrightarrow> inv st' r'"
proof (induction xs arbitrary: st r)
  case Nil
  then show ?case by (simp add: parse_Nil)
next
  case (Cons x xs)
  obtain res1 st1 r1 where c: "consume st r x = (res1, st1, r1)" by (cases "consume st r x")
  then have "inv st1 r1" using consume_inv Cons.prems(1) by blast
  then show ?case
    using Cons.prems(2) Cons.IH c by (cases "determinate res1") (auto simp: parse_Cons)
qed

text \<open>A parser that decides on the last element has not decided before it.\<close>

lemma parse_proper_prefix:
  assumes "parse st r (xs @ ys) = (res, st', r', rest)" "length rest < length ys"
  shows "\<exists>st1 r1. parse st r xs = (Indeterminate, st1, r1, [])"
proof -
  obtain res1 st1 r1 rest1 where p: "parse st r xs = (res1, st1, r1, rest1)"
    by (cases "parse st r xs")
  show ?thesis
  proof (cases "res1 = Indeterminate")
    case True
    with p parse_indeterminate_rest show ?thesis by blast
  next
    case False
    from parse_append_decided [OF p False, of ys] assms have "rest = rest1 @ ys" by simp
    with assms(2) show ?thesis by simp
  qed
qed

text \<open>
  Input that arrives in several buffers, of which the last is not empty: the first buffer
  leaves the parser undecided, and the others bring it where the whole input would.
\<close>

lemma parse_first_buffer:
  assumes "parse st r (concat (b # bs)) = (res, st', r', [])" "bs \<noteq> []" "last bs \<noteq> []"
  shows "\<exists>st1 r1. parse st r b = (Indeterminate, st1, r1, []) \<and>
           parse st1 r1 (concat bs) = (res, st', r', [])"
proof -
  have p: "parse st r (b @ concat bs) = (res, st', r', [])" using assms(1) by simp
  have "0 < length (concat bs)" using concat_neq_Nil [OF assms(2,3)] by blast
  with parse_proper_prefix [OF p] obtain st1 r1
    where b: "parse st r b = (Indeterminate, st1, r1, [])" by auto
  with p parse_append_indeterminate [OF b, of "concat bs"] show ?thesis by simp
qed

end

end
