(* ===== verification/Cpp_Std.thy ===== *)
theory Cpp_Std
  imports Prelude
begin

text \<open>
  The parts of the C++ standard library the code uses on text: searching in a
  \<^verbatim>\<open>std::string\<close>, the formatted output and input of numbers through string streams
  (\<^verbatim>\<open>std::hex\<close>, \<^verbatim>\<open>std::setw\<close>, \<^verbatim>\<open>operator>>\<close>) and the decimal conversion
  (\<^verbatim>\<open>lexical_cast<std::string>\<close> of a number). Each is the behaviour of the standard in
  the "C" locale; sizes are 64 bits and \<^verbatim>\<open>int\<close> is 32 bits.
\<close>

section \<open>Searching in strings\<close>

text \<open>\<^verbatim>\<open>s.find(p)\<close>: the first position where \<open>p\<close> occurs, \<^verbatim>\<open>npos\<close> as \<open>None\<close>.\<close>

fun starts_with :: "'a list \<Rightarrow> 'a list \<Rightarrow> bool" where
  "starts_with [] s = True"
| "starts_with (p # ps) [] = False"
| "starts_with (p # ps) (c # cs) = (p = c \<and> starts_with ps cs)"

fun str_find :: "'a list \<Rightarrow> 'a list \<Rightarrow> nat option" where
  "str_find p [] = (if p = [] then Some 0 else None)"
| "str_find p (c # cs) =
     (if starts_with p (c # cs) then Some 0 else map_option Suc (str_find p cs))"

text \<open>\<^verbatim>\<open>s.find_last_of(c)\<close> for a single character.\<close>

fun find_last :: "'a \<Rightarrow> 'a list \<Rightarrow> nat option" where
  "find_last x [] = None"
| "find_last x (c # cs) =
     (case find_last x cs of Some i \<Rightarrow> Some (Suc i) | None \<Rightarrow> if c = x then Some 0 else None)"

lemma starts_with_iff: "starts_with p s \<longleftrightarrow> (\<exists>t. s = p @ t)"
  by (induction p s rule: starts_with.induct) auto

lemma starts_with_append [simp]: "starts_with p (p @ t)"
  by (auto simp: starts_with_iff)

lemma str_find_None_iff: "str_find p s = None \<longleftrightarrow> (\<nexists>a b. s = a @ p @ b)"
proof (induction s)
  case Nil
  show ?case by auto
next
  case (Cons c cs)
  have "(\<exists>a b. c # cs = a @ p @ b) \<longleftrightarrow> starts_with p (c # cs) \<or> (\<exists>a b. cs = a @ p @ b)"
    unfolding starts_with_iff by (auto simp: Cons_eq_append_conv)
  then show ?case using Cons by auto
qed

lemma str_find_Some_append: "str_find p (a @ p @ b) \<noteq> None"
  by (auto simp: str_find_None_iff)

lemma find_last_None_iff: "find_last x s = None \<longleftrightarrow> x \<notin> set s"
  by (induction s) (auto split: option.splits)

lemma find_last_Some:
  "find_last x s = Some i \<Longrightarrow> i < length s \<and> s ! i = x \<and> x \<notin> set (drop (Suc i) s)"
  by (induction s arbitrary: i)
     (auto split: option.splits if_splits simp: find_last_None_iff)

text \<open>\<^verbatim>\<open>s.c_str()\<close> handed to a C interface: it ends at the first NUL byte.\<close>

definition c_str :: "string \<Rightarrow> string" where
  "c_str s = takeWhile (\<lambda>c. c \<noteq> CHR 0x00) s"

lemma c_str_prefix: "\<exists>t. s = c_str s @ t"
  by (metis c_str_def takeWhile_dropWhile_id)

section \<open>Digits\<close>

definition digit_char :: "nat \<Rightarrow> char" where
  "digit_char d = (if d < 10 then char_of (48 + d) else char_of (87 + d))"

text \<open>\<^verbatim>\<open>isxdigit\<close> and the value of a hexadecimal digit of either case.\<close>

definition xdigit_val :: "char \<Rightarrow> nat option" where
  "xdigit_val c =
     (let n = of_char c :: nat
      in if 48 \<le> n \<and> n \<le> 57 then Some (n - 48)
         else if 97 \<le> n \<and> n \<le> 102 then Some (n - 87)
         else if 65 \<le> n \<and> n \<le> 70 then Some (n - 55)
         else None)"

definition isspace :: "char \<Rightarrow> bool" where
  "isspace c \<longleftrightarrow> (let n = of_char c :: nat in n = 32 \<or> (9 \<le> n \<and> n \<le> 13))"

definition isprint :: "char \<Rightarrow> bool" where
  "isprint c \<longleftrightarrow> (let n = of_char c :: nat in 32 \<le> n \<and> n \<le> 126)"

lemma of_char_digit_char [simp]:
  "d < 16 \<Longrightarrow> (of_char (digit_char d) :: nat) = (if d < 10 then 48 + d else 87 + d)"
  by (simp add: digit_char_def)

lemma xdigit_val_digit_char [simp]: "d < 16 \<Longrightarrow> xdigit_val (digit_char d) = Some d"
  by (auto simp: xdigit_val_def Let_def)

lemma isspace_digit_char [simp]: "d < 16 \<Longrightarrow> \<not> isspace (digit_char d)"
  by (auto simp: isspace_def Let_def)

lemma sc_digit_char [simp]: "d < 10 \<Longrightarrow> sc (digit_char d) = 48 + int d"
proof -
  assume "d < 10"
  then have "(of_char (digit_char d) :: int) = 48 + int d"
    using of_char_digit_char [of d] of_nat_of_char [of "digit_char d", where 'a = int] by simp
  then show ?thesis using \<open>d < 10\<close> by (simp add: sc_def)
qed

section \<open>Computing with int\<close>

text \<open>
  The value of an \<^verbatim>\<open>int\<close> of 32 bits. \<open>None\<close> is the value of a computation that went out of
  range: signed overflow is undefined, so nothing is known of it or of what is computed from it.
\<close>

type_synonym cint = "int option"

definition in_int :: "int \<Rightarrow> cint" where
  "in_int x = (if - (2 ^ 31) \<le> x \<and> x < 2 ^ 31 then Some x else None)"

lemma in_int_Some_iff: "in_int x = Some y \<longleftrightarrow> y = x \<and> - (2 ^ 31) \<le> x \<and> x < 2 ^ 31"
  by (auto simp: in_int_def)

section \<open>Writing numbers\<close>

text \<open>The digits of a number, most significant first, in a base up to 16.\<close>

fun base_digits :: "nat \<Rightarrow> nat \<Rightarrow> string" where
  "base_digits b n =
     (if b < 2 \<or> n < b then [digit_char n]
      else base_digits b (n div b) @ [digit_char (n mod b)])"

declare base_digits.simps [simp del]

definition dec_string :: "nat \<Rightarrow> string" where
  "dec_string n = base_digits 10 n"

definition hex_string :: "nat \<Rightarrow> string" where
  "hex_string n = base_digits 16 n"

text \<open>\<^verbatim>\<open>std::setw(w)\<close>: padded on the left with the fill character, a space.\<close>

definition setw :: "nat \<Rightarrow> string \<Rightarrow> string" where
  "setw w s = replicate (w - length s) CHR '' '' @ s"

lemma length_setw: "length (setw w s) = max w (length s)"
  by (simp add: setw_def)

lemma base_digits_nonempty [simp]: "base_digits b n \<noteq> []"
  by (subst base_digits.simps) simp

lemma base_digits_digit:
  "\<lbrakk>2 \<le> b; c \<in> set (base_digits b n)\<rbrakk> \<Longrightarrow> \<exists>d<b. c = digit_char d"
proof (induction b n rule: base_digits.induct)
  case (1 b n)
  show ?case
  proof (cases "n < b")
    case True
    with "1.prems" show ?thesis by (auto simp: base_digits.simps [of b n])
  next
    case False
    with "1.prems" have "c \<in> set (base_digits b (n div b)) \<or> c = digit_char (n mod b)"
      by (auto simp: base_digits.simps [of b n])
    moreover have "n mod b < b" using "1.prems" by simp
    moreover have "c \<in> set (base_digits b (n div b)) \<Longrightarrow> \<exists>d<b. c = digit_char d"
      using "1.IH" False "1.prems"(1) by simp
    ultimately show ?thesis by blast
  qed
qed

lemma length_base_digits:
  "\<lbrakk>2 \<le> b; 0 < k\<rbrakk> \<Longrightarrow> length (base_digits b n) \<le> k \<longleftrightarrow> n < b ^ k"
proof (induction b n arbitrary: k rule: base_digits.induct)
  case (1 b n)
  show ?case
  proof (cases "n < b")
    case True
    have "b \<le> b ^ k" using "1.prems" by (simp add: self_le_power)
    with True "1.prems" show ?thesis by (simp add: base_digits.simps [of b n])
  next
    case False
    then have len: "length (base_digits b n) = Suc (length (base_digits b (n div b)))"
      using "1.prems" by (simp add: base_digits.simps [of b n])
    show ?thesis
    proof (cases "k = 1")
      case True
      with False len show ?thesis by simp
    next
      case k1: False
      then obtain j where k: "k = Suc j" and j: "0 < j" using "1.prems" by (cases k) auto
      have "length (base_digits b (n div b)) \<le> j \<longleftrightarrow> n div b < b ^ j"
        using "1.IH" False "1.prems" j by simp
      also have "\<dots> \<longleftrightarrow> n < b ^ k"
        using "1.prems" k by (simp add: div_less_iff_less_mult mult.commute)
      finally show ?thesis using len k by simp
    qed
  qed
qed

section \<open>Reading numbers\<close>

text \<open>
  \<^verbatim>\<open>is >> std::hex >> v\<close>: leading white space is skipped, then an optional sign, an
  optional prefix \<^verbatim>\<open>0x\<close>, and as many hexadecimal digits as follow. With no digit (also
  none after a prefix) the extraction fails. What follows the digits stays in the stream.
\<close>

fun hex_accum :: "nat \<Rightarrow> string \<Rightarrow> nat" where
  "hex_accum a [] = a"
| "hex_accum a (c # cs) =
     (case xdigit_val c of Some d \<Rightarrow> hex_accum (16 * a + d) cs | None \<Rightarrow> a)"

definition hex_field :: "string \<Rightarrow> nat option" where
  "hex_field s =
     (case s of [] \<Rightarrow> None
      | c # _ \<Rightarrow> if xdigit_val c = None then None else Some (hex_accum 0 s))"

definition hex_prefixed :: "string \<Rightarrow> nat option" where
  "hex_prefixed s =
     (case s of
        z # x # t \<Rightarrow> if z = CHR ''0'' \<and> (x = CHR ''x'' \<or> x = CHR ''X'') then hex_field t else hex_field s
      | _ \<Rightarrow> hex_field s)"

definition stream_hex :: "string \<Rightarrow> (bool \<times> nat) option" where
  "stream_hex s =
     (case dropWhile isspace s of
        c # t \<Rightarrow> if c = CHR ''-'' then map_option (Pair True) (hex_prefixed t)
                else if c = CHR ''+'' then map_option (Pair False) (hex_prefixed t)
                else map_option (Pair False) (hex_prefixed (c # t))
      | [] \<Rightarrow> None)"

text \<open>Into an \<^verbatim>\<open>int\<close>: a value out of range is a failure.\<close>

definition stream_hex_int :: "string \<Rightarrow> int option" where
  "stream_hex_int s =
     (case stream_hex s of
        None \<Rightarrow> None
      | Some (neg, n) \<Rightarrow>
          let v = (if neg then - int n else int n)
          in if - (2 ^ 31) \<le> v \<and> v < 2 ^ 31 then Some v else None)"

text \<open>
  Into a \<^verbatim>\<open>std::size_t\<close>: out of range is a failure, and a minus sign is accepted and
  negates modulo \<open>2 ^ 64\<close>.
\<close>

definition stream_hex_size :: "string \<Rightarrow> nat option" where
  "stream_hex_size s =
     (case stream_hex s of
        None \<Rightarrow> None
      | Some (neg, n) \<Rightarrow>
          if n < 2 ^ 64 then Some (if neg then (2 ^ 64 - n) mod 2 ^ 64 else n) else None)"

lemma hex_accum_append:
  "\<forall>c\<in>set ds. xdigit_val c \<noteq> None \<Longrightarrow> hex_accum a (ds @ ys) = hex_accum (hex_accum a ds) ys"
  by (induction ds arbitrary: a) auto

lemma hex_string_xdigits: "c \<in> set (hex_string n) \<Longrightarrow> xdigit_val c \<noteq> None"
  unfolding hex_string_def by (drule base_digits_digit [rotated]) auto

lemma hex_accum_hex_string: "hex_accum 0 (hex_string n) = n"
proof (induction n rule: less_induct)
  case (less n)
  show ?case
  proof (cases "n < 16")
    case True
    then show ?thesis by (simp add: hex_string_def base_digits.simps [of 16 n])
  next
    case False
    have "hex_string n = hex_string (n div 16) @ [digit_char (n mod 16)]"
      using False by (simp add: hex_string_def base_digits.simps [of 16 n])
    moreover have "hex_accum 0 (hex_string (n div 16)) = n div 16" using less False by simp
    ultimately show ?thesis
      using hex_string_xdigits by (simp add: hex_accum_append)
  qed
qed

lemma xdigit_val_x [simp]: "xdigit_val CHR ''x'' = None" "xdigit_val CHR ''X'' = None"
  "xdigit_val CHR ''-'' = None" "xdigit_val CHR ''+'' = None"
  by (simp_all add: xdigit_val_def)

lemma hex_prefixed_digits:
  assumes "s \<noteq> []" "\<forall>c\<in>set s. xdigit_val c \<noteq> None"
  shows "hex_prefixed s = Some (hex_accum 0 s)"
proof (cases s)
  case Nil
  with assms show ?thesis by simp
next
  case (Cons z t)
  have "\<not> (\<exists>x u. t = x # u \<and> (x = CHR ''x'' \<or> x = CHR ''X''))"
    using assms(2) Cons by auto
  with Cons assms show ?thesis
    by (auto simp: hex_prefixed_def hex_field_def split: list.splits)
qed

lemma dropWhile_isspace_setw:
  "dropWhile isspace (setw w (hex_string n)) = hex_string n"
proof -
  have "\<not> isspace (hd (hex_string n))"
    using base_digits_digit [of 16 "hd (hex_string n)" n]
    by (auto simp: hex_string_def)
  then have "dropWhile isspace (replicate k CHR '' '' @ hex_string n) = hex_string n" for k
    by (intro dropWhile_append_stop) (auto simp: isspace_def)
  then show ?thesis by (simp add: setw_def)
qed

lemma stream_hex_setw: "stream_hex (setw w (hex_string n)) = Some (False, n)"
proof -
  have digs: "\<forall>c\<in>set (hex_string n). xdigit_val c \<noteq> None" using hex_string_xdigits by blast
  have ne: "hex_string n \<noteq> []" by (simp add: hex_string_def)
  then obtain c t where ct: "hex_string n = c # t" by (cases "hex_string n") auto
  then have "c \<noteq> CHR ''-''" "c \<noteq> CHR ''+''" using digs by auto
  moreover have "hex_prefixed (hex_string n) = Some n"
    using hex_prefixed_digits [OF ne digs] hex_accum_hex_string by simp
  moreover have "dropWhile isspace (setw w (hex_string n)) = c # t"
    using dropWhile_isspace_setw [of w n] by (simp only: ct)
  ultimately show ?thesis by (simp add: stream_hex_def ct)
qed

lemma stream_hex_size_setw:
  "n < 2 ^ 64 \<Longrightarrow> stream_hex_size (setw w (hex_string n)) = Some n"
  by (simp add: stream_hex_size_def stream_hex_setw)

end
