(* ===== verification/Tcp_Session.thy ===== *)
theory Tcp_Session
  imports Cpp_Std
begin

text \<open>
  \<^verbatim>\<open>splice/common_types.hpp\<close> and \<^verbatim>\<open>splice/tcp_session.hxx\<close>: the base class of all
  sessions. A session is a record; the derived classes extend it as the C++ classes inherit.
  A member function that starts asynchronous work or calls the derived class returns the new
  state and the list of effects in the order the code performs them; the completion handlers
  are the member functions Asio calls back later with a result.

  The result of each system call on the socket (\<^verbatim>\<open>error_code\<close>) is an argument. Writing
  to the log is not an effect of the model, since the default \<^verbatim>\<open>no_log\<close> discards it, and
  neither are the strand and the handshake timer, whose code is commented out in the source.
\<close>

section \<open>Common types\<close>

text \<open>\<^verbatim>\<open>boost::system::error_code\<close>; \<open>No_error\<close> is the one that tests false.\<close>

datatype error_code = No_error | Operation_aborted | Invalid_argument | Other_error nat

datatype hand_shake_t = Http | Web_socket | Ws_guid | None_tag

fun hand_shake_name :: "hand_shake_t \<Rightarrow> string" where
  "hand_shake_name Http = ''http''"
| "hand_shake_name Web_socket = ''web_socket''"
| "hand_shake_name Ws_guid = ''ws_guid''"
| "hand_shake_name None_tag = ''none''"

text \<open>
  \<^verbatim>\<open>hand_shake_data_t\<close>: the tag and the first \<^verbatim>\<open>size_\<close> bytes of the buffer, the only
  ones its users look at. The buffer is an array of 8192 bytes.
\<close>

record hand_shake_data =
  tag :: hand_shake_t
  hs_bytes :: string

definition buffer_size :: nat where
  "buffer_size = 8192"

section \<open>Sessions and effects\<close>

record tcp_session =
  is_open :: bool

datatype ('h, 'm) effect_of =
    Async_read_some 'h
  | Async_write string 'h
  | Socket_shutdown
  | Socket_close
  | On_shutdown error_code error_code
  | Handshake_fail hand_shake_data
  | On_handshake_success
  | On_read 'm

text \<open>Most sessions deliver strings; a session of serialized objects delivers those.\<close>

type_synonym 'h effect = "('h, string) effect_of"
type_synonym ('h, 'm, 's) step_of = "'s \<times> ('h, 'm) effect_of list"
type_synonym ('h, 's) step = "('h, string, 's) step_of"

text \<open>One member function after another: the second runs in the state the first left.\<close>

definition after_step ::
  "('h, 'm, 's) step_of \<Rightarrow> ('s \<Rightarrow> ('h, 'm, 's) step_of) \<Rightarrow> ('h, 'm, 's) step_of" where
  "after_step r f = (case r of (s, es) \<Rightarrow> case f s of (s', es') \<Rightarrow> (s', es @ es'))"

text \<open>
  A handler returns, or fails an assertion, or lets an exception escape into the event loop, or
  does something the language leaves undefined. All but the first end the program.
\<close>

datatype 'r outcome = Returns 'r | Assertion_failure | Uncaught_exception | Undefined_behaviour

fun outcome_option :: "'r outcome \<Rightarrow> 'r option" where
  "outcome_option (Returns r) = Some r"
| "outcome_option _ = None"

text \<open>\<^verbatim>\<open>move_socket\<close> hands out the socket; its timer cancellation returns 0 at once.\<close>

definition handshake_timeout_cancel :: nat where
  "handshake_timeout_cancel = 0"

definition move_socket :: "'a tcp_session_scheme \<Rightarrow> bool" where
  "move_socket s = is_open s"

text \<open>
  \<^verbatim>\<open>shutdown\<close>: nothing on a closed socket; else shut down both directions, close, and
  report both results. Asio's \<^verbatim>\<open>close\<close> leaves the socket closed also when it reports an
  error. \<open>os\<close> holds the two results.
\<close>

definition shutdown :: "error_code \<times> error_code \<Rightarrow> 'a tcp_session_scheme \<Rightarrow> ('h, 'm, 'a tcp_session_scheme) step_of" where
  "shutdown os s =
     (if \<not> is_open s then (s, [])
      else (s\<lparr>is_open := False\<rparr>, [Socket_shutdown, Socket_close, On_shutdown (fst os) (snd os)]))"

definition on_error :: "error_code \<times> error_code \<Rightarrow> 'a tcp_session_scheme \<Rightarrow> ('h, 'm, 'a tcp_session_scheme) step_of" where
  "on_error os s = shutdown os s"

definition on_error_code ::
  "error_code \<times> error_code \<Rightarrow> error_code \<Rightarrow> 'a tcp_session_scheme \<Rightarrow> ('h, 'm, 'a tcp_session_scheme) step_of" where
  "on_error_code os ec s = shutdown os s"

definition destructor :: "error_code \<times> error_code \<Rightarrow> 'a tcp_session_scheme \<Rightarrow> ('h, 'm, 'a tcp_session_scheme) step_of" where
  "destructor os s = shutdown os s"

text \<open>The message the base class logs in \<^verbatim>\<open>on_shutdown\<close>: how many errors, or one info line.\<close>

datatype severity = Trace | Debug | Info | Warning | Error | Fatal

definition on_shutdown_log :: "error_code \<Rightarrow> error_code \<Rightarrow> severity list" where
  "on_shutdown_log shut_down_ec close_ec =
     (if shut_down_ec \<noteq> No_error then [Error] else []) @
     (if close_ec \<noteq> No_error then [Error] else []) @
     (if shut_down_ec = No_error \<and> close_ec = No_error then [Info] else [])"

section \<open>Reading and writing strings\<close>

text \<open>The completion handlers that the base class installs.\<close>

datatype tcp_handler = On_first_read | On_async_read_string | On_write

definition on_socket_connected :: "'a tcp_session_scheme \<Rightarrow> (tcp_handler, 'a tcp_session_scheme) step" where
  "on_socket_connected s = (s, [Async_read_some On_first_read])"

text \<open>The first read of a multi protocol server in the base class: only the error is handled.\<close>

definition base_first_read ::
  "error_code \<times> error_code \<Rightarrow> error_code \<Rightarrow> string \<Rightarrow> 'a tcp_session_scheme \<Rightarrow> ('h, 'm, 'a tcp_session_scheme) step_of" where
  "base_first_read os ec incoming s = (if ec \<noteq> No_error then on_error_code os ec s else (s, []))"

definition async_read_string :: "'a tcp_session_scheme \<Rightarrow> (tcp_handler, 'a tcp_session_scheme) step" where
  "async_read_string s = (s, [Async_read_some On_async_read_string])"

definition on_async_read_string ::
  "error_code \<times> error_code \<Rightarrow> error_code \<Rightarrow> string \<Rightarrow> 'a tcp_session_scheme \<Rightarrow> (tcp_handler, 'a tcp_session_scheme) step" where
  "on_async_read_string os ec incoming s =
     (if ec \<noteq> No_error then on_error_code os ec s else (s, [On_read incoming]))"

definition async_write :: "string \<Rightarrow> 'a tcp_session_scheme \<Rightarrow> (tcp_handler, 'a tcp_session_scheme) step" where
  "async_write msg s = (s, [Async_write msg On_write])"

definition on_write ::
  "error_code \<times> error_code \<Rightarrow> error_code \<Rightarrow> 'a tcp_session_scheme \<Rightarrow> (tcp_handler, 'a tcp_session_scheme) step" where
  "on_write os ec s = (if ec \<noteq> No_error then on_error_code os ec s else (s, []))"

text \<open>
  \<^verbatim>\<open>handshake\<close>: the derived class decides (\<open>accepts\<close>, its \<^verbatim>\<open>try_handshake\<close>); on refusal
  the failure handler gets the same data and the socket.
\<close>

definition handshake ::
  "(hand_shake_data \<Rightarrow> bool) \<Rightarrow> hand_shake_data \<Rightarrow> 'a tcp_session_scheme \<Rightarrow> ('h, 'm, 'a tcp_session_scheme) step_of" where
  "handshake accepts incoming s =
     (if accepts incoming then (s, [On_handshake_success]) else (s, [Handshake_fail incoming]))"

lemmas tcp_defs [handler_defs] =
  shutdown_def on_error_def on_error_code_def destructor_def on_socket_connected_def
  base_first_read_def async_read_string_def on_async_read_string_def async_write_def
  on_write_def handshake_def

section \<open>Shutting down happens once\<close>

text \<open>The calls that can end a session, in any order and number.\<close>

datatype closing_call =
    Call_shutdown "error_code \<times> error_code"
  | Call_on_error "error_code \<times> error_code"
  | Call_on_error_code "error_code \<times> error_code" error_code
  | Call_on_write "error_code \<times> error_code" error_code
  | Call_on_read "error_code \<times> error_code" error_code string
  | Call_destructor "error_code \<times> error_code"

fun closing_step :: "closing_call \<Rightarrow> 'a tcp_session_scheme \<Rightarrow> (tcp_handler, 'a tcp_session_scheme) step" where
  "closing_step (Call_shutdown os) s = shutdown os s"
| "closing_step (Call_on_error os) s = on_error os s"
| "closing_step (Call_on_error_code os ec) s = on_error_code os ec s"
| "closing_step (Call_on_write os ec) s = on_write os ec s"
| "closing_step (Call_on_read os ec str) s = on_async_read_string os ec str s"
| "closing_step (Call_destructor os) s = destructor os s"

fun closing_run :: "closing_call list \<Rightarrow> 'a tcp_session_scheme \<Rightarrow> (tcp_handler, 'a tcp_session_scheme) step" where
  "closing_run [] s = (s, [])"
| "closing_run (c # cs) s = after_step (closing_step c s) (closing_run cs)"

fun is_on_shutdown :: "('h, 'm) effect_of \<Rightarrow> bool" where
  "is_on_shutdown (On_shutdown a b) = True"
| "is_on_shutdown e = False"

definition closing_effect :: "('h, 'm) effect_of \<Rightarrow> bool" where
  "closing_effect e \<longleftrightarrow> e = Socket_shutdown \<or> e = Socket_close \<or> is_on_shutdown e"

lemma closing_effect_simps [simp]:
  "closing_effect Socket_shutdown" "closing_effect Socket_close" "closing_effect (On_shutdown a b)"
  "\<not> closing_effect (On_read x)"
  by (simp_all add: closing_effect_def)

lemma closing_step_closed:
  "\<not> is_open s \<Longrightarrow> \<exists>es. closing_step c s = (s, es) \<and> filter closing_effect es = []"
  by (cases c) (auto simp: tcp_defs)

lemma closing_run_closed:
  "\<not> is_open s \<Longrightarrow> \<exists>es. closing_run cs s = (s, es) \<and> filter closing_effect es = []"
proof (induction cs)
  case (Cons c cs)
  from closing_step_closed [OF Cons.prems, of c] Cons show ?case
    by (fastforce simp: after_step_def)
qed simp

lemma closing_step_open:
  assumes "is_open s"
  shows "(\<exists>es. closing_step c s = (s, es) \<and> filter closing_effect es = []) \<or>
         (\<exists>a b. closing_step c s =
            (s\<lparr>is_open := False\<rparr>, [Socket_shutdown, Socket_close, On_shutdown a b]))"
  using assms by (cases c) (auto simp: tcp_defs)

lemma closing_run_open:
  "is_open s \<Longrightarrow>
     (\<exists>es. closing_run cs s = (s, es) \<and> filter closing_effect es = []) \<or>
     (\<exists>es a b. closing_run cs s = (s\<lparr>is_open := False\<rparr>, es) \<and>
        filter closing_effect es = [Socket_shutdown, Socket_close, On_shutdown a b])"
proof (induction cs)
  case (Cons c cs)
  from closing_step_open [OF Cons.prems, of c] show ?case
  proof (elim disjE exE)
    fix es assume "closing_step c s = (s, es) \<and> filter closing_effect es = []"
    with Cons show ?thesis by (fastforce simp: after_step_def)
  next
    fix a b
    assume c: "closing_step c s =
      (s\<lparr>is_open := False\<rparr>, [Socket_shutdown, Socket_close, On_shutdown a b])"
    obtain es where "closing_run cs (s\<lparr>is_open := False\<rparr>) = (s\<lparr>is_open := False\<rparr>, es)"
      "filter closing_effect es = []"
      using closing_run_closed [of "s\<lparr>is_open := False\<rparr>" cs] by auto
    with c show ?thesis by (auto simp: after_step_def)
  qed
qed simp

section \<open>Properties\<close>

text \<open>
  C10. A session shuts its socket down exactly once: over any sequence of errors, write and
  read completions and explicit shutdowns that ends with the destructor, an open socket is
  shut down, then closed, then reported to \<^verbatim>\<open>on_shutdown\<close>, each once and in this order,
  and is closed at the end; a socket that was moved away or closed before is never touched.
\<close>

theorem shutdown_exactly_once:
  "\<exists>s' es. closing_run (cs @ [Call_destructor os]) s = (s', es) \<and> \<not> is_open s' \<and>
     (if is_open s
      then \<exists>a b. filter closing_effect es = [Socket_shutdown, Socket_close, On_shutdown a b]
      else filter closing_effect es = [])"
proof -
  have app: "closing_run (cs @ [d]) s = after_step (closing_run cs s) (closing_step d)" for d
    by (induction cs arbitrary: s) (auto simp: after_step_def split: prod.splits)
  show ?thesis
  proof (cases "is_open s")
    case True
    from closing_run_open [OF True, of cs] show ?thesis
      by (elim disjE exE) (use True in \<open>auto simp: app after_step_def tcp_defs\<close>)
  next
    case False
    from closing_run_closed [OF False, of cs] show ?thesis
      by (elim exE) (use False in \<open>auto simp: app after_step_def tcp_defs\<close>)
  qed
qed

end
