(* ===== verification/Logger.thy ===== *)
theory Logger
  imports Tcp_Session
begin

text \<open>
  \<^verbatim>\<open>splice/logger/log_interface.hpp\<close> and the formatting of the example's
  \<^verbatim>\<open>my_logger.cpp\<close>: how messages, file names and function names are put into a line of
  the log. Where the lines go (files, Boost.Log sinks, signals) is not modelled.
\<close>

section \<open>Abbreviating data\<close>

text \<open>\<^verbatim>\<open>ss << (int)c\<close> for a signed character.\<close>

definition int_string :: "int \<Rightarrow> string" where
  "int_string n = (if n < 0 then CHR ''-'' # dec_string (nat (- n)) else dec_string (nat n))"

definition shown_char :: "char \<Rightarrow> string" where
  "shown_char c = (if isprint c then [c] else CHR 0x5C # int_string (sc c))"

text \<open>
  The loop of \<^verbatim>\<open>reduce\<close> for long data: \<open>it\<close> is the iterator as an offset, \<open>i\<close> the
  counter. At \<open>i = 9\<close> the iterator jumps to eleven before the end and is then advanced.
\<close>

function reduce_loop :: "string \<Rightarrow> nat \<Rightarrow> nat \<Rightarrow> string" where
  "reduce_loop s it i =
     (if it \<ge> length s then []
      else shown_char (s ! it) @
        (if i = 9 then '' ... '' @ reduce_loop s (Suc (length s - 11)) (Suc i)
         else reduce_loop s (Suc it) (Suc i)))"
  by pat_completeness auto

termination
  by (relation "measure (\<lambda>(s, it, i). if i \<le> 9 then length s + 20 - i else length s - it)") auto

declare reduce_loop.simps [simp del]

definition reduce :: "string \<Rightarrow> string" where
  "reduce s =
     CHR 0x22 # (if length s < 2 * 10 + 5 then s else reduce_loop s 0 0) @ [CHR 0x22]"

lemma reduce_loop_tail:
  "10 \<le> i \<Longrightarrow> it \<le> length s \<Longrightarrow> reduce_loop s it i = concat (map shown_char (drop it s))"
proof (induction "length s - it" arbitrary: it i)
  case 0
  then show ?case by (simp add: reduce_loop.simps [of s it i])
next
  case (Suc n)
  then have "it < length s" by simp
  then show ?case
    using Suc.hyps(1) [of "Suc it" "Suc i"] Suc.hyps(2) Suc.prems
    by (simp add: reduce_loop.simps [of s it i] Cons_nth_drop_Suc [symmetric])
qed

lemma reduce_loop_head:
  "\<lbrakk>i \<le> 9; 25 \<le> length s\<rbrakk> \<Longrightarrow>
     reduce_loop s i i = concat (map shown_char (drop i (take 10 s))) @ '' ... '' @
       concat (map shown_char (drop (length s - 10) s))"
proof (induction "9 - i" arbitrary: i)
  case 0
  then have i: "i = 9" by simp
  have "drop 9 (take 10 s) = [s ! 9]"
    using 0 by (intro nth_equalityI) auto
  moreover have "Suc (length s - 11) = length s - 10" using 0 by simp
  ultimately show ?case
    using 0 by (simp add: i reduce_loop.simps [of s 9 9] reduce_loop_tail)
next
  case (Suc n)
  then have "i < 9" by simp
  moreover have "drop i (take 10 s) = s ! i # drop (Suc i) (take 10 s)"
    using Suc \<open>i < 9\<close> by (simp add: Cons_nth_drop_Suc [symmetric])
  ultimately show ?case
    using Suc.hyps(1) [of "Suc i"] Suc.hyps(2) Suc.prems
    by (simp add: reduce_loop.simps [of s i i])
qed

section \<open>Names\<close>

definition is_separator :: "char \<Rightarrow> bool" where
  "is_separator c \<longleftrightarrow> c = CHR 0x5C \<or> c = CHR ''/'' \<or> c = CHR '':''"

text \<open>
  \<^verbatim>\<open>extract_file_name\<close> walks back from the last character. Its index is unsigned, so the
  test \<^verbatim>\<open>i>=0\<close> never ends the loop: below the first character it reads outside the string,
  which is \<open>None\<close>.
\<close>

fun scan_back :: "string \<Rightarrow> nat \<Rightarrow> nat option" where
  "scan_back path 0 = None"
| "scan_back path (Suc i) = (if is_separator (path ! i) then Some i else scan_back path i)"

definition extract_file_name :: "string \<Rightarrow> string option" where
  "extract_file_name path = map_option (\<lambda>i. drop (Suc i) path) (scan_back path (length path))"

text \<open>\<^verbatim>\<open>rfind\<close>, and the part of a function name after the last scope operator.\<close>

fun str_rfind :: "'a list \<Rightarrow> 'a list \<Rightarrow> nat option" where
  "str_rfind p [] = (if p = [] then Some 0 else None)"
| "str_rfind p (c # cs) =
     (case str_rfind p cs of
        Some i \<Rightarrow> Some (Suc i)
      | None \<Rightarrow> if starts_with p (c # cs) then Some 0 else None)"

definition extract_func_name :: "string \<Rightarrow> string" where
  "extract_func_name func =
     (case str_rfind ''::'' func of None \<Rightarrow> func | Some i \<Rightarrow> drop (i + 2) func)"

text \<open>The prefix of a log line; \<open>obj\<close> is the printed address of the session.\<close>

definition file_func_name :: "char \<Rightarrow> string \<Rightarrow> nat \<Rightarrow> string \<Rightarrow> string \<Rightarrow> string option" where
  "file_func_name severity path line func obj =
     map_option (\<lambda>f. [severity] @ ''|'' @ f @ ''@'' @ dec_string line
        @ ''|(0x'' @ obj @ '')->'' @ extract_func_name func) (extract_file_name path)"

text \<open>The text the logging functions pass on; the info level adds the size.\<close>

definition log_text :: "string \<Rightarrow> string \<Rightarrow> string" where
  "log_text msg bytes = msg @ reduce bytes"

definition log_info_text :: "string \<Rightarrow> string \<Rightarrow> string" where
  "log_info_text msg bytes = msg @ '' size='' @ dec_string (length bytes) @ reduce bytes"

text \<open>The line \<^verbatim>\<open>my_logger::track\<close> hands to its signal and writes to its file.\<close>

definition track :: "string \<Rightarrow> char \<Rightarrow> string \<Rightarrow> nat \<Rightarrow> string \<Rightarrow> string \<Rightarrow> string \<Rightarrow> string option" where
  "track thread severity path line func obj msg =
     map_option (\<lambda>ffn. thread @ ''|'' @ ffn @ '' '' @ msg @ [CHR 0x0A])
       (file_func_name severity path line func obj)"

section \<open>The loggers\<close>

text \<open>
  \<^verbatim>\<open>log_trace_t\<close> to \<^verbatim>\<open>log_fatal_t\<close>: the file name and the text that the logging function of the
  derived class gets.
\<close>

definition log_level_t :: "severity \<Rightarrow> string \<Rightarrow> string \<Rightarrow> string \<Rightarrow> (string \<times> string) option" where
  "log_level_t level path msg bytes =
     map_option (\<lambda>f. (f, if level = Info then log_info_text msg bytes else log_text msg bytes))
       (extract_file_name path)"

fun severity_letter :: "severity \<Rightarrow> char" where
  "severity_letter Trace = CHR ''T''"
| "severity_letter Debug = CHR ''D''"
| "severity_letter Info = CHR ''I''"
| "severity_letter Warning = CHR ''W''"
| "severity_letter Error = CHR ''E''"
| "severity_letter Fatal = CHR ''F''"

text \<open>
  The logging functions of the example's \<^verbatim>\<open>my_logger\<close>, with the lines they write. A release
  build (\<open>ndebug\<close>) has no \<^verbatim>\<open>log_trace\<close> and \<^verbatim>\<open>log_debug\<close> of its own and inherits the empty ones.
\<close>

definition my_logger_log ::
  "bool \<Rightarrow> severity \<Rightarrow> string \<Rightarrow> string \<Rightarrow> nat \<Rightarrow> string \<Rightarrow> string \<Rightarrow> string \<Rightarrow> string list option" where
  "my_logger_log ndebug level thread path line func obj msg =
     (if ndebug \<and> (level = Trace \<or> level = Debug) then Some []
      else map_option (\<lambda>l. [l]) (track thread (severity_letter level) path line func obj msg))"

text \<open>The logger of the mono protocol examples writes to the console, without the thread.\<close>

definition console_log :: "severity \<Rightarrow> string \<Rightarrow> nat \<Rightarrow> string \<Rightarrow> string \<Rightarrow> string \<Rightarrow> string option" where
  "console_log level path line func obj msg =
     map_option (\<lambda>ffn. ffn @ '' '' @ msg @ [CHR 0x0A])
       (file_func_name (severity_letter level) path line func obj)"

text \<open>The WebSocket echo server and the echo client write the same logger out again.\<close>

definition ws_server_log :: "severity \<Rightarrow> string \<Rightarrow> nat \<Rightarrow> string \<Rightarrow> string \<Rightarrow> string \<Rightarrow> string option" where
  "ws_server_log level path line func obj msg = console_log level path line func obj msg"

definition client_log :: "severity \<Rightarrow> string \<Rightarrow> nat \<Rightarrow> string \<Rightarrow> string \<Rightarrow> string \<Rightarrow> string option" where
  "client_log level path line func obj msg = console_log level path line func obj msg"

lemma scan_back_None_iff: "scan_back path n = None \<longleftrightarrow> (\<forall>i<n. \<not> is_separator (path ! i))"
  by (induction n) (auto simp: less_Suc_eq)

lemma scan_back_Some:
  "scan_back path n = Some i \<Longrightarrow>
     i < n \<and> is_separator (path ! i) \<and> (\<forall>j. i < j \<and> j < n \<longrightarrow> \<not> is_separator (path ! j))"
  by (induction n) (auto simp: less_Suc_eq split: if_splits)

lemma extract_file_name_append:
  assumes "is_separator c" "list_all (\<lambda>x. \<not> is_separator x) base"
  shows "extract_file_name (dir @ c # base) = Some base"
proof -
  let ?p = "dir @ c # base"
  have no: "\<not> is_separator (?p ! j)" if "length dir < j" "j < length ?p" for j
    using that assms(2) by (auto simp: nth_append list_all_length nth_Cons' )
  have "scan_back ?p (length ?p) = Some (length dir)"
  proof (cases "scan_back ?p (length ?p)")
    case None
    then have "\<forall>i<length ?p. \<not> is_separator (?p ! i)" unfolding scan_back_None_iff .
    then have "\<not> is_separator (?p ! length dir)" by (rule allE [of _ "length dir"]) simp
    with assms(1) show ?thesis by simp
  next
    case (Some i)
    from scan_back_Some [OF Some] have i: "i < length ?p" "is_separator (?p ! i)"
      "\<forall>j. i < j \<and> j < length ?p \<longrightarrow> \<not> is_separator (?p ! j)" by auto
    have "\<not> i < length dir" using i(3) assms(1) by (auto dest: spec [of _ "length dir"])
    moreover have "\<not> length dir < i" using no i by blast
    ultimately show ?thesis using Some by simp
  qed
  then show ?thesis by (simp add: extract_file_name_def)
qed

text \<open>
  A file name has no separator left, so extracting it a second time, as the loggers do with
  the name that \<^verbatim>\<open>log_info_t\<close> and its like pass on, runs below the beginning of the name. That
  ends at once only because the name lies in the string of its path, behind the separator.
\<close>

lemma extract_file_name_twice:
  assumes "extract_file_name path = Some f"
  shows "extract_file_name f = None"
proof -
  obtain i where i: "scan_back path (length path) = Some i" "f = drop (Suc i) path"
    using assms by (auto simp: extract_file_name_def)
  from scan_back_Some [OF i(1)] have "\<forall>j<length f. \<not> is_separator (f ! j)" by (auto simp: i(2))
  then show ?thesis by (simp add: extract_file_name_def scan_back_None_iff)
qed

lemma second_extraction_fails:
  assumes "log_level_t level path msg bytes = Some (f, t)"
  shows "console_log level f line func obj t = None \<and> track thread c f line func obj t = None"
  using assms
  by (auto simp: log_level_t_def console_log_def track_def file_func_name_def
      dest: extract_file_name_twice)

section \<open>What the log shows\<close>

text \<open>
  What the log shows of received data: up to 24 bytes as they are, otherwise the first
  ten and the last ten with the unprintable ones as numbers, never the middle.
\<close>

lemma reduce_correct:
  "reduce s =
     [CHR 0x22] @
     (if length s < 25 then s
      else concat (map shown_char (take 10 s)) @ '' ... '' @
           concat (map shown_char (drop (length s - 10) s))) @
     [CHR 0x22]"
  using reduce_loop_head [of 0 s] by (simp add: reduce_def)

text \<open>
  The file name of a log line is what follows the last separator of the path; a path
  without any separator makes the loop run off the front of the string.
\<close>

lemma extract_file_name_correct:
  "extract_file_name path =
     (if list_ex is_separator path
      then Some (rev (takeWhile (\<lambda>c. \<not> is_separator c) (rev path)))
      else None)"
proof (cases "list_ex is_separator path")
  case True
  then obtain dir c base where p: "path = dir @ c # base" "is_separator c"
    "\<forall>x\<in>set base. \<not> is_separator x"
    by (metis list_ex_iff split_list_last_prop)
  have "takeWhile (\<lambda>c. \<not> is_separator c) (rev base @ c # rev dir) = rev base"
    using p(2,3) by (intro takeWhile_append_stop) auto
  with True p extract_file_name_append [of c base dir] show ?thesis
    by (simp add: list_all_iff)
next
  case False
  then show ?thesis
    by (auto simp: extract_file_name_def scan_back_None_iff list_ex_length)
qed

end
