(* ===== verification/Http_Message.thy ===== *)
theory Http_Message
  imports Cpp_Std
begin

text \<open>
  The HTTP messages of \<^verbatim>\<open>splice/http\<close>: \<^verbatim>\<open>header.hpp\<close>, \<^verbatim>\<open>request.hpp\<close>,
  \<^verbatim>\<open>reply.hpp\<close> and \<^verbatim>\<open>reply.hxx\<close>. A buffer sequence is a list of strings in the order
  the code pushes them; the bytes on the wire are its concatenation, because the sessions
  hand the sequence to one gathering \<^verbatim>\<open>async_write\<close>. The second half reads a reply back
  from the wire the way a client does, to state that the framing is right.
\<close>

section \<open>Headers and requests\<close>

record header =
  hname :: string
  hvalue :: string

text \<open>The two version fields are of type \<^verbatim>\<open>int\<close>, and may have overflowed.\<close>

record request =
  req_method :: string
  req_uri :: string
  http_version_major :: cint
  http_version_minor :: cint
  req_headers :: "header list"

text \<open>
  \<^verbatim>\<open>request\<close> has no constructor: the strings and the vector start empty, the two
  integers hold whatever was in memory, here the two arguments.
\<close>

definition mk_request :: "32 word \<Rightarrow> 32 word \<Rightarrow> request" where
  "mk_request major minor =
     \<lparr>req_method = [], req_uri = [], http_version_major = Some (sint major),
      http_version_minor = Some (sint minor),
      req_headers = []\<rparr>"

definition crlf :: string where
  "crlf = [CHR 0x0D, CHR 0x0A]"

definition name_value_separator :: string where
  "name_value_separator = '': ''"

section \<open>Replies\<close>

datatype status_type =
    Ok | Created | Accepted | No_content
  | Multiple_choices | Moved_permanently | Moved_temporarily | Not_modified
  | Bad_request | Unauthorized | Forbidden | Not_found
  | Internal_server_error | Not_implemented | Bad_gateway | Service_unavailable

fun status_code :: "status_type \<Rightarrow> nat" where
  "status_code Ok = 200"
| "status_code Created = 201"
| "status_code Accepted = 202"
| "status_code No_content = 204"
| "status_code Multiple_choices = 300"
| "status_code Moved_permanently = 301"
| "status_code Moved_temporarily = 302"
| "status_code Not_modified = 304"
| "status_code Bad_request = 400"
| "status_code Unauthorized = 401"
| "status_code Forbidden = 403"
| "status_code Not_found = 404"
| "status_code Internal_server_error = 500"
| "status_code Not_implemented = 501"
| "status_code Bad_gateway = 502"
| "status_code Service_unavailable = 503"

record reply =
  status :: status_type
  rep_headers :: "header list"
  content :: string

text \<open>\<^verbatim>\<open>status_strings::to_buffer\<close>: the status line of each status.\<close>

fun status_line :: "status_type \<Rightarrow> string" where
  "status_line Ok = ''HTTP/1.0 200 OK'' @ crlf"
| "status_line Created = ''HTTP/1.0 201 Created'' @ crlf"
| "status_line Accepted = ''HTTP/1.0 202 Accepted'' @ crlf"
| "status_line No_content = ''HTTP/1.0 204 No Content'' @ crlf"
| "status_line Multiple_choices = ''HTTP/1.0 300 Multiple Choices'' @ crlf"
| "status_line Moved_permanently = ''HTTP/1.0 301 Moved Permanently'' @ crlf"
| "status_line Moved_temporarily = ''HTTP/1.0 302 Moved Temporarily'' @ crlf"
| "status_line Not_modified = ''HTTP/1.0 304 Not Modified'' @ crlf"
| "status_line Bad_request = ''HTTP/1.0 400 Bad Request'' @ crlf"
| "status_line Unauthorized = ''HTTP/1.0 401 Unauthorized'' @ crlf"
| "status_line Forbidden = ''HTTP/1.0 403 Forbidden'' @ crlf"
| "status_line Not_found = ''HTTP/1.0 404 Not Found'' @ crlf"
| "status_line Internal_server_error = ''HTTP/1.0 500 Internal Server Error'' @ crlf"
| "status_line Not_implemented = ''HTTP/1.0 501 Not Implemented'' @ crlf"
| "status_line Bad_gateway = ''HTTP/1.0 502 Bad Gateway'' @ crlf"
| "status_line Service_unavailable = ''HTTP/1.0 503 Service Unavailable'' @ crlf"

text \<open>\<^verbatim>\<open>reply::to_buffers\<close>.\<close>

fun header_buffers :: "header list \<Rightarrow> string list" where
  "header_buffers [] = []"
| "header_buffers (h # hs) =
     hname h # name_value_separator # hvalue h # crlf # header_buffers hs"

definition to_buffers :: "reply \<Rightarrow> string list" where
  "to_buffers rep =
     status_line (status rep) # header_buffers (rep_headers rep) @ [crlf, content rep]"

text \<open>The literal pages of \<^verbatim>\<open>stock_replies\<close>, whose two slots are the title and the heading.\<close>

definition stock_page :: "string \<Rightarrow> string \<Rightarrow> string" where
  "stock_page title heading =
     ''<html>'' @ ''<head><title>'' @ title @ ''</title></head>''
     @ ''<body><h1>'' @ heading @ ''</h1></body>'' @ ''</html>''"

fun stock_content :: "status_type \<Rightarrow> string" where
  "stock_content Ok = []"
| "stock_content Created = stock_page ''Created'' ''201 Created''"
| "stock_content Accepted = stock_page ''Accepted'' ''202 Accepted''"
| "stock_content No_content = stock_page ''No Content'' ''204 Content''"
| "stock_content Multiple_choices = stock_page ''Multiple Choices'' ''300 Multiple Choices''"
| "stock_content Moved_permanently = stock_page ''Moved Permanently'' ''301 Moved Permanently''"
| "stock_content Moved_temporarily = stock_page ''Moved Temporarily'' ''302 Moved Temporarily''"
| "stock_content Not_modified = stock_page ''Not Modified'' ''304 Not Modified''"
| "stock_content Bad_request = stock_page ''Bad Request'' ''400 Bad Request''"
| "stock_content Unauthorized = stock_page ''Unauthorized'' ''401 Unauthorized''"
| "stock_content Forbidden = stock_page ''Forbidden'' ''403 Forbidden''"
| "stock_content Not_found = stock_page ''Not Found'' ''404 Not Found''"
| "stock_content Internal_server_error =
     stock_page ''Internal Server Error'' ''500 Internal Server Error''"
| "stock_content Not_implemented = stock_page ''Not Implemented'' ''501 Not Implemented''"
| "stock_content Bad_gateway = stock_page ''Bad Gateway'' ''502 Bad Gateway''"
| "stock_content Service_unavailable =
     stock_page ''Service Unavailable'' ''503 Service Unavailable''"

text \<open>
  The two headers both \<^verbatim>\<open>stock_reply\<close> and \<^verbatim>\<open>handle_request\<close> write after
  \<^verbatim>\<open>headers.resize(2)\<close>.
\<close>

definition length_and_type :: "string \<Rightarrow> string \<Rightarrow> header list" where
  "length_and_type body mime =
     [\<lparr>hname = ''Content-Length'', hvalue = dec_string (length body)\<rparr>,
      \<lparr>hname = ''Content-Type'', hvalue = mime\<rparr>]"

definition stock_reply :: "status_type \<Rightarrow> reply" where
  "stock_reply st =
     \<lparr>status = st, rep_headers = length_and_type (stock_content st) ''text/html'',
      content = stock_content st\<rparr>"

section \<open>Reading a reply back\<close>

text \<open>
  A client reads lines that end in CR LF up to an empty one; what follows is the body.
  \<open>unframe\<close> returns the lines (without their ends) and the body.
\<close>

fun read_line :: "string \<Rightarrow> (string \<times> string) option" where
  "read_line (c # d # cs) =
     (if c = CHR 0x0D \<and> d = CHR 0x0A then Some ([], cs)
      else map_option (\<lambda>(l, rest). (c # l, rest)) (read_line (d # cs)))"
| "read_line _ = None"

lemma read_line_shorter: "read_line s = Some (l, rest) \<Longrightarrow> length rest < length s"
  by (induction s arbitrary: l rule: read_line.induct) (auto split: if_splits)

function unframe :: "string \<Rightarrow> (string list \<times> string) option" where
  "unframe s =
     (case read_line s of
        None \<Rightarrow> None
      | Some (l, rest) \<Rightarrow>
          if l = [] then Some ([], rest)
          else map_option (\<lambda>(ls, body). (l # ls, body)) (unframe rest))"
  by pat_completeness auto
termination
  by (relation "measure length") (auto dest: read_line_shorter)

declare unframe.simps [simp del]

definition no_cr :: "string \<Rightarrow> bool" where
  "no_cr s \<longleftrightarrow> CHR 0x0D \<notin> set s"

lemma no_cr_simps [simp]:
  "no_cr []" "no_cr (c # s) \<longleftrightarrow> c \<noteq> CHR 0x0D \<and> no_cr s" "no_cr (s @ t) \<longleftrightarrow> no_cr s \<and> no_cr t"
  by (auto simp: no_cr_def)

lemma read_line_crlf: "no_cr l \<Longrightarrow> read_line (l @ crlf @ rest) = Some (l, rest)"
proof (induction l)
  case Nil
  show ?case by (simp add: crlf_def)
next
  case (Cons c l)
  obtain d cs where "l @ crlf @ rest = d # cs" by (cases "l @ crlf @ rest") (auto simp: crlf_def)
  with Cons show ?case by simp
qed

lemma unframe_line:
  "\<lbrakk>no_cr l; l \<noteq> []\<rbrakk> \<Longrightarrow>
     unframe (l @ crlf @ rest) = map_option (\<lambda>(ls, body). (l # ls, body)) (unframe rest)"
  by (simp add: unframe.simps [of "l @ crlf @ rest"] read_line_crlf)

lemma unframe_end: "unframe (crlf @ body) = Some ([], body)"
  using read_line_crlf [of "[]" body] by (simp add: unframe.simps [of "crlf @ body"])

definition header_line :: "header \<Rightarrow> string" where
  "header_line h = hname h @ name_value_separator @ hvalue h"

definition clean_header :: "header \<Rightarrow> bool" where
  "clean_header h \<longleftrightarrow> no_cr (hname h) \<and> no_cr (hvalue h)"

lemma unframe_headers:
  "list_all clean_header hs \<Longrightarrow>
     unframe (concat (header_buffers hs) @ crlf @ body) = Some (map header_line hs, body)"
proof (induction hs)
  case Nil
  show ?case by (simp add: unframe_end)
next
  case (Cons h hs)
  have "no_cr (header_line h)" "header_line h \<noteq> []"
    using Cons.prems by (auto simp: header_line_def clean_header_def name_value_separator_def)
  from unframe_line [OF this, of "concat (header_buffers hs) @ crlf @ body"] Cons
  show ?case by (simp add: header_line_def)
qed

text \<open>The status line without its CR LF, which is what a client sees.\<close>

definition status_text :: "status_type \<Rightarrow> string" where
  "status_text st = butlast (butlast (status_line st))"

lemma status_line_text: "status_line st = status_text st @ crlf"
  by (cases st) (simp_all add: status_text_def crlf_def)

lemma status_text_line [simp]: "no_cr (status_text st)" "status_text st \<noteq> []"
  by (cases st; simp add: status_text_def crlf_def)+

lemma unframe_to_buffers:
  assumes "list_all clean_header (rep_headers rep)"
  shows "unframe (concat (to_buffers rep)) =
           Some (status_text (status rep) # map header_line (rep_headers rep), content rep)"
proof -
  have "concat (to_buffers rep) =
      status_text (status rep) @ crlf @ concat (header_buffers (rep_headers rep)) @ crlf @ content rep"
    by (simp add: to_buffers_def status_line_text)
  then show ?thesis
    by (simp add: unframe_line unframe_headers [OF assms])
qed

lemma no_cr_dec_string [simp]: "no_cr (dec_string n)"
proof -
  have "d < 10 \<Longrightarrow> digit_char d \<noteq> CHR 0x0D" for d
    by (rule notI, drule arg_cong [where f = "of_char :: char \<Rightarrow> nat"]) simp
  then show ?thesis
    using base_digits_digit [of 10 _ n] by (fastforce simp: no_cr_def dec_string_def)
qed

lemma clean_length_and_type:
  "no_cr mime \<Longrightarrow> list_all clean_header (length_and_type body mime)"
  by (simp add: length_and_type_def clean_header_def)

end
