(* ===== verification/Http_Parser.thy ===== *)
theory Http_Parser
  imports Http_Message
begin

text \<open>
  The request parser of \<^verbatim>\<open>splice/http/request_parser.hpp\<close> and \<^verbatim>\<open>.hxx\<close>: a state
  machine over characters that fills in a request. Then what it recognises: a printer of
  requests, the fact that the parser inverts it on every well-formed request, and the
  invariant that keeps \<^verbatim>\<open>headers.back()\<close> away from an empty vector.
\<close>

section \<open>The state machine\<close>

datatype parser_state =
    Method_start | Method | Uri
  | Http_version_h | Http_version_t_1 | Http_version_t_2 | Http_version_p | Http_version_slash
  | Http_version_major_start | Http_version_major | Http_version_minor_start | Http_version_minor
  | Expecting_newline_1 | Header_line_start | Header_lws | Header_name
  | Space_before_header_value | Header_value | Expecting_newline_2 | Expecting_newline_3

definition parser_init :: parser_state where
  "parser_init = Method_start"

definition reset :: "parser_state \<Rightarrow> parser_state" where
  "reset st = Method_start"

definition is_char :: "int \<Rightarrow> bool" where
  "is_char c \<longleftrightarrow> 0 \<le> c \<and> c \<le> 127"

definition is_ctl :: "int \<Rightarrow> bool" where
  "is_ctl c \<longleftrightarrow> (0 \<le> c \<and> c \<le> 31) \<or> c = 127"

text \<open>The \<^verbatim>\<open>case\<close> labels of \<^verbatim>\<open>is_tspecial\<close>, in the order of the source.\<close>

definition tspecials :: "char list" where
  "tspecials =
     [CHR ''('', CHR '')'', CHR ''<'', CHR ''>'', CHR ''@'',
      CHR '','', CHR '';'', CHR '':'', CHR 0x5C, CHR 0x22,
      CHR ''/'', CHR ''['', CHR '']'', CHR ''?'', CHR ''='',
      CHR ''{'', CHR ''}'', CHR '' '', CHR 0x09]"

definition is_tspecial :: "int \<Rightarrow> bool" where
  "is_tspecial c \<longleftrightarrow> list_ex (\<lambda>t. c = sc t) tspecials"

definition is_digit :: "int \<Rightarrow> bool" where
  "is_digit c \<longleftrightarrow> sc CHR ''0'' \<le> c \<and> c \<le> sc CHR ''9''"

text \<open>The test that the method and the header names share.\<close>

definition bad_token_char :: "char \<Rightarrow> bool" where
  "bad_token_char c \<longleftrightarrow> \<not> is_char (sc c) \<or> is_ctl (sc c) \<or> is_tspecial (sc c)"

text \<open>
  \<^verbatim>\<open>headers.back().name.push_back(c)\<close> and the same for the value. On an empty vector
  \<^verbatim>\<open>back()\<close> is undefined behaviour; here nothing is appended then, and
  \<open>reachable_back_ok\<close> below shows that the parser never gets there.
\<close>

fun back_name_push :: "char \<Rightarrow> header list \<Rightarrow> header list" where
  "back_name_push c [] = []"
| "back_name_push c [h] = [h\<lparr>hname := hname h @ [c]\<rparr>]"
| "back_name_push c (h # hs) = h # back_name_push c hs"

fun back_value_push :: "char \<Rightarrow> header list \<Rightarrow> header list" where
  "back_value_push c [] = []"
| "back_value_push c [h] = [h\<lparr>hvalue := hvalue h @ [c]\<rparr>]"
| "back_value_push c (h # hs) = h # back_value_push c hs"

text \<open>
  \<^verbatim>\<open>v * 10 + input - '0'\<close>, from left to right in \<^verbatim>\<open>int\<close>. Each of the three results must be in
  range; after an overflow, which is undefined, the value is \<open>None\<close> for good.
\<close>

definition push_digit :: "cint \<Rightarrow> char \<Rightarrow> cint" where
  "push_digit v c =
     Option.bind v (\<lambda>n. Option.bind (in_int (n * 10)) (\<lambda>x. Option.bind (in_int (x + sc c))
       (\<lambda>y. in_int (y - sc CHR ''0''))))"

text \<open>
  \<^verbatim>\<open>request_parser::consume\<close>. The cases of its \<^verbatim>\<open>switch\<close> are split over three
  functions in the order of the source; each hands the states it does not own to the next.
\<close>

fun consume_headers :: "parser_state \<Rightarrow> request \<Rightarrow> char \<Rightarrow> (parser_state, request) consumed" where
  "consume_headers Header_line_start req c =
     (if c = CHR 0x0D then (Indeterminate, Expecting_newline_3, req)
      else if req_headers req \<noteq> [] \<and> (c = CHR '' '' \<or> c = CHR 0x09)
        then (Indeterminate, Header_lws, req)
      else if bad_token_char c then (TFalse, Header_line_start, req)
      else (Indeterminate, Header_name,
            req\<lparr>req_headers := req_headers req @ [\<lparr>hname = [c], hvalue = []\<rparr>]\<rparr>))"
| "consume_headers Header_lws req c =
     (if c = CHR 0x0D then (Indeterminate, Expecting_newline_2, req)
      else if c = CHR '' '' \<or> c = CHR 0x09 then (Indeterminate, Header_lws, req)
      else if is_ctl (sc c) then (TFalse, Header_lws, req)
      else (Indeterminate, Header_value,
            req\<lparr>req_headers := back_value_push c (req_headers req)\<rparr>))"
| "consume_headers Header_name req c =
     (if c = CHR '':'' then (Indeterminate, Space_before_header_value, req)
      else if bad_token_char c then (TFalse, Header_name, req)
      else (Indeterminate, Header_name,
            req\<lparr>req_headers := back_name_push c (req_headers req)\<rparr>))"
| "consume_headers Space_before_header_value req c =
     (if c = CHR '' '' then (Indeterminate, Header_value, req)
      else (TFalse, Space_before_header_value, req))"
| "consume_headers Header_value req c =
     (if c = CHR 0x0D then (Indeterminate, Expecting_newline_2, req)
      else if is_ctl (sc c) then (TFalse, Header_value, req)
      else (Indeterminate, Header_value,
            req\<lparr>req_headers := back_value_push c (req_headers req)\<rparr>))"
| "consume_headers Expecting_newline_2 req c =
     (if c = CHR 0x0A then (Indeterminate, Header_line_start, req)
      else (TFalse, Expecting_newline_2, req))"
| "consume_headers Expecting_newline_3 req c =
     (tribool_of_bool (c = CHR 0x0A), Expecting_newline_3, req)"
| "consume_headers st req c = (TFalse, st, req)"

fun consume_version :: "parser_state \<Rightarrow> request \<Rightarrow> char \<Rightarrow> (parser_state, request) consumed" where
  "consume_version Http_version_h req c =
     (if c = CHR ''H'' then (Indeterminate, Http_version_t_1, req)
      else (TFalse, Http_version_h, req))"
| "consume_version Http_version_t_1 req c =
     (if c = CHR ''T'' then (Indeterminate, Http_version_t_2, req)
      else (TFalse, Http_version_t_1, req))"
| "consume_version Http_version_t_2 req c =
     (if c = CHR ''T'' then (Indeterminate, Http_version_p, req)
      else (TFalse, Http_version_t_2, req))"
| "consume_version Http_version_p req c =
     (if c = CHR ''P'' then (Indeterminate, Http_version_slash, req)
      else (TFalse, Http_version_p, req))"
| "consume_version Http_version_slash req c =
     (if c = CHR ''/''
      then (Indeterminate, Http_version_major_start,
            req\<lparr>http_version_major := Some 0, http_version_minor := Some 0\<rparr>)
      else (TFalse, Http_version_slash, req))"
| "consume_version Http_version_major_start req c =
     (if is_digit (sc c)
      then (Indeterminate, Http_version_major,
            req\<lparr>http_version_major := push_digit (http_version_major req) c\<rparr>)
      else (TFalse, Http_version_major_start, req))"
| "consume_version Http_version_major req c =
     (if c = CHR ''.'' then (Indeterminate, Http_version_minor_start, req)
      else if is_digit (sc c)
      then (Indeterminate, Http_version_major,
            req\<lparr>http_version_major := push_digit (http_version_major req) c\<rparr>)
      else (TFalse, Http_version_major, req))"
| "consume_version Http_version_minor_start req c =
     (if is_digit (sc c)
      then (Indeterminate, Http_version_minor,
            req\<lparr>http_version_minor := push_digit (http_version_minor req) c\<rparr>)
      else (TFalse, Http_version_minor_start, req))"
| "consume_version Http_version_minor req c =
     (if c = CHR 0x0D then (Indeterminate, Expecting_newline_1, req)
      else if is_digit (sc c)
      then (Indeterminate, Http_version_minor,
            req\<lparr>http_version_minor := push_digit (http_version_minor req) c\<rparr>)
      else (TFalse, Http_version_minor, req))"
| "consume_version Expecting_newline_1 req c =
     (if c = CHR 0x0A then (Indeterminate, Header_line_start, req)
      else (TFalse, Expecting_newline_1, req))"
| "consume_version st req c = consume_headers st req c"

fun consume :: "parser_state \<Rightarrow> request \<Rightarrow> char \<Rightarrow> (parser_state, request) consumed" where
  "consume Method_start req c =
     (if bad_token_char c then (TFalse, Method_start, req)
      else (Indeterminate, Method, req\<lparr>req_method := req_method req @ [c]\<rparr>))"
| "consume Method req c =
     (if c = CHR '' '' then (Indeterminate, Uri, req)
      else if bad_token_char c then (TFalse, Method, req)
      else (Indeterminate, Method, req\<lparr>req_method := req_method req @ [c]\<rparr>))"
| "consume Uri req c =
     (if c = CHR '' '' then (Indeterminate, Http_version_h, req)
      else if is_ctl (sc c) then (TFalse, Uri, req)
      else (Indeterminate, Uri, req\<lparr>req_uri := req_uri req @ [c]\<rparr>))"
| "consume st req c = consume_version st req c"

text \<open>\<^verbatim>\<open>request_parser::parse\<close>, the loop of \<^verbatim>\<open>request_parser.hpp\<close>.\<close>

definition parse :: "parser_state \<Rightarrow> request \<Rightarrow> string \<Rightarrow> (parser_state, request, char) parsed" where
  "parse = parse_loop consume"

section \<open>Where \<^verbatim>\<open>back()\<close> is called, the vector is not empty\<close>

definition in_header_line :: "parser_state \<Rightarrow> bool" where
  "in_header_line st \<longleftrightarrow>
     st \<in> {Header_lws, Header_name, Space_before_header_value, Header_value, Expecting_newline_2}"

definition parser_inv :: "parser_state \<Rightarrow> request \<Rightarrow> bool" where
  "parser_inv st req \<longleftrightarrow> (in_header_line st \<longrightarrow> req_headers req \<noteq> [])"

lemma back_push_Nil_iff [simp]:
  "back_name_push c hs = [] \<longleftrightarrow> hs = []" "back_value_push c hs = [] \<longleftrightarrow> hs = []"
  by (induction c hs rule: back_name_push.induct) auto

lemma back_push_snoc [simp]:
  "back_name_push c (hs @ [h]) = hs @ [h\<lparr>hname := hname h @ [c]\<rparr>]"
  "back_value_push c (hs @ [h]) = hs @ [h\<lparr>hvalue := hvalue h @ [c]\<rparr>]"
proof -
  show "back_name_push c (hs @ [h]) = hs @ [h\<lparr>hname := hname h @ [c]\<rparr>]"
  proof (induction hs)
    case (Cons g hs)
    then show ?case by (cases "hs @ [h]") auto
  qed simp
  show "back_value_push c (hs @ [h]) = hs @ [h\<lparr>hvalue := hvalue h @ [c]\<rparr>]"
  proof (induction hs)
    case (Cons g hs)
    then show ?case by (cases "hs @ [h]") auto
  qed simp
qed

lemma consume_inv:
  "\<lbrakk>parser_inv st req; consume st req c = (res, st', req')\<rbrakk> \<Longrightarrow> parser_inv st' req'"
  by (cases st) (auto simp: parser_inv_def in_header_line_def split: if_splits)

interpretation http_parser: incremental_parser consume parse parser_inv
  by unfold_locales (auto simp: parse_def dest: consume_inv split: prod.splits)

section \<open>Printing a request\<close>

text \<open>
  The reference: how a client writes a request, and which requests are well formed. The
  parser is shown to read back exactly what was written.
\<close>

definition token :: "string \<Rightarrow> bool" where
  "token s \<longleftrightarrow> s \<noteq> [] \<and> list_all (\<lambda>c. \<not> bad_token_char c) s"

definition uri_char :: "char \<Rightarrow> bool" where
  "uri_char c \<longleftrightarrow> c \<noteq> CHR '' '' \<and> \<not> is_ctl (sc c)"

definition value_char :: "char \<Rightarrow> bool" where
  "value_char c \<longleftrightarrow> \<not> is_ctl (sc c)"

definition wf_header :: "header \<Rightarrow> bool" where
  "wf_header h \<longleftrightarrow> token (hname h) \<and> list_all value_char (hvalue h)"

text \<open>
  A version number the parser can compute: with the last digit's character code added, it must
  not overflow.
\<close>

definition version_ok :: "cint \<Rightarrow> bool" where
  "version_ok v \<longleftrightarrow> (case v of None \<Rightarrow> False | Some n \<Rightarrow> 0 \<le> n \<and> n + 48 < 2 ^ 31)"

definition request_syntax :: "request \<Rightarrow> bool" where
  "request_syntax r \<longleftrightarrow>
     token (req_method r) \<and> list_all uri_char (req_uri r) \<and> list_all wf_header (req_headers r)"

definition wf_request :: "request \<Rightarrow> bool" where
  "wf_request r \<longleftrightarrow>
     request_syntax r \<and> version_ok (http_version_major r) \<and> version_ok (http_version_minor r)"

definition version_text :: "cint \<Rightarrow> string" where
  "version_text v = (case v of None \<Rightarrow> [] | Some n \<Rightarrow> dec_string (nat n))"

definition print_header :: "header \<Rightarrow> string" where
  "print_header h = hname h @ '': '' @ hvalue h @ crlf"

definition print_request :: "request \<Rightarrow> string" where
  "print_request r =
     req_method r @ '' '' @ req_uri r @ '' HTTP/'' @ version_text (http_version_major r)
     @ ''.'' @ version_text (http_version_minor r) @ crlf
     @ concat (map print_header (req_headers r)) @ crlf"

section \<open>The parser over one syntactic unit\<close>

lemmas char_test_defs =
  bad_token_char_def is_char_def is_ctl_def is_tspecial_def tspecials_def is_digit_def sc_def Let_def

lemma token_char_neq:
  assumes "\<not> bad_token_char c"
  shows "c \<noteq> CHR '':''" "c \<noteq> CHR '' ''" "c \<noteq> CHR 0x0D" "c \<noteq> CHR 0x09"
  using assms by (auto simp: char_test_defs)

lemma value_char_neq [simp]: "value_char c \<Longrightarrow> c \<noteq> CHR 0x0D"
  by (auto simp: value_char_def char_test_defs)

lemma parse_method [parse_steps]:
  "list_all (\<lambda>c. \<not> bad_token_char c) xs \<Longrightarrow>
     parse Method req (xs @ ys) = parse Method (req\<lparr>req_method := req_method req @ xs\<rparr>) ys"
  by (induction xs arbitrary: req) (auto simp: http_parser.parse_Cons dest: token_char_neq)

lemma parse_uri [parse_steps]:
  "list_all uri_char xs \<Longrightarrow>
     parse Uri req (xs @ ys) = parse Uri (req\<lparr>req_uri := req_uri req @ xs\<rparr>) ys"
  by (induction xs arbitrary: req) (auto simp: http_parser.parse_Cons uri_char_def)

lemma parse_name [parse_steps]:
  "list_all (\<lambda>c. \<not> bad_token_char c) xs \<Longrightarrow>
     parse Header_name (req\<lparr>req_headers := hs @ [h]\<rparr>) (xs @ ys) =
     parse Header_name (req\<lparr>req_headers := hs @ [h\<lparr>hname := hname h @ xs\<rparr>]\<rparr>) ys"
  by (induction xs arbitrary: h) (auto simp: http_parser.parse_Cons dest: token_char_neq)

lemma parse_value [parse_steps]:
  "list_all value_char xs \<Longrightarrow>
     parse Header_value (req\<lparr>req_headers := hs @ [h]\<rparr>) (xs @ ys) =
     parse Header_value (req\<lparr>req_headers := hs @ [h\<lparr>hvalue := hvalue h @ xs\<rparr>]\<rparr>) ys"
  by (induction xs arbitrary: h) (auto simp: http_parser.parse_Cons value_char_def
        dest: value_char_neq [unfolded value_char_def])

lemma parse_header:
  assumes "wf_header h"
  shows "parse Header_line_start req (print_header h @ ys) =
         parse Header_line_start (req\<lparr>req_headers := req_headers req @ [h]\<rparr>) ys"
proof -
  obtain n v where h: "h = \<lparr>hname = n, hvalue = v\<rparr>" by (cases h)
  obtain c cs where n: "n = c # cs" and c: "\<not> bad_token_char c"
    and cs: "list_all (\<lambda>c. \<not> bad_token_char c) cs" and v: "list_all value_char v"
    using assms h by (auto simp: wf_header_def token_def neq_Nil_conv)
  show ?thesis
    using c token_char_neq [OF c]
    by (simp add: h n print_header_def crlf_def http_parser.parse_Cons parse_steps cs v)
qed

lemma parse_headers:
  "list_all wf_header hs \<Longrightarrow>
     parse Header_line_start req (concat (map print_header hs) @ ys) =
     parse Header_line_start (req\<lparr>req_headers := req_headers req @ hs\<rparr>) ys"
  by (induction hs arbitrary: req) (simp_all add: parse_header)

lemma sc_0_9 [simp]: "sc CHR ''0'' = 48" "sc CHR ''9'' = 57"
  by (simp_all add: sc_def)

lemma push_digit_digit_char [simp]:
  "\<lbrakk>d < 10; n * 10 + d + 48 < 2 ^ 31\<rbrakk> \<Longrightarrow>
     push_digit (Some (int n)) (digit_char d) = Some (int (n * 10 + d))"
  by (simp add: push_digit_def in_int_def)

lemma foldl_push_digit_base_digits:
  "n + 48 < 2 ^ 31 \<Longrightarrow> foldl push_digit (Some 0) (base_digits 10 n) = Some (int n)"
proof (induction n rule: less_induct)
  case (less n)
  show ?case
  proof (cases "n < 10")
    case True
    then show ?thesis
      using push_digit_digit_char [of n 0] less.prems by (simp add: base_digits.simps [of 10 n])
  next
    case False
    have "n div 10 * 10 + n mod 10 = n" by simp
    with push_digit_digit_char [of "n mod 10" "n div 10"] less.prems
    have "push_digit (Some (int (n div 10))) (digit_char (n mod 10)) = Some (int n)" by simp
    with False less.IH [of "n div 10"] less.prems show ?thesis
      by (simp add: base_digits.simps [of 10 n])
  qed
qed

definition digits :: "string \<Rightarrow> bool" where
  "digits s \<longleftrightarrow> list_all (\<lambda>c. is_digit (sc c)) s"

lemma dec_string_digits: "digits (dec_string n)" "dec_string n \<noteq> []"
proof -
  have "is_digit (sc c)" if "c \<in> set (dec_string n)" for c
    using base_digits_digit [of 10 c n] that by (auto simp: dec_string_def is_digit_def)
  then show "digits (dec_string n)" by (simp add: digits_def list_all_iff)
  show "dec_string n \<noteq> []" by (simp add: dec_string_def)
qed

lemma digit_neq [simp]:
  "is_digit (sc c) \<Longrightarrow> c \<noteq> CHR ''.''" "is_digit (sc c) \<Longrightarrow> c \<noteq> CHR 0x0D"
  by (auto simp: is_digit_def sc_def)

lemma parse_major_digits [parse_steps]:
  "digits xs \<Longrightarrow> parse Http_version_major req (xs @ ys) =
     parse Http_version_major
       (req\<lparr>http_version_major := foldl push_digit (http_version_major req) xs\<rparr>) ys"
  by (induction xs arbitrary: req) (auto simp: http_parser.parse_Cons digits_def dest: digit_neq)

lemma parse_minor_digits [parse_steps]:
  "digits xs \<Longrightarrow> parse Http_version_minor req (xs @ ys) =
     parse Http_version_minor
       (req\<lparr>http_version_minor := foldl push_digit (http_version_minor req) xs\<rparr>) ys"
  by (induction xs arbitrary: req) (auto simp: http_parser.parse_Cons digits_def dest: digit_neq)

lemma parse_major_start:
  "\<lbrakk>digits xs; xs \<noteq> []\<rbrakk> \<Longrightarrow> parse Http_version_major_start req (xs @ ys) =
     parse Http_version_major
       (req\<lparr>http_version_major := foldl push_digit (http_version_major req) xs\<rparr>) ys"
  by (cases xs) (simp_all add: http_parser.parse_Cons parse_steps digits_def)

lemma parse_minor_start:
  "\<lbrakk>digits xs; xs \<noteq> []\<rbrakk> \<Longrightarrow> parse Http_version_minor_start req (xs @ ys) =
     parse Http_version_minor
       (req\<lparr>http_version_minor := foldl push_digit (http_version_minor req) xs\<rparr>) ys"
  by (cases xs) (simp_all add: http_parser.parse_Cons parse_steps digits_def)

lemma version_text_ok:
  assumes "version_ok v"
  shows "digits (version_text v)" "version_text v \<noteq> []" "foldl push_digit (Some 0) (version_text v) = v"
proof -
  obtain n where v: "v = Some n" "0 \<le> n" "n + 48 < 2 ^ 31"
    using assms by (auto simp: version_ok_def split: option.splits)
  then have "nat n + 48 < 2 ^ 31" by (simp add: nat_less_iff)
  from foldl_push_digit_base_digits [OF this] v(1,2)
  show "foldl push_digit (Some 0) (version_text v) = v" by (simp add: version_text_def dec_string_def)
  show "digits (version_text v)" "version_text v \<noteq> []"
    by (simp_all add: version_text_def v(1) dec_string_digits)
qed

lemma parse_version:
  assumes "version_ok major" "version_ok minor"
  shows "parse Http_version_h req
     (''HTTP/'' @ version_text major @ ''.'' @ version_text minor @ crlf @ ys) =
   parse Header_line_start (req\<lparr>http_version_major := major, http_version_minor := minor\<rparr>) ys"
  by (simp add: http_parser.parse_Cons parse_major_start parse_minor_start
      version_text_ok [OF assms(1)] version_text_ok [OF assms(2)] crlf_def)

lemma parse_method_start:
  assumes "token m"
  shows "parse Method_start req (m @ ys) = parse Method (req\<lparr>req_method := req_method req @ m\<rparr>) ys"
  using assms by (cases m) (simp_all add: token_def http_parser.parse_Cons parse_steps)

section \<open>What the parser guarantees\<close>

lemma parse_print_request:
  assumes "wf_request r"
  shows "parse parser_init (mk_request a b) (print_request r @ rest) =
         (TTrue, Expecting_newline_3, r, rest)"
proof -
  obtain m u v w hs where r: "r = \<lparr>req_method = m, req_uri = u, http_version_major = v,
      http_version_minor = w, req_headers = hs\<rparr>" by (cases r)
  have m: "token m" and u: "list_all uri_char u" and hs: "list_all wf_header hs"
    and vw: "version_ok v" "version_ok w"
    using assms r by (auto simp: wf_request_def request_syntax_def)
  have "parse parser_init (mk_request a b) (print_request r @ rest) =
    parse Http_version_h \<lparr>req_method = m, req_uri = u, http_version_major = Some (sint a),
      http_version_minor = Some (sint b), req_headers = []\<rparr>
      (''HTTP/'' @ version_text v @ ''.'' @ version_text w @ crlf
        @ concat (map print_header hs) @ crlf @ rest)"
    using m u by (simp add: r print_request_def parser_init_def mk_request_def parse_method_start
        http_parser.parse_Cons parse_uri)
  also have "\<dots> = (TTrue, Expecting_newline_3, r, rest)"
    by (simp only: parse_version [OF vw] parse_headers [OF hs])
       (simp add: r crlf_def http_parser.parse_Cons)
  finally show ?thesis .
qed

text \<open>
  Everything a request holds at any moment of a parse is well formed; the states of a
  header line have a header to append to. From the slash of the version on, the version numbers
  are in range or have overflowed.
\<close>

definition before_slash :: "parser_state \<Rightarrow> bool" where
  "before_slash st \<longleftrightarrow>
     st \<in> {Method_start, Method, Uri, Http_version_h, Http_version_t_1, Http_version_t_2,
           Http_version_p, Http_version_slash}"

definition version_inv :: "cint \<Rightarrow> bool" where
  "version_inv v \<longleftrightarrow> v \<noteq> None \<longrightarrow> version_ok v"

lemma version_inv_iff: "version_inv v \<longleftrightarrow> (\<forall>n. v = Some n \<longrightarrow> 0 \<le> n \<and> n + 48 < 2 ^ 31)"
  by (cases v) (simp_all add: version_inv_def version_ok_def)

lemma version_inv_push [simp]:
  assumes "version_inv v" "is_digit (sc c)"
  shows "version_inv (push_digit v c)"
  using assms
  by (auto simp: version_inv_iff push_digit_def in_int_Some_iff is_digit_def bind_eq_Some_conv)

lemma version_inv_0 [simp]: "version_inv (Some 0)"
  by (simp add: version_inv_def version_ok_def)

definition request_inv :: "parser_state \<Rightarrow> request \<Rightarrow> bool" where
  "request_inv st req \<longleftrightarrow>
     list_all (\<lambda>c. \<not> bad_token_char c) (req_method req) \<and>
     (st \<noteq> Method_start \<longrightarrow> req_method req \<noteq> []) \<and>
     list_all uri_char (req_uri req) \<and> list_all wf_header (req_headers req) \<and>
     (\<not> before_slash st \<longrightarrow> version_inv (http_version_major req) \<and> version_inv (http_version_minor req)) \<and>
     parser_inv st req"

lemma wf_header_new: "\<not> bad_token_char c \<Longrightarrow> wf_header \<lparr>hname = [c], hvalue = []\<rparr>"
  by (simp add: wf_header_def token_def)

lemma wf_headers_push_name:
  "\<lbrakk>list_all wf_header hs; \<not> bad_token_char c\<rbrakk> \<Longrightarrow> list_all wf_header (back_name_push c hs)"
  by (induction c hs rule: back_name_push.induct) (auto simp: wf_header_def token_def)

lemma wf_headers_push_value:
  "\<lbrakk>list_all wf_header hs; \<not> is_ctl (sc c)\<rbrakk> \<Longrightarrow> list_all wf_header (back_value_push c hs)"
  by (induction c hs rule: back_value_push.induct) (auto simp: wf_header_def value_char_def)

lemma consume_request_inv:
  assumes inv: "request_inv st req" and step: "consume st req c = (res, st', req')"
  shows "request_inv st' req'"
proof -
  have "parser_inv st' req'" using inv step by (auto simp: request_inv_def dest: consume_inv)
  then show ?thesis
    using inv step unfolding request_inv_def
    by (cases st) (auto simp: before_slash_def uri_char_def wf_header_new wf_headers_push_name
          wf_headers_push_value split: if_splits)
qed

interpretation http_request: incremental_parser consume parse request_inv
  by unfold_locales
     (auto simp: http_parser.parse_Nil http_parser.parse_Cons dest: consume_request_inv)

lemma request_inv_init: "request_inv parser_init (mk_request a b)"
  by (simp add: request_inv_def parser_inv_def in_header_line_def parser_init_def mk_request_def before_slash_def)

text \<open>The only way to accept is the final line feed.\<close>

lemma consume_TTrue:
  "consume st req c = (TTrue, st', req') \<Longrightarrow>
     st = Expecting_newline_3 \<and> c = CHR 0x0A \<and> st' = Expecting_newline_3 \<and> req' = req"
  by (cases st) (auto simp: tribool_of_bool_def split: if_splits)

lemma parse_TTrue_state:
  "parse st req xs = (TTrue, st', req', rest) \<Longrightarrow> st' = Expecting_newline_3"
proof (induction xs arbitrary: st req)
  case Nil
  then show ?case by (simp add: http_parser.parse_Nil)
next
  case (Cons x xs)
  obtain res st1 r1 where c: "consume st req x = (res, st1, r1)" by (cases "consume st req x")
  with Cons consume_TTrue show ?case
    by (cases res) (auto simp: http_parser.parse_Cons)
qed

section \<open>The uninitialised version numbers are never read\<close>

text \<open>
  Before the slash of \<^verbatim>\<open>HTTP/\<close> two runs whose requests differ in the version numbers only
  go on in step; from the slash on their requests are equal.
\<close>

definition with_version :: "cint \<Rightarrow> cint \<Rightarrow> request \<Rightarrow> request" where
  "with_version a b r = r\<lparr>http_version_major := a, http_version_minor := b\<rparr>"

lemma consume_with_version:
  assumes "before_slash st" "consume st r c = (res, st', r')"
  shows "consume st (with_version a b r) c =
           (res, st', if before_slash st' then with_version a b r' else r')"
  using assms
  by (cases st) (auto simp: before_slash_def with_version_def split: if_splits)

lemma consume_leaves:
  "\<lbrakk>\<not> before_slash st; consume st r c = (res, st', r')\<rbrakk> \<Longrightarrow> \<not> before_slash st'"
  by (cases st) (auto simp: before_slash_def split: if_splits)

interpretation http_slash: incremental_parser consume parse "\<lambda>st r. \<not> before_slash st"
  by unfold_locales
     (auto simp: http_parser.parse_Nil http_parser.parse_Cons dest: consume_leaves)

lemma parse_with_version:
  assumes "before_slash st" "parse st r xs = (res, st', r', rest)"
  shows "parse st (with_version a b r) xs =
           (res, st', if before_slash st' then with_version a b r' else r', rest)"
  using assms
proof (induction xs arbitrary: st r)
  case Nil
  then show ?case by (simp add: http_parser.parse_Nil)
next
  case (Cons x xs)
  obtain res1 st1 r1 where c: "consume st r x = (res1, st1, r1)" by (cases "consume st r x")
  note cv = consume_with_version [OF Cons.prems(1) c, of a b]
  show ?case
  proof (cases "determinate res1")
    case True
    with Cons.prems c cv show ?thesis by (auto simp: http_parser.parse_Cons)
  next
    case False
    then have p: "parse st1 r1 xs = (res, st', r', rest)"
      using Cons.prems c by (simp add: http_parser.parse_Cons)
    show ?thesis
    proof (cases "before_slash st1")
      case True
      from Cons.IH [OF True p] show ?thesis using cv False True by (simp add: http_parser.parse_Cons)
    next
      case nb: False
      have "\<not> before_slash st'" using http_slash.parse_inv [OF nb p] .
      then show ?thesis using cv False nb p by (simp add: http_parser.parse_Cons)
    qed
  qed
qed

section \<open>Properties\<close>

text \<open>
  A request with one header, on which the hypotheses of the properties are met.
\<close>

definition upgrade_request :: request where
  "upgrade_request =
     \<lparr>req_method = ''GET'', req_uri = ''/a'', http_version_major = Some 1, http_version_minor = Some 1,
      req_headers = [\<lparr>hname = ''Sec-WebSocket-Key'', hvalue = ''x''\<rparr>]\<rparr>"

lemma wf_upgrade_request: "wf_request upgrade_request"
  by (simp add: upgrade_request_def wf_request_def request_syntax_def version_ok_def token_def uri_char_def
      wf_header_def value_char_def char_test_defs)

lemma print_upgrade_request:
  "print_request upgrade_request =
     ''GET /a HTTP/1.1'' @ crlf @ ''Sec-WebSocket-Key: x'' @ crlf @ crlf"
  by (simp add: print_request_def upgrade_request_def print_header_def version_text_def dec_string_def
      base_digits.simps digit_char_def char_of_def bit_Suc_0_iff)

definition sample_request :: request where
  "sample_request =
     \<lparr>req_method = ''GET'', req_uri = ''/a'', http_version_major = Some 1, http_version_minor = Some 1,
      req_headers = [\<lparr>hname = ''Host'', hvalue = ''x''\<rparr>]\<rparr>"

lemma wf_sample_request: "wf_request sample_request"
  by (simp add: sample_request_def wf_request_def request_syntax_def version_ok_def token_def uri_char_def
      wf_header_def value_char_def char_test_defs)

text \<open>
  C1. Printing and parsing: on the text of any well-formed request, followed by any
  further bytes, a fresh parser accepts exactly at the final line feed, returns the request
  that was printed, and leaves the further bytes unread; on every proper prefix of that text
  it answers "more data is required". The values in memory where the request was
  constructed do not matter. A request is only well formed when its version numbers are below
  \<open>2 ^ 31 - 48\<close>: with larger ones the parser's arithmetic overflows.
\<close>

theorem request_roundtrip:
  assumes "wf_request r"
  shows "parse parser_init (mk_request a b) (print_request r @ rest) =
           (TTrue, Expecting_newline_3, r, rest)
         \<and> (\<forall>k < length (print_request r).
              \<exists>st req. parse parser_init (mk_request a b) (take k (print_request r)) =
                       (Indeterminate, st, req, []))"
proof (intro conjI allI impI)
  show "parse parser_init (mk_request a b) (print_request r @ rest) =
          (TTrue, Expecting_newline_3, r, rest)"
    using assms by (rule parse_print_request)
next
  fix k assume k: "k < length (print_request r)"
  have "parse parser_init (mk_request a b)
          (take k (print_request r) @ drop k (print_request r)) = (TTrue, Expecting_newline_3, r, [])"
    using parse_print_request [OF assms, of a b "[]"] by simp
  from http_parser.parse_proper_prefix [OF this] k
  show "\<exists>st req. parse parser_init (mk_request a b) (take k (print_request r)) =
          (Indeterminate, st, req, [])" by simp
qed

theorem request_roundtrip_witness:
  "wf_request sample_request \<and>
   parse parser_init (mk_request 7 9) (print_request sample_request @ ''rest'') =
     (TTrue, Expecting_newline_3, sample_request, ''rest'')"
  using request_roundtrip [OF wf_sample_request, of 7 9 "''rest''"] wf_sample_request by blast

text \<open>
  C33. Soundness of acceptance: whatever the input, a request a fresh parser accepts has a
  method that is a nonempty token, a uri without space or control character, and headers
  whose names are nonempty tokens and whose values hold no control character, so neither a
  CR nor an LF can be smuggled through a header; and it is well formed altogether exactly when
  computing its version numbers has not overflowed.
\<close>

theorem accepted_request_wf:
  assumes "parse parser_init (mk_request a b) xs = (TTrue, st, r, rest)"
  shows "request_syntax r \<and> (wf_request r \<longleftrightarrow> http_version_major r \<noteq> None \<and> http_version_minor r \<noteq> None)"
proof -
  have inv: "request_inv st r"
    using http_request.parse_inv [OF request_inv_init assms] .
  have st: "st = Expecting_newline_3" using assms by (rule parse_TTrue_state)
  with inv have "request_syntax r" by (simp add: request_inv_def request_syntax_def token_def)
  moreover have "version_inv (http_version_major r)" "version_inv (http_version_minor r)"
    using inv st by (simp_all add: request_inv_def before_slash_def)
  moreover have "\<not> version_ok None" by (simp add: version_ok_def)
  ultimately show ?thesis unfolding wf_request_def version_inv_def by metis
qed

theorem accepted_request_wf_witness:
  "\<exists>st r rest. parse parser_init (mk_request 0 0) (print_request sample_request) = (TTrue, st, r, rest)
     \<and> request_syntax r"
proof -
  have p: "parse parser_init (mk_request 0 0) (print_request sample_request) =
      (TTrue, Expecting_newline_3, sample_request, [])"
    using parse_print_request [OF wf_sample_request, of 0 0 "[]"] by simp
  show ?thesis using p accepted_request_wf [OF p] by blast
qed

text \<open>
  C34. Memory safety of \<^verbatim>\<open>headers.back()\<close>: after any input whatever, a parser in one of
  the states that call \<^verbatim>\<open>back()\<close> on the header vector holds a request with at least
  one header.
\<close>

theorem back_never_on_empty:
  assumes "parse parser_init (mk_request a b) xs = (res, st, r, rest)"
    and "st \<in> {Header_lws, Header_name, Space_before_header_value, Header_value}"
  shows "req_headers r \<noteq> []"
  using http_request.parse_inv [OF request_inv_init assms(1)] assms(2)
  by (auto simp: request_inv_def parser_inv_def in_header_line_def)

theorem back_never_on_empty_witness:
  "\<exists>st r rest. parse parser_init (mk_request 0 0)
       (''GET / HTTP/1.0'' @ crlf @ ''Ho'') = (Indeterminate, st, r, rest)
     \<and> st = Header_name \<and> req_headers r \<noteq> []"
proof -
  let ?r = "\<lparr>req_method = ''GET'', req_uri = ''/'', http_version_major = Some 1, http_version_minor = Some 0,
       req_headers = [\<lparr>hname = ''Ho'', hvalue = []\<rparr>]\<rparr>"
  have p: "parse parser_init (mk_request 0 0) (''GET / HTTP/1.0'' @ crlf @ ''Ho'') =
      (Indeterminate, Header_name, ?r, [])"
    by (simp add: http_parser.parse_Cons http_parser.parse_Nil parser_init_def mk_request_def
        crlf_def char_test_defs push_digit_def in_int_def)
  show ?thesis using p back_never_on_empty [OF p] by simp
qed

text \<open>
  No uninitialised read: the outcome of a parse does not depend on what the version
  fields held before it. Two fresh requests with different memory give the same result, the
  same final state and the same unread input, and equal requests as soon as the slash of
  \<^verbatim>\<open>HTTP/\<close> has been read, in particular whenever the request is accepted.
\<close>

lemma version_memory_irrelevant:
  "\<exists>res st r r' rest.
     parse parser_init (mk_request a b) xs = (res, st, r, rest) \<and>
     parse parser_init (mk_request a' b') xs = (res, st, r', rest) \<and>
     r' = (if before_slash st then with_version (Some (sint a')) (Some (sint b')) r else r) \<and>
     (res = TTrue \<longrightarrow> r' = r)"
proof -
  obtain res st r rest where p: "parse parser_init (mk_request a b) xs = (res, st, r, rest)"
    by (cases "parse parser_init (mk_request a b) xs")
  have "before_slash parser_init" by (simp add: before_slash_def parser_init_def)
  moreover have "mk_request a' b' = with_version (Some (sint a')) (Some (sint b')) (mk_request a b)"
    by (simp add: mk_request_def with_version_def)
  ultimately have p': "parse parser_init (mk_request a' b') xs =
      (res, st, if before_slash st then with_version (Some (sint a')) (Some (sint b')) r else r, rest)"
    using parse_with_version [OF _ p] by simp
  have "\<not> before_slash st" if "res = TTrue"
    using parse_TTrue_state [OF p [unfolded that]] by (simp add: before_slash_def)
  then show ?thesis using p p' by auto
qed

text \<open>
  The bound on the version numbers is exact: a client only has to send a number of ten digits
  for the parser to compute with an overflowed \<^verbatim>\<open>int\<close>.
\<close>

lemma version_overflows:
  "foldl push_digit (Some 0) ''2147483599'' = Some 2147483599"
  "foldl push_digit (Some 0) ''2147483600'' = None"
  by (simp_all add: push_digit_def in_int_def sc_def)

end
