(* ===== verification/Ws_Http.thy ===== *)
theory Ws_Http
  imports Http_Parser
begin

text \<open>
  The HTTP half of \<^verbatim>\<open>splice/web_socket/rfc6455_engine.hpp\<close>: the class
  \<^verbatim>\<open>rfc6455_engine\<close> carries its own copy of the request parser, a reply with three
  statuses, and the handler that answers an upgrade request. \<^verbatim>\<open>header\<close> and
  \<^verbatim>\<open>request\<close> are declared there again with the same fields, and are the records of
  \<^verbatim>\<open>Http_Message\<close> here.

  Two things of Boost are parameters: \<open>sha1\<close>, the five words
  \<^verbatim>\<open>boost::uuids::detail::sha1\<close> computes, and \<open>b64\<close>, the characters the iterator
  adaptors of \<^verbatim>\<open>boost::archive::iterators\<close> yield for a buffer and a number of its bytes.
\<close>

section \<open>The second copy of the request parser\<close>

definition rfc_parser_init :: parser_state where
  "rfc_parser_init = Method_start"

definition rfc_reset :: "parser_state \<Rightarrow> parser_state" where
  "rfc_reset st = Method_start"

definition rfc_is_char :: "int \<Rightarrow> bool" where
  "rfc_is_char c \<longleftrightarrow> 0 \<le> c \<and> c \<le> 127"

definition rfc_is_ctl :: "int \<Rightarrow> bool" where
  "rfc_is_ctl c \<longleftrightarrow> (0 \<le> c \<and> c \<le> 31) \<or> c = 127"

definition rfc_is_tspecial :: "int \<Rightarrow> bool" where
  "rfc_is_tspecial c \<longleftrightarrow>
     c \<in> sc ` {CHR ''('', CHR '')'', CHR ''<'', CHR ''>'', CHR ''@'',
               CHR '','', CHR '';'', CHR '':'', CHR 0x5C, CHR 0x22,
               CHR ''/'', CHR ''['', CHR '']'', CHR ''?'', CHR ''='',
               CHR ''{'', CHR ''}'', CHR '' '', CHR 0x09}"

definition rfc_is_digit :: "int \<Rightarrow> bool" where
  "rfc_is_digit c \<longleftrightarrow> sc CHR ''0'' \<le> c \<and> c \<le> sc CHR ''9''"

definition rfc_bad_token_char :: "char \<Rightarrow> bool" where
  "rfc_bad_token_char c \<longleftrightarrow>
     \<not> rfc_is_char (sc c) \<or> rfc_is_ctl (sc c) \<or> rfc_is_tspecial (sc c)"

definition rfc_push_digit :: "cint \<Rightarrow> char \<Rightarrow> cint" where
  "rfc_push_digit v c =
     (case v of
        None \<Rightarrow> None
      | Some n \<Rightarrow>
          if in_int (n * 10) = None \<or> in_int (n * 10 + sc c) = None then None
          else in_int (n * 10 + sc c - sc CHR ''0''))"

text \<open>\<^verbatim>\<open>rfc6455_engine::request_parser::consume\<close>, again in three parts.\<close>

fun rfc_consume_headers :: "parser_state \<Rightarrow> request \<Rightarrow> char \<Rightarrow> (parser_state, request) consumed" where
  "rfc_consume_headers Header_line_start req c =
     (if c = CHR 0x0D then (Indeterminate, Expecting_newline_3, req)
      else if req_headers req \<noteq> [] \<and> (c = CHR '' '' \<or> c = CHR 0x09)
        then (Indeterminate, Header_lws, req)
      else if rfc_bad_token_char c then (TFalse, Header_line_start, req)
      else (Indeterminate, Header_name,
            req\<lparr>req_headers := req_headers req @ [\<lparr>hname = [c], hvalue = []\<rparr>]\<rparr>))"
| "rfc_consume_headers Header_lws req c =
     (if c = CHR 0x0D then (Indeterminate, Expecting_newline_2, req)
      else if c = CHR '' '' \<or> c = CHR 0x09 then (Indeterminate, Header_lws, req)
      else if rfc_is_ctl (sc c) then (TFalse, Header_lws, req)
      else (Indeterminate, Header_value,
            req\<lparr>req_headers := back_value_push c (req_headers req)\<rparr>))"
| "rfc_consume_headers Header_name req c =
     (if c = CHR '':'' then (Indeterminate, Space_before_header_value, req)
      else if rfc_bad_token_char c then (TFalse, Header_name, req)
      else (Indeterminate, Header_name,
            req\<lparr>req_headers := back_name_push c (req_headers req)\<rparr>))"
| "rfc_consume_headers Space_before_header_value req c =
     (if c = CHR '' '' then (Indeterminate, Header_value, req)
      else (TFalse, Space_before_header_value, req))"
| "rfc_consume_headers Header_value req c =
     (if c = CHR 0x0D then (Indeterminate, Expecting_newline_2, req)
      else if rfc_is_ctl (sc c) then (TFalse, Header_value, req)
      else (Indeterminate, Header_value,
            req\<lparr>req_headers := back_value_push c (req_headers req)\<rparr>))"
| "rfc_consume_headers Expecting_newline_2 req c =
     (if c = CHR 0x0A then (Indeterminate, Header_line_start, req)
      else (TFalse, Expecting_newline_2, req))"
| "rfc_consume_headers Expecting_newline_3 req c =
     (tribool_of_bool (c = CHR 0x0A), Expecting_newline_3, req)"
| "rfc_consume_headers st req c = (TFalse, st, req)"

fun rfc_consume_version :: "parser_state \<Rightarrow> request \<Rightarrow> char \<Rightarrow> (parser_state, request) consumed" where
  "rfc_consume_version Http_version_h req c =
     (if c = CHR ''H'' then (Indeterminate, Http_version_t_1, req)
      else (TFalse, Http_version_h, req))"
| "rfc_consume_version Http_version_t_1 req c =
     (if c = CHR ''T'' then (Indeterminate, Http_version_t_2, req)
      else (TFalse, Http_version_t_1, req))"
| "rfc_consume_version Http_version_t_2 req c =
     (if c = CHR ''T'' then (Indeterminate, Http_version_p, req)
      else (TFalse, Http_version_t_2, req))"
| "rfc_consume_version Http_version_p req c =
     (if c = CHR ''P'' then (Indeterminate, Http_version_slash, req)
      else (TFalse, Http_version_p, req))"
| "rfc_consume_version Http_version_slash req c =
     (if c = CHR ''/''
      then (Indeterminate, Http_version_major_start,
            req\<lparr>http_version_major := Some 0, http_version_minor := Some 0\<rparr>)
      else (TFalse, Http_version_slash, req))"
| "rfc_consume_version Http_version_major_start req c =
     (if rfc_is_digit (sc c)
      then (Indeterminate, Http_version_major,
            req\<lparr>http_version_major := rfc_push_digit (http_version_major req) c\<rparr>)
      else (TFalse, Http_version_major_start, req))"
| "rfc_consume_version Http_version_major req c =
     (if c = CHR ''.'' then (Indeterminate, Http_version_minor_start, req)
      else if rfc_is_digit (sc c)
      then (Indeterminate, Http_version_major,
            req\<lparr>http_version_major := rfc_push_digit (http_version_major req) c\<rparr>)
      else (TFalse, Http_version_major, req))"
| "rfc_consume_version Http_version_minor_start req c =
     (if rfc_is_digit (sc c)
      then (Indeterminate, Http_version_minor,
            req\<lparr>http_version_minor := rfc_push_digit (http_version_minor req) c\<rparr>)
      else (TFalse, Http_version_minor_start, req))"
| "rfc_consume_version Http_version_minor req c =
     (if c = CHR 0x0D then (Indeterminate, Expecting_newline_1, req)
      else if rfc_is_digit (sc c)
      then (Indeterminate, Http_version_minor,
            req\<lparr>http_version_minor := rfc_push_digit (http_version_minor req) c\<rparr>)
      else (TFalse, Http_version_minor, req))"
| "rfc_consume_version Expecting_newline_1 req c =
     (if c = CHR 0x0A then (Indeterminate, Header_line_start, req)
      else (TFalse, Expecting_newline_1, req))"
| "rfc_consume_version st req c = rfc_consume_headers st req c"

fun rfc_consume :: "parser_state \<Rightarrow> request \<Rightarrow> char \<Rightarrow> (parser_state, request) consumed" where
  "rfc_consume Method_start req c =
     (if rfc_bad_token_char c then (TFalse, Method_start, req)
      else (Indeterminate, Method, req\<lparr>req_method := req_method req @ [c]\<rparr>))"
| "rfc_consume Method req c =
     (if c = CHR '' '' then (Indeterminate, Uri, req)
      else if rfc_bad_token_char c then (TFalse, Method, req)
      else (Indeterminate, Method, req\<lparr>req_method := req_method req @ [c]\<rparr>))"
| "rfc_consume Uri req c =
     (if c = CHR '' '' then (Indeterminate, Http_version_h, req)
      else if rfc_is_ctl (sc c) then (TFalse, Uri, req)
      else (Indeterminate, Uri, req\<lparr>req_uri := req_uri req @ [c]\<rparr>))"
| "rfc_consume st req c = rfc_consume_version st req c"

definition rfc_parse :: "parser_state \<Rightarrow> request \<Rightarrow> string \<Rightarrow> (parser_state, request, char) parsed" where
  "rfc_parse = parse_loop rfc_consume"

lemma rfc_char_tests:
  "rfc_bad_token_char = bad_token_char" "rfc_is_ctl = is_ctl" "rfc_is_digit = is_digit"
  "rfc_push_digit = push_digit"
  by (auto simp: fun_eq_iff rfc_bad_token_char_def bad_token_char_def rfc_is_char_def is_char_def
      rfc_is_ctl_def is_ctl_def rfc_is_tspecial_def is_tspecial_def tspecials_def
      rfc_is_digit_def is_digit_def rfc_push_digit_def push_digit_def in_int_def split: option.split)

lemma rfc_consume_eq: "rfc_consume st req c = consume st req c"
  by (cases st) (simp_all add: rfc_char_tests)

lemma rfc_parse_eq: "rfc_parse = parse"
proof -
  have "rfc_consume = consume" by (intro ext) (rule rfc_consume_eq)
  then show ?thesis by (simp add: rfc_parse_def parse_def)
qed

interpretation rfc_parser: incremental_parser rfc_consume rfc_parse request_inv
  by unfold_locales
     (auto simp: rfc_consume_eq rfc_parse_eq http_parser.parse_Nil http_parser.parse_Cons
        dest: consume_request_inv split: prod.splits)

section \<open>Replies to an upgrade request\<close>

datatype ws_status = Switching_protocols | Ws_bad_request | Ws_internal_server_error

record ws_reply =
  ws_status :: ws_status
  ws_headers :: "header list"

text \<open>
  \<^verbatim>\<open>asio::buffer\<close> of a string literal covers the whole array, so the status line on the
  wire ends with the literal's NUL byte. (The two arrays \<^verbatim>\<open>crlf\<close> and
  \<^verbatim>\<open>name_value_separator\<close> of the same class are initialised without one.)
\<close>

fun ws_status_buffer :: "ws_status \<Rightarrow> string" where
  "ws_status_buffer Switching_protocols = ''HTTP/1.1 101 Switching Protocols'' @ crlf @ [CHR 0x00]"
| "ws_status_buffer Ws_bad_request = ''HTTP/1.1 400 Bad Request'' @ crlf @ [CHR 0x00]"
| "ws_status_buffer Ws_internal_server_error =
     ''HTTP/1.1 500 Internal Server Error'' @ crlf @ [CHR 0x00]"

fun ws_status_name :: "ws_status \<Rightarrow> string" where
  "ws_status_name Switching_protocols = ''switching_protocols''"
| "ws_status_name Ws_bad_request = ''bad_request''"
| "ws_status_name Ws_internal_server_error = ''internal_server_error''"

definition mk_ws_reply :: "ws_status \<Rightarrow> nat \<Rightarrow> ws_reply" where
  "mk_ws_reply st n =
     \<lparr>ws_status = st, ws_headers = replicate n \<lparr>hname = [], hvalue = []\<rparr>\<rparr>"

definition ws_stock_reply :: "ws_status \<Rightarrow> ws_reply" where
  "ws_stock_reply st = mk_ws_reply st 0"

text \<open>\<^verbatim>\<open>to_buffers\<close>; \<open>None\<close> is its failing assertion that there are headers.\<close>

definition ws_to_buffers :: "ws_reply \<Rightarrow> string list option" where
  "ws_to_buffers rep =
     (if ws_headers rep = [] then None
      else Some (ws_status_buffer (ws_status rep) # header_buffers (ws_headers rep) @ [crlf]))"

section \<open>Answering the key\<close>

definition magic_guid :: string where
  "magic_guid = ''258EAFA5-E914-47DA-95CA-C5AB0DC85B11''"

text \<open>\<^verbatim>\<open>to_sha1\<close>: the five words of the digest become twenty bytes.\<close>

definition to_sha1 :: "(string \<Rightarrow> 32 word list) \<Rightarrow> string \<Rightarrow> 8 word list" where
  "to_sha1 sha1 s =
     (let digest = sha1 s
      in map (\<lambda>i. ucast (drop_bit (8 * (3 - i mod 4)) (digest ! (i div 4)))) [0..<20])"

text \<open>
  \<^verbatim>\<open>to_base64\<close>: zero bytes up to a multiple of three, the iterators over the original
  number of bytes, and one \<^verbatim>\<open>=\<close> for each byte added. Without data the assertion fails, and
  without assertions the address of the first element of an empty vector is taken: \<open>None\<close>.
\<close>

definition to_base64 :: "(8 word list \<Rightarrow> nat \<Rightarrow> string) \<Rightarrow> 8 word list \<Rightarrow> string option" where
  "to_base64 b64 bytes =
     (if bytes = [] then None
      else
        let padding = (if length bytes mod 3 \<noteq> 0 then 3 - length bytes mod 3 else 0);
            buff = bytes @ replicate padding 0
        in Some (b64 buff (length bytes) @ replicate padding CHR ''=''))"

text \<open>
  The digest that is encoded for a reply has twenty bytes, so \<open>the\<close> is of a \<open>Some\<close> there
  (\<open>accept_value\<close>).
\<close>

definition ws_handle_request ::
  "(string \<Rightarrow> 32 word list) \<Rightarrow> (8 word list \<Rightarrow> nat \<Rightarrow> string) \<Rightarrow> request \<Rightarrow> ws_reply" where
  "ws_handle_request sha1 b64 req =
     (case find (\<lambda>h. hname h = ''Sec-WebSocket-Key'') (req_headers req) of
        None \<Rightarrow> ws_stock_reply Ws_bad_request
      | Some h \<Rightarrow>
          let rep = mk_ws_reply Switching_protocols 3
          in rep\<lparr>ws_headers := (ws_headers rep)
               [0 := \<lparr>hname = ''Upgrade'', hvalue = ''websocket''\<rparr>,
                1 := \<lparr>hname = ''Connection'', hvalue = ''Upgrade''\<rparr>,
                2 := \<lparr>hname = ''Sec-WebSocket-Accept'',
                      hvalue = the (to_base64 b64 (to_sha1 sha1 (hvalue h @ magic_guid)))\<rparr>]\<rparr>)"

lemma ws_handle_request_eq:
  "ws_handle_request sha1 b64 req =
     (case find (\<lambda>h. hname h = ''Sec-WebSocket-Key'') (req_headers req) of
        None \<Rightarrow> \<lparr>ws_status = Ws_bad_request, ws_headers = []\<rparr>
      | Some h \<Rightarrow>
          \<lparr>ws_status = Switching_protocols,
           ws_headers = [\<lparr>hname = ''Upgrade'', hvalue = ''websocket''\<rparr>,
                         \<lparr>hname = ''Connection'', hvalue = ''Upgrade''\<rparr>,
                         \<lparr>hname = ''Sec-WebSocket-Accept'',
                          hvalue = the (to_base64 b64 (to_sha1 sha1 (hvalue h @ magic_guid)))\<rparr>]\<rparr>)"
  by (simp add: ws_handle_request_def ws_stock_reply_def mk_ws_reply_def numeral_3_eq_3
      split: option.split)

section \<open>The reference encodings\<close>

text \<open>RFC 4648, section 4: the alphabet, and groups of three bytes with padding.\<close>

definition base64_char :: "nat \<Rightarrow> char" where
  "base64_char n =
     (if n < 26 then char_of (65 + n) else if n < 52 then char_of (71 + n)
      else if n < 62 then char_of (n - 4) else if n = 62 then CHR ''+'' else CHR ''/'')"

fun rfc4648 :: "8 word list \<Rightarrow> string" where
  "rfc4648 [] = []"
| "rfc4648 [a] =
     [base64_char (unat a div 4), base64_char (unat a mod 4 * 16), CHR ''='', CHR ''='']"
| "rfc4648 [a, b] =
     [base64_char (unat a div 4), base64_char (unat a mod 4 * 16 + unat b div 16),
      base64_char (unat b mod 16 * 4), CHR ''='']"
| "rfc4648 (a # b # c # rest) =
     [base64_char (unat a div 4), base64_char (unat a mod 4 * 16 + unat b div 16),
      base64_char (unat b mod 16 * 4 + unat c div 64), base64_char (unat c mod 64)] @ rfc4648 rest"

text \<open>
  What the documentation of the iterators says: \<^verbatim>\<open>transform_width<..., 6, 8>\<close> yields the
  bits of the buffer in groups of six, as many as the given bytes reach into,
  \<^verbatim>\<open>base64_from_binary\<close> maps each to its letter, and \<^verbatim>\<open>insert_linebreaks\<close> adds
  nothing to a text of at most 72 characters.
\<close>

fun sextets :: "8 word list \<Rightarrow> nat list" where
  "sextets (a # b # c # rest) =
     (let n = (unat a * 256 + unat b) * 256 + unat c
      in [n div 262144, n div 4096 mod 64, n div 64 mod 64, n mod 64] @ sextets rest)"
| "sextets _ = []"

definition sextet_count :: "nat \<Rightarrow> nat" where
  "sextet_count n = (8 * n + 5) div 6"

definition base64_iterators_ok :: "(8 word list \<Rightarrow> nat \<Rightarrow> string) \<Rightarrow> bool" where
  "base64_iterators_ok b64 \<longleftrightarrow>
     (\<forall>buff n. n \<le> length buff \<longrightarrow> length buff < n + 3 \<longrightarrow> length buff mod 3 = 0 \<longrightarrow>
        sextet_count n \<le> 72 \<longrightarrow>
        b64 buff n = map base64_char (take (sextet_count n) (sextets buff)))"

definition padding_of :: "nat \<Rightarrow> nat" where
  "padding_of n = (if n mod 3 \<noteq> 0 then 3 - n mod 3 else 0)"

lemma padding_of_simps [simp]:
  "padding_of 0 = 0" "padding_of (Suc 0) = 2" "padding_of (Suc (Suc 0)) = 1"
  "padding_of (Suc (Suc (Suc n))) = padding_of n"
proof -
  have "Suc (Suc (Suc n)) mod 3 = n mod 3" by presburger
  then show "padding_of (Suc (Suc (Suc n))) = padding_of n" by (simp only: padding_of_def)
qed (simp_all add: padding_of_def)

lemma sextet_count_simps [simp]:
  "sextet_count 0 = 0" "sextet_count (Suc 0) = 2" "sextet_count (Suc (Suc 0)) = 3"
  "sextet_count (Suc (Suc (Suc n))) = Suc (Suc (Suc (Suc (sextet_count n))))"
  by (simp_all add: sextet_count_def)

lemma four_sextets:
  fixes n :: nat
  assumes n: "n = 262144 * q + 4096 * x + 64 * y + z" and "x < 64" "y < 64" "z < 64"
  shows "n div 262144 = q" "n div 4096 mod 64 = x" "n div 64 mod 64 = y" "n mod 64 = z"
proof -
  show "n div 262144 = q" by (rule div_nat_eqI) (use assms in auto)
  have part: "(64 * k + w) mod 64 = w" if "w < 64" for k w :: nat using that by simp
  have "n div 4096 = 64 * q + x" by (rule div_nat_eqI) (use assms in auto)
  then show "n div 4096 mod 64 = x" using assms by simp
  have "n div 64 = 64 * (64 * q + x) + y" by (rule div_nat_eqI) (use assms in auto)
  then show "n div 64 mod 64 = y" using part [OF assms(3)] by (simp only:)
  have "n = 64 * (4096 * q + 64 * x + y) + z" using n by simp
  then show "n mod 64 = z" using part [OF assms(4)] by (simp only:)
qed

lemma three_bytes:
  fixes a b c :: nat
  assumes "a < 256" "b < 256" "c < 256"
  shows "((a * 256 + b) * 256 + c) div 262144 = a div 4"
    "((a * 256 + b) * 256 + c) div 4096 mod 64 = a mod 4 * 16 + b div 16"
    "((a * 256 + b) * 256 + c) div 64 mod 64 = b mod 16 * 4 + c div 64"
    "((a * 256 + b) * 256 + c) mod 64 = c mod 64"
proof -
  obtain q r where a: "a = 4 * q + r" "r < 4"
    by (metis mult_div_mod_eq mod_less_divisor zero_less_numeral)
  obtain t u where b: "b = 16 * t + u" "u < 16"
    by (metis mult_div_mod_eq mod_less_divisor zero_less_numeral)
  obtain v w where c: "c = 64 * v + w" "w < 64"
    by (metis mult_div_mod_eq mod_less_divisor zero_less_numeral)
  have parts: "a div 4 = q" "a mod 4 = r" "b div 16 = t" "b mod 16 = u" "c div 64 = v" "c mod 64 = w"
    using a b c by simp_all
  have n: "(a * 256 + b) * 256 + c = 262144 * q + 4096 * (r * 16 + t) + 64 * (u * 4 + v) + w"
    using a b c by simp
  have "r * 16 + t < 64" "u * 4 + v < 64" using a b c assms by auto
  from four_sextets [OF n this c(2)]
  show "((a * 256 + b) * 256 + c) div 262144 = a div 4"
    "((a * 256 + b) * 256 + c) div 4096 mod 64 = a mod 4 * 16 + b div 16"
    "((a * 256 + b) * 256 + c) div 64 mod 64 = b mod 16 * 4 + c div 64"
    "((a * 256 + b) * 256 + c) mod 64 = c mod 64"
    by (simp_all only: parts)
qed

lemma unat_byte_less [simp]: "unat (w :: 8 word) < 256"
  by (rule order.strict_trans2 [OF unsigned_less]) simp

lemma base64_groups:
  "map base64_char (take (sextet_count (length bytes))
       (sextets (bytes @ replicate (padding_of (length bytes)) 0)))
     @ replicate (padding_of (length bytes)) CHR ''='' = rfc4648 bytes"
proof (induction bytes rule: rfc4648.induct)
  case (2 a)
  show ?case using three_bytes [of "unat a" 0 0] by (simp add: numeral_2_eq_2)
next
  case (3 a b)
  show ?case using three_bytes [of "unat a" "unat b" 0] by (simp add: numeral_3_eq_3)
next
  case (4 a b c rest)
  then show ?case using three_bytes [of "unat a" "unat b" "unat c"] by simp
qed simp

lemma to_base64_padded:
  "bytes \<noteq> [] \<Longrightarrow> to_base64 b64 bytes =
     Some (b64 (bytes @ replicate (padding_of (length bytes)) 0) (length bytes)
       @ replicate (padding_of (length bytes)) CHR ''='')"
  by (simp add: to_base64_def padding_of_def Let_def)

lemma to_base64_eq_rfc4648:
  assumes "base64_iterators_ok b64" "bytes \<noteq> []" "length bytes \<le> 54"
  shows "to_base64 b64 bytes = Some (rfc4648 bytes)"
proof -
  let ?p = "padding_of (length bytes)"
  have "(length bytes + ?p) mod 3 = 0" by (simp add: padding_of_def) presburger
  moreover have "?p < 3" by (simp add: padding_of_def)
  moreover have "sextet_count (length bytes) \<le> 72" using assms(3) by (simp add: sextet_count_def)
  ultimately have "b64 (bytes @ replicate ?p 0) (length bytes) =
      map base64_char (take (sextet_count (length bytes)) (sextets (bytes @ replicate ?p 0)))"
    using assms(1) by (simp add: base64_iterators_ok_def)
  then show ?thesis
    using base64_groups [of bytes] by (simp add: to_base64_padded [OF assms(2)])
qed

text \<open>The digest is written in network order.\<close>

definition be32_bytes :: "32 word \<Rightarrow> 8 word list" where
  "be32_bytes w = map (\<lambda>k. ucast (drop_bit k w)) [24, 16, 8, 0]"

lemma to_sha1_be:
  assumes "length (sha1 s) = 5"
  shows "to_sha1 sha1 s = concat (map be32_bytes (sha1 s))"
proof -
  obtain a b c d e where "sha1 s = [a, b, c, d, e]"
    using assms by (auto simp: numeral_eq_Suc length_Suc_conv)
  then show ?thesis by (simp add: to_sha1_def be32_bytes_def upt_rec)
qed

lemma length_rfc4648: "length (rfc4648 bytes) = 4 * ((length bytes + 2) div 3)"
proof (induction bytes rule: rfc4648.induct)
  case (4 a b c rest)
  have "(length (a # b # c # rest) + 2) div 3 = Suc ((length rest + 2) div 3)" by simp
  with 4 show ?case by simp
qed simp_all

lemma length_to_sha1 [simp]: "length (to_sha1 sha1 s) = 20"
  by (simp add: to_sha1_def)

lemma base64_char_not_cr [simp]: "base64_char n \<noteq> CHR 0x0D"
  by (rule notI, drule arg_cong [where f = "of_char :: char \<Rightarrow> nat"])
     (auto simp: base64_char_def split: if_splits)

lemma no_cr_rfc4648 [simp]: "no_cr (rfc4648 bytes)"
  by (induction bytes rule: rfc4648.induct) simp_all

lemma accept_value:
  assumes "base64_iterators_ok b64"
  shows "to_base64 b64 (to_sha1 sha1 s) = Some (rfc4648 (to_sha1 sha1 s))"
proof -
  have "to_sha1 sha1 s \<noteq> []" using length_to_sha1 [of sha1 s] by fastforce
  with to_base64_eq_rfc4648 [OF assms] show ?thesis by simp
qed

section \<open>Properties\<close>

text \<open>
  C30. The WebSocket engine's own copy of the request parser is the HTTP parser: on every
  state, request and input both give the same result, state, request and unread input.
\<close>

theorem rfc_parser_equivalent:
  "rfc_parse st req xs = parse st req xs"
  by (simp add: rfc_parse_eq)

text \<open>
  C28. The Base64 encoder is RFC 4648: given iterators that behave as documented, the padding
  the code adds before and after them turns any byte string of 1 to 54 bytes (longer ones
  would get line breaks) into its RFC 4648 text, which has a multiple of four characters. The
  empty string, whose text by RFC 4648 is empty, is the only one it must not be called with:
  there its assertion fails.
\<close>

theorem to_base64_correct:
  assumes "base64_iterators_ok b64" "length bytes \<le> 54"
  shows "to_base64 b64 bytes = (if bytes = [] then None else Some (rfc4648 bytes)) \<and>
         length (rfc4648 bytes) = 4 * ((length bytes + 2) div 3)"
  using to_base64_eq_rfc4648 [OF assms(1) _ assms(2)] length_rfc4648 [of bytes]
  by (simp add: to_base64_def)

text \<open>Iterators that behave as documented, for the witnesses.\<close>

definition sample_b64 :: "8 word list \<Rightarrow> nat \<Rightarrow> string" where
  "sample_b64 buff n = map base64_char (take (sextet_count n) (sextets buff))"

lemma sample_b64_ok: "base64_iterators_ok sample_b64"
  by (simp add: base64_iterators_ok_def sample_b64_def)

theorem to_base64_correct_witness:
  "base64_iterators_ok sample_b64 \<and> to_base64 sample_b64 [77, 97] = Some ''TWE=''"
proof -
  have "rfc4648 [77, 97] = ''TWE=''" by (simp add: base64_char_def char_of_def bit_Suc_0_iff)
  then show ?thesis using to_base64_correct [OF sample_b64_ok, of "[77, 97]"] sample_b64_ok by simp
qed

text \<open>
  C29. The upgrade answer of RFC 6455: a request is answered with status 101 if and only if
  it has a header named exactly Sec-WebSocket-Key, and then carries the three headers of the
  opening handshake, the accept value being the 28 characters of the RFC 4648 text of the
  SHA-1 digest, in network byte order, of the first such key followed by the GUID of the
  RFC; otherwise the answer is 400 without a header.
\<close>

theorem ws_handle_request_accept:
  assumes "base64_iterators_ok b64" "\<And>s. length (sha1 s) = 5"
  shows "(case find (\<lambda>h. hname h = ''Sec-WebSocket-Key'') (req_headers req) of
            None \<Rightarrow> ws_handle_request sha1 b64 req =
                      \<lparr>ws_status = Ws_bad_request, ws_headers = []\<rparr>
          | Some h \<Rightarrow>
              let accept = rfc4648 (concat (map be32_bytes
                    (sha1 (hvalue h @ ''258EAFA5-E914-47DA-95CA-C5AB0DC85B11''))))
              in length accept = 28 \<and>
                 ws_handle_request sha1 b64 req =
                   \<lparr>ws_status = Switching_protocols,
                    ws_headers = [\<lparr>hname = ''Upgrade'', hvalue = ''websocket''\<rparr>,
                                  \<lparr>hname = ''Connection'', hvalue = ''Upgrade''\<rparr>,
                                  \<lparr>hname = ''Sec-WebSocket-Accept'', hvalue = accept\<rparr>]\<rparr>)"
proof -
  have be: "concat (map be32_bytes (sha1 s)) = to_sha1 sha1 s" for s
    using to_sha1_be [of sha1 s] assms(2) by simp
  have "to_base64 b64 (to_sha1 sha1 s) = Some (rfc4648 (concat (map be32_bytes (sha1 s))))"
    and "length (rfc4648 (concat (map be32_bytes (sha1 s)))) = 28" for s
    unfolding be using accept_value [OF assms(1), of sha1 s]
      length_rfc4648 [of "to_sha1 sha1 s"] by simp_all
  then show ?thesis
    by (simp add: ws_handle_request_eq magic_guid_def Let_def split: option.split)
qed

theorem ws_handle_request_accept_witness:
  "ws_handle_request (\<lambda>s. [0, 0, 0, 0, 1]) sample_b64
     (mk_request 1 1\<lparr>req_headers := [\<lparr>hname = ''Sec-WebSocket-Key'', hvalue = ''k''\<rparr>]\<rparr>) =
   \<lparr>ws_status = Switching_protocols,
    ws_headers = [\<lparr>hname = ''Upgrade'', hvalue = ''websocket''\<rparr>,
                  \<lparr>hname = ''Connection'', hvalue = ''Upgrade''\<rparr>,
                  \<lparr>hname = ''Sec-WebSocket-Accept'', hvalue = ''AAAAAAAAAAAAAAAAAAAAAAAAAAE=''\<rparr>]\<rparr>"
proof -
  have "rfc4648 (concat (map be32_bytes [0, 0, 0, 0, 1])) = ''AAAAAAAAAAAAAAAAAAAAAAAAAAE=''"
    by (simp add: be32_bytes_def base64_char_def char_of_def bit_Suc_0_iff)
  then show ?thesis
    using ws_handle_request_accept [OF sample_b64_ok, of "\<lambda>s. [0, 0, 0, 0, 1]"
        "mk_request 1 1\<lparr>req_headers := [\<lparr>hname = ''Sec-WebSocket-Key'', hvalue = ''k''\<rparr>]\<rparr>"]
    by (simp add: Let_def)
qed

text \<open>
  The wire form of an answer to an upgrade request: the assertion in
  \<^verbatim>\<open>to_buffers\<close> never fails on an answer with status 101, and always would on the 400
  answer. But the status line carries the NUL byte that ends its string literal, so a client
  that reads the answer line by line finds that byte in front of the first header name: the
  header it sees is not \<^verbatim>\<open>Upgrade\<close>.
\<close>

lemma ws_reply_stray_nul:
  "(case ws_to_buffers (ws_handle_request sha1 b64 req) of
      None \<Rightarrow> ws_status (ws_handle_request sha1 b64 req) = Ws_bad_request
    | Some buffers \<Rightarrow>
        ws_status (ws_handle_request sha1 b64 req) = Switching_protocols \<and>
        fst (the (read_line (snd (the (read_line (concat buffers)))))) =
          CHR 0x00 # ''Upgrade: websocket'')"
proof -
  have nul: "read_line (''HTTP/1.1 101 Switching Protocols'' @ crlf @ CHR 0x00 # ys) =
      Some (''HTTP/1.1 101 Switching Protocols'', CHR 0x00 # ys)" for ys
    by (rule read_line_crlf) simp
  have "read_line ((CHR 0x00 # ''Upgrade: websocket'') @ crlf @ ys) =
      Some (CHR 0x00 # ''Upgrade: websocket'', ys)" for ys
    by (rule read_line_crlf) simp
  with nul show ?thesis
    by (simp add: ws_handle_request_eq ws_to_buffers_def name_value_separator_def
        split: option.split)
qed

end
