(* ===== verification/Boost_Log.thy ===== *)
theory Boost_Log
  imports Logger Ws_Http
begin

text \<open>
  The text the adapters to Boost.Log write: \<^verbatim>\<open>boost_log_interface.hpp\<close> with the macro of
  \<^verbatim>\<open>splice_boost_log.hpp\<close>, and the trace of received data in \<^verbatim>\<open>ws_session_boost_log.hpp\<close>, which
  parses the data as a request to say whether it is one.
\<close>

text \<open>
  The record \<^verbatim>\<open>boost_log_interface\<close> gives to the Boost logger of each level, after the object
  that the macro \<^verbatim>\<open>SPLICE_LOG\<close> writes. The macro ends with \<^verbatim>\<open>std::hex\<close>, so the line number is
  hexadecimal.
\<close>

definition boost_log_text :: "severity \<Rightarrow> string \<Rightarrow> nat \<Rightarrow> string \<Rightarrow> string \<Rightarrow> string \<Rightarrow> string option" where
  "boost_log_text level path line func obj msg =
     map_option (\<lambda>f. ''['' @ obj @ '']['' @ f @ ''@'' @ hex_string line @ '']:'' @
         (if level = Error \<or> level = Fatal then [] else ''['' @ func @ '']'') @
         (if level = Warning then ''['' @ obj @ '']'' else []) @
         '' msg='' @ [CHR 0x22] @ msg @ [CHR 0x22])
       (extract_file_name path)"

text \<open>\<^verbatim>\<open>std::boolalpha\<close> and a \<^verbatim>\<open>tribool\<close>.\<close>

fun tribool_name :: "tribool \<Rightarrow> string" where
  "tribool_name TTrue = ''true''"
| "tribool_name TFalse = ''false''"
| "tribool_name Indeterminate = ''indeterminate''"

text \<open>
  \<^verbatim>\<open>log_trace_t\<close>: the text handed to \<^verbatim>\<open>log_trace\<close>. \<open>mem\<close> is the uninitialised memory of the
  request.
\<close>

definition boost_trace_text :: "32 word \<times> 32 word \<Rightarrow> string \<Rightarrow> string \<Rightarrow> string" where
  "boost_trace_text mem err_msg bytes =
     (case rfc_parse rfc_parser_init (mk_request (fst mem) (snd mem)) bytes of
        (result, _, _, _) \<Rightarrow>
          ''bytes_transferred='' @ dec_string (length bytes) @ '' '' @
          '' bytes='' @ [CHR 0x22] @ reduce bytes @ [CHR 0x22] @
          '' error='' @ [CHR 0x22] @ err_msg @ [CHR 0x22] @
          '' result='' @ tribool_name result)"

text \<open>A complete request is shown as one, whatever the memory held.\<close>

lemma boost_trace_request:
  assumes "wf_request r"
  shows "\<exists>front. boost_trace_text mem err_msg (print_request r) = front @ '' result=true''"
  using parse_print_request [OF assms, of "fst mem" "snd mem" "[]"]
  by (simp add: boost_trace_text_def rfc_parse_eq rfc_parser_init_def parser_init_def)

end
