(* ===== verification/Request_Handler.thy ===== *)
theory Request_Handler
  imports Http_Parser
begin

text \<open>
  \<^verbatim>\<open>splice/http/request_handler.hxx\<close> and \<^verbatim>\<open>mime_types.hxx\<close>: a parsed request becomes a
  reply that serves a file below the document root. The file system is a parameter
  \<open>fs\<close>: the bytes of the file a path opens, or \<open>None\<close> where \<^verbatim>\<open>std::ifstream\<close>
  fails to open it.
\<close>

section \<open>MIME types\<close>

definition mappings :: "(string \<times> string) list" where
  "mappings =
     [(''gif'', ''image/gif''), (''htm'', ''text/html''), (''html'', ''text/html''),
      (''jpg'', ''image/jpeg''), (''png'', ''image/png'')]"

fun lookup_mapping :: "(string \<times> string) list \<Rightarrow> string \<Rightarrow> string" where
  "lookup_mapping [] extension = ''text/plain''"
| "lookup_mapping ((ext, mime) # ms) extension =
     (if ext = extension then mime else lookup_mapping ms extension)"

definition extension_to_type :: "string \<Rightarrow> string" where
  "extension_to_type extension = lookup_mapping mappings extension"

section \<open>URL decoding\<close>

text \<open>
  \<^verbatim>\<open>url_decode\<close>; \<open>None\<close> is its result \<^verbatim>\<open>false\<close>, after which the caller drops the
  partial output. The two characters after a percent sign go through an input stream with
  \<^verbatim>\<open>std::hex\<close>, and both are skipped whatever the stream took of them.
\<close>

fun url_decode :: "string \<Rightarrow> string option" where
  "url_decode [] = Some []"
| "url_decode (c # cs) =
     (if c = CHR ''%'' then
        (case cs of
           a # b # rest \<Rightarrow>
             (case stream_hex_int [a, b] of
                Some v \<Rightarrow> map_option (Cons (char_of v)) (url_decode rest)
              | None \<Rightarrow> None)
         | _ \<Rightarrow> None)
      else if c = CHR ''+'' then map_option (Cons CHR '' '') (url_decode cs)
      else map_option (Cons c) (url_decode cs))"

section \<open>Serving a file\<close>

text \<open>The request path, decoded and checked: the first two blocks of \<^verbatim>\<open>handle_request\<close>.\<close>

definition checked_path :: "string \<Rightarrow> string option" where
  "checked_path uri =
     (case url_decode uri of
        None \<Rightarrow> None
      | Some p \<Rightarrow>
          (case p of
             [] \<Rightarrow> None
           | c # cs \<Rightarrow> if c \<noteq> CHR ''/'' \<or> str_find ''..'' p \<noteq> None then None else Some p))"

definition with_index :: "string \<Rightarrow> string" where
  "with_index p = (if last p = CHR ''/'' then p @ ''index.html'' else p)"

definition path_extension :: "string \<Rightarrow> string" where
  "path_extension p =
     (case (find_last CHR ''.'' p, find_last CHR ''/'' p) of
        (Some dot, Some slash) \<Rightarrow> if slash < dot then drop (dot + 1) p else []
      | _ \<Rightarrow> [])"

text \<open>The loop that reads the file in blocks of 512 bytes; it ends when a read gets none.\<close>

function read_blocks :: "string \<Rightarrow> string \<Rightarrow> string" where
  "read_blocks acc file =
     (let buf = take 512 file
      in if length buf > 0 then read_blocks (acc @ buf) (drop 512 file) else acc)"
  by pat_completeness auto
termination
  by (relation "measure (\<lambda>(acc, file). length file)") auto

declare read_blocks.simps [simp del]

type_synonym file_system = "string \<Rightarrow> string option"

definition handle_request :: "string \<Rightarrow> file_system \<Rightarrow> request \<Rightarrow> reply \<Rightarrow> reply" where
  "handle_request doc_root fs req rep =
     (case checked_path (req_uri req) of
        None \<Rightarrow> stock_reply Bad_request
      | Some p \<Rightarrow>
          let request_path = with_index p;
              extension = path_extension request_path;
              full_path = doc_root @ request_path
          in (case fs (c_str full_path) of
                None \<Rightarrow> stock_reply Not_found
              | Some file \<Rightarrow>
                  let body = read_blocks (content rep) file
                  in rep\<lparr>status := Ok, content := body,
                         rep_headers := length_and_type body (extension_to_type extension)\<rparr>))"

section \<open>Decoding inverts encoding\<close>

text \<open>
  The reference encoder writes a percent sign, a plus sign and every byte outside the
  printable range as \<^verbatim>\<open>%\<close> and two hexadecimal digits.
\<close>

definition pct_char :: "char \<Rightarrow> string" where
  "pct_char c =
     (let n = of_char c :: nat
      in if c = CHR ''%'' \<or> c = CHR ''+'' \<or> n \<le> 32 \<or> 127 \<le> n
         then [CHR ''%'', digit_char (n div 16), digit_char (n mod 16)] else [c])"

definition pct_encode :: "string \<Rightarrow> string" where
  "pct_encode s = concat (map pct_char s)"

lemma stream_hex_int_two_digits:
  assumes "h < 16" "l < 16"
  shows "stream_hex_int [digit_char h, digit_char l] = Some (int (16 * h + l))"
proof -
  let ?s = "[digit_char h, digit_char l]"
  have digs: "\<forall>c\<in>set ?s. xdigit_val c \<noteq> None" using assms by auto
  then have "digit_char h \<noteq> CHR ''-''" "digit_char h \<noteq> CHR ''+''" by auto
  moreover have "hex_prefixed ?s = Some (16 * h + l)"
    using hex_prefixed_digits [of ?s] digs assms by simp
  ultimately have "stream_hex ?s = Some (False, 16 * h + l)"
    using assms by (simp add: stream_hex_def)
  moreover have "16 * h + l < 256" using assms by simp
  ultimately show ?thesis by (simp add: stream_hex_int_def)
qed

lemma char_of_int_code: "(char_of (int (16 * (of_char c div 16) + of_char c mod 16)) :: char) = c"
proof -
  have "16 * (of_char c div 16) + of_char c mod 16 = (of_char c :: nat)" by simp
  then show ?thesis by (simp only: of_nat_of_char char_of_char)
qed

lemma url_decode_pct_char:
  "url_decode (pct_char c @ s) = map_option (Cons c) (url_decode s)"
proof -
  have "(of_char c :: nat) div 16 < 16" "(of_char c :: nat) mod 16 < 16"
    using nat_of_char_less_256 [of c] less_mult_imp_div_less [of "of_char c" 16 16] by auto
  from stream_hex_int_two_digits [OF this] char_of_int_code [of c]
  show ?thesis by (simp add: pct_char_def Let_def)
qed

lemma url_decode_pct_encode: "url_decode (pct_encode s) = Some s"
  by (induction s) (simp_all add: pct_encode_def url_decode_pct_char)

lemma length_url_decode: "url_decode s = Some t \<Longrightarrow> length t \<le> length s"
proof (induction s arbitrary: t rule: url_decode.induct)
  case (2 c cs)
  then show ?case
    by (fastforce split: if_splits list.splits option.splits)
qed simp

section \<open>The path stays below the root\<close>

lemma checked_path_safe:
  assumes "checked_path uri = Some p"
  shows "\<exists>cs. p = CHR ''/'' # cs" "str_find ''..'' p = None"
  using assms by (auto simp: checked_path_def split: option.splits list.splits if_splits)

lemma no_dotdot_append_index:
  assumes "str_find ''..'' p = None" "last p = CHR ''/''" "p \<noteq> []"
  shows "str_find ''..'' (p @ ''index.html'') = None"
  using assms
proof (induction p)
  case (Cons c cs)
  show ?case
  proof (cases cs)
    case Nil
    with Cons.prems show ?thesis by simp
  next
    case (Cons d ds)
    with Cons.IH Cons.prems show ?thesis by (auto split: if_splits)
  qed
qed simp

definition below_root :: "string \<Rightarrow> string \<Rightarrow> bool" where
  "below_root doc_root path \<longleftrightarrow>
     (\<exists>p. path = doc_root @ CHR ''/'' # p \<and> str_find ''..'' (CHR ''/'' # p) = None)"

lemma with_index_safe:
  assumes "checked_path uri = Some p"
  shows "\<exists>cs. with_index p = CHR ''/'' # cs" "str_find ''..'' (with_index p) = None"
  using checked_path_safe [OF assms] no_dotdot_append_index [of p]
  by (auto simp: with_index_def)

lemma str_find_None_prefix: "\<lbrakk>str_find q s = None; s = t @ u\<rbrakk> \<Longrightarrow> str_find q t = None"
  unfolding str_find_None_iff by (metis append_assoc)

lemma c_str_append: "CHR 0x00 \<notin> set s \<Longrightarrow> c_str (s @ t) = s @ c_str t"
  by (induction s) (auto simp: c_str_def)

lemma opened_path_below_root:
  assumes "checked_path uri = Some p" "CHR 0x00 \<notin> set doc_root"
  shows "below_root doc_root (c_str (doc_root @ with_index p))"
proof -
  obtain cs where cs: "with_index p = CHR ''/'' # cs" using with_index_safe(1) [OF assms(1)] by blast
  obtain t where t: "with_index p = c_str (with_index p) @ t" using c_str_prefix by blast
  have "str_find ''..'' (c_str (with_index p)) = None"
    using str_find_None_prefix [OF with_index_safe(2) [OF assms(1)] t] .
  moreover have "c_str (with_index p) = CHR ''/'' # c_str cs" by (simp add: cs c_str_def)
  ultimately show ?thesis using assms(2) by (auto simp: below_root_def c_str_append)
qed

lemma read_blocks_eq: "read_blocks acc file = acc @ file"
proof (induction acc "file" rule: read_blocks.induct)
  case (1 acc bytes)
  then show ?case by (simp add: read_blocks.simps [of acc bytes] Let_def)
qed

lemma no_cr_extension_to_type: "no_cr (extension_to_type e)"
  by (auto simp: extension_to_type_def mappings_def)

lemma clean_handle_request:
  "list_all clean_header (rep_headers (handle_request doc_root fs req rep))"
  by (simp add: handle_request_def stock_reply_def clean_length_and_type Let_def
      no_cr_extension_to_type split: option.split)

section \<open>Properties\<close>

text \<open>
  C37. URL decoding inverts percent encoding on every string of bytes, and on every input
  the output is no longer than the input, so the capacity reserved before the loop
  suffices.
\<close>

theorem url_decode_roundtrip:
  "url_decode (pct_encode s) = Some s \<and>
   (\<forall>t out. url_decode t = Some out \<longrightarrow> length out \<le> length t)"
  using url_decode_pct_encode length_url_decode by blast

theorem url_decode_roundtrip_witness:
  "url_decode (pct_encode ''a b%'') = Some ''a b%'' \<and> url_decode ''a+b'' = Some ''a b'' \<and>
   length ''a b'' \<le> length ''a+b''"
  using url_decode_roundtrip [of "''a b%''"] by simp

text \<open>
  The decoder is laxer than its comment: the two characters after a percent sign need
  not be hexadecimal digits. A digit followed by any other character, a sign or a blank
  followed by a digit are all accepted, and the character that is no digit is swallowed;
  only a percent sign followed by fewer than two characters, or by two the stream cannot
  start a number with, is refused.
\<close>

lemma url_decode_accepts_invalid_escapes:
  "url_decode ''%1gx'' = Some [CHR 0x01, CHR ''x''] \<and> url_decode ''%-1'' = Some [CHR 0xFF] \<and>
   url_decode ''% 5'' = Some [CHR 0x05] \<and> url_decode ''%1'' = None \<and> url_decode ''%g1'' = None"
  by code_simp

text \<open>
  C3. Confinement: the reply to any request depends on the file system only through paths
  that consist of the document root, a slash, and a rest in which no two dots are adjacent.
  Two file systems that agree there give the same reply, so nothing outside the root can
  reach the client, whatever percent encoding or NUL byte the uri uses.
\<close>

theorem handle_request_confined:
  assumes "CHR 0x00 \<notin> set doc_root"
    and "\<And>path. below_root doc_root path \<Longrightarrow> fs path = fs' path"
  shows "handle_request doc_root fs req rep = handle_request doc_root fs' req rep"
proof (cases "checked_path (req_uri req)")
  case None
  then show ?thesis by (simp add: handle_request_def)
next
  case (Some p)
  have "fs (c_str (doc_root @ with_index p)) = fs' (c_str (doc_root @ with_index p))"
    using assms(2) opened_path_below_root [OF Some assms(1)] by blast
  with Some show ?thesis by (simp add: handle_request_def Let_def)
qed

definition sample_fs :: file_system where
  "sample_fs path = (if path = ''/www/a.html'' then Some ''hello'' else None)"

definition leaky_fs :: file_system where
  "leaky_fs path = (if path = ''/etc/passwd'' then Some ''root'' else sample_fs path)"

theorem handle_request_confined_witness:
  "handle_request ''/www'' leaky_fs (mk_request 1 1\<lparr>req_uri := ''/../etc/passwd''\<rparr>) (stock_reply Ok) =
   handle_request ''/www'' sample_fs (mk_request 1 1\<lparr>req_uri := ''/../etc/passwd''\<rparr>) (stock_reply Ok)"
  by (rule handle_request_confined) (auto simp: leaky_fs_def below_root_def)

text \<open>
  C35. Serving a file: for a path that starts with a slash, does not end in one, has neither
  adjacent dots nor a NUL byte and names a file below the root, the request for the encoded
  path is answered with status 200, the whole content of that file, its length in decimal
  and the MIME type of its extension.
\<close>

theorem handle_request_serves_file:
  assumes "hd p = CHR ''/''" "p \<noteq> []" "last p \<noteq> CHR ''/''" "str_find ''..'' p = None"
    and "CHR 0x00 \<notin> set p" "CHR 0x00 \<notin> set doc_root"
    and "fs (doc_root @ p) = Some bytes"
    and "req_uri req = pct_encode p" "content rep = []"
  shows "handle_request doc_root fs req rep =
           \<lparr>status = Ok,
            rep_headers = [\<lparr>hname = ''Content-Length'', hvalue = dec_string (length bytes)\<rparr>,
              \<lparr>hname = ''Content-Type'', hvalue = extension_to_type (path_extension p)\<rparr>],
            content = bytes\<rparr>"
proof -
  have "checked_path (req_uri req) = Some p"
    using assms(1-4,8) by (cases p) (simp_all add: checked_path_def url_decode_pct_encode)
  moreover have "with_index p = p" using assms(3) by (simp add: with_index_def)
  moreover have "c_str (doc_root @ p) = doc_root @ p"
    using assms(5,6) by (auto simp: c_str_def takeWhile_eq_all_conv)
  ultimately show ?thesis
    using assms(7,9) by (simp add: handle_request_def read_blocks_eq length_and_type_def)
qed

theorem handle_request_serves_file_witness:
  "handle_request ''/www'' sample_fs (mk_request 1 1\<lparr>req_uri := pct_encode ''/a.html''\<rparr>)
     \<lparr>status = Not_found, rep_headers = [], content = []\<rparr> =
   \<lparr>status = Ok,
    rep_headers = [\<lparr>hname = ''Content-Length'', hvalue = ''5''\<rparr>,
      \<lparr>hname = ''Content-Type'', hvalue = ''text/html''\<rparr>],
    content = ''hello''\<rparr>"
  by (subst handle_request_serves_file [where p = "''/a.html''" and bytes = "''hello''"])
     (simp_all add: sample_fs_def dec_string_def base_digits.simps digit_char_def char_of_def bit_Suc_0_iff
       extension_to_type_def mappings_def path_extension_def)

text \<open>
  C36. Framing: whatever the request, the file system and the reply object that is filled in,
  a client that reads the bytes of the reply line by line up to the empty line finds the
  status line, a Content-Length and a Content-Type line, and then exactly the content; the
  length announced is the decimal length of that content.
\<close>

theorem handle_request_framing:
  "let r = handle_request doc_root fs req rep
   in \<exists>mime. unframe (concat (to_buffers r)) =
        Some ([status_text (status r),
               ''Content-Length: '' @ dec_string (length (content r)),
               ''Content-Type: '' @ mime], content r)"
proof -
  let ?r = "handle_request doc_root fs req rep"
  have "\<exists>mime. rep_headers ?r = length_and_type (content ?r) mime"
    by (auto simp: handle_request_def stock_reply_def Let_def split: option.split)
  then obtain mime where "rep_headers ?r = length_and_type (content ?r) mime" by blast
  then show ?thesis
    using unframe_to_buffers [OF clean_handle_request, of doc_root fs req rep]
    by (simp add: length_and_type_def header_line_def name_value_separator_def)
qed

end
