(* ===== verification/Http_Session.thy ===== *)
theory Http_Session
  imports Request_Handler Tcp_Session
begin

text \<open>
  \<^verbatim>\<open>splice/http/http_session.hxx\<close>: one HTTP connection. The first read decides between
  serving the request, waiting for more data and refusing the connection to the next
  protocol of a multi protocol server; later reads answer a bad request themselves.
\<close>

section \<open>The session\<close>

record http_session = tcp_session +
  session_parser :: parser_state
  session_request :: request
  session_reply :: reply

datatype http_handler = Handle_read | Handle_write

text \<open>
  A fresh session on a connected socket: the parser is in its initial state, the request and
  the reply hold nothing but what was in memory for their integers.
\<close>

definition mk_http_session :: "bool \<Rightarrow> 32 word \<Rightarrow> 32 word \<Rightarrow> status_type \<Rightarrow> http_session" where
  "mk_http_session opened a b st =
     \<lparr>is_open = opened, session_parser = parser_init, session_request = mk_request a b,
      session_reply = \<lparr>status = st, rep_headers = [], content = []\<rparr>\<rparr>"

text \<open>The gathering write of the reply, which both reads end with.\<close>

definition write_reply :: "reply \<Rightarrow> http_handler effect" where
  "write_reply rep = Async_write (concat (to_buffers rep)) Handle_write"

definition ws_key_text :: string where
  "ws_key_text = ''Sec-WebSocket-Key:''"

definition http_first_read ::
  "string \<Rightarrow> file_system \<Rightarrow> error_code \<times> error_code \<Rightarrow> error_code \<Rightarrow> string \<Rightarrow> http_session
     \<Rightarrow> (http_handler, http_session) step" where
  "http_first_read doc_root fs os ec incoming s =
     (if ec \<noteq> No_error then
        (if ec \<noteq> Operation_aborted then on_error_code os ec s else (s, []))
      else if str_find ws_key_text incoming \<noteq> None then
        (s, [Handshake_fail \<lparr>tag = Http, hs_bytes = incoming\<rparr>])
      else (case parse (session_parser s) (session_request s) incoming of (result, p, r, _) \<Rightarrow>
        let s' = s\<lparr>session_parser := p, session_request := r\<rparr>
        in (case result of
              TTrue \<Rightarrow>
                let rep = handle_request doc_root fs r (session_reply s')
                in (s'\<lparr>session_reply := rep\<rparr>, [write_reply rep])
            | TFalse \<Rightarrow> (s', [Handshake_fail \<lparr>tag = Http, hs_bytes = incoming\<rparr>])
            | Indeterminate \<Rightarrow> (s', [Async_read_some Handle_read]))))"

definition http_handshake ::
  "string \<Rightarrow> file_system \<Rightarrow> error_code \<times> error_code \<Rightarrow> hand_shake_data \<Rightarrow> http_session
     \<Rightarrow> (http_handler, http_session) step" where
  "http_handshake doc_root fs os incoming s =
     (if tag incoming \<noteq> Http then (s, [Handshake_fail incoming])
      else http_first_read doc_root fs os No_error (hs_bytes incoming) s)"

text \<open>
  \<^verbatim>\<open>get_socket().close()\<close>, the overload without an error code, at the end of a handler that has
  had the effects \<open>es\<close>: it throws when closing reports the error \<open>close_ec\<close>, and nothing catches
  that.
\<close>

definition close_socket ::
  "error_code \<Rightarrow> http_handler effect list \<Rightarrow> http_session \<Rightarrow> (http_handler, http_session) step outcome" where
  "close_socket close_ec es s =
     (if close_ec \<noteq> No_error then Uncaught_exception
      else Returns (s\<lparr>is_open := False\<rparr>, es @ [Socket_close]))"

definition handle_read ::
  "string \<Rightarrow> file_system \<Rightarrow> error_code \<Rightarrow> error_code \<Rightarrow> string \<Rightarrow> http_session
     \<Rightarrow> (http_handler, http_session) step outcome" where
  "handle_read doc_root fs close_ec ec incoming s =
     (if ec = No_error then
        (case parse (session_parser s) (session_request s) incoming of (result, p, r, _) \<Rightarrow>
           let s' = s\<lparr>session_parser := p, session_request := r\<rparr>
           in (case result of
                 TTrue \<Rightarrow>
                   let rep = handle_request doc_root fs r (session_reply s')
                   in Returns (s'\<lparr>session_reply := rep\<rparr>, [write_reply rep])
               | TFalse \<Rightarrow>
                   let rep = stock_reply Bad_request
                   in Returns (s'\<lparr>session_reply := rep\<rparr>, [write_reply rep])
               | Indeterminate \<Rightarrow> Returns (s', [Async_read_some Handle_read])))
      else if ec \<noteq> Operation_aborted then close_socket close_ec [] s
      else Returns (s, []))"

definition handle_write ::
  "error_code \<Rightarrow> error_code \<Rightarrow> http_session \<Rightarrow> (http_handler, http_session) step outcome" where
  "handle_write close_ec ec s =
     (if ec = No_error then close_socket close_ec [Socket_shutdown] s
      else if ec \<noteq> Operation_aborted then close_socket close_ec [] s
      else Returns (s, []))"

lemmas http_defs [handler_defs] =
  http_first_read_def http_handshake_def handle_read_def handle_write_def close_socket_def write_reply_def

section \<open>A connection as a sequence of reads\<close>

text \<open>
  Asio calls \<^verbatim>\<open>handle_read\<close> only after the session has asked for a read; the bytes the
  client sends arrive cut into buffers at places nobody controls.
\<close>

fun wants_read :: "http_handler effect list \<Rightarrow> bool" where
  "wants_read [Async_read_some Handle_read] = True"
| "wants_read _ = False"

fun later_reads ::
  "string \<Rightarrow> file_system \<Rightarrow> error_code \<Rightarrow> string list \<Rightarrow> (http_handler, http_session) step
     \<Rightarrow> (http_handler, http_session) step outcome" where
  "later_reads doc_root fs close_ec [] r = Returns r"
| "later_reads doc_root fs close_ec (b # bs) (s, es) =
     (if wants_read es then
        (case handle_read doc_root fs close_ec No_error b s of
           Returns r \<Rightarrow> later_reads doc_root fs close_ec bs r
         | failed \<Rightarrow> failed)
      else Returns (s, es))"

definition http_connection ::
  "string \<Rightarrow> file_system \<Rightarrow> error_code \<times> error_code \<Rightarrow> string list \<Rightarrow> http_session
     \<Rightarrow> (http_handler, http_session) step outcome" where
  "http_connection doc_root fs os buffers s =
     (case buffers of
        [] \<Rightarrow> Returns (s, [Async_read_some Handle_read])
      | b # bs \<Rightarrow> later_reads doc_root fs (snd os) bs (http_first_read doc_root fs os No_error b s))"

lemma later_reads_stop [simp]:
  "\<not> wants_read es \<Longrightarrow> later_reads doc_root fs close_ec bs (s, es) = Returns (s, es)"
  by (cases bs) auto

lemma wants_read_write_reply [simp]: "\<not> wants_read [write_reply rep]"
  by (simp add: write_reply_def)

text \<open>The later reads together do what one parse of all their bytes does.\<close>

lemma later_reads_accept:
  assumes "parse (session_parser s) (session_request s) (concat bs) = (TTrue, p, r, [])"
    and "bs \<noteq> []" "last bs \<noteq> []"
  shows "\<exists>s'. later_reads doc_root fs close_ec bs (s, [Async_read_some Handle_read]) =
           Returns (s', [write_reply (handle_request doc_root fs r (session_reply s))])
         \<and> is_open s' = is_open s"
  using assms
proof (induction bs arbitrary: s)
  case (Cons b bs)
  show ?case
  proof (cases bs)
    case Nil
    with Cons.prems show ?thesis by (simp add: handle_read_def Let_def)
  next
    case (Cons b' bs')
    with Cons.prems have ne: "bs \<noteq> []" "last bs \<noteq> []" by auto
    from http_parser.parse_first_buffer [OF Cons.prems(1) ne] obtain st1 r1
      where b: "parse (session_parser s) (session_request s) b = (Indeterminate, st1, r1, [])"
        and rest: "parse st1 r1 (concat bs) = (TTrue, p, r, [])" by blast
    with Cons.IH [of "s\<lparr>session_parser := st1, session_request := r1\<rparr>"] ne b rest
    show ?thesis by (auto simp: handle_read_def)
  qed
qed simp

lemma http_connection_accept:
  assumes "parse (session_parser s) (session_request s) (concat bufs) = (TTrue, p, r, [])"
    and "bufs \<noteq> []" "last bufs \<noteq> []" "str_find ws_key_text (hd bufs) = None"
  shows "\<exists>s'. http_connection doc_root fs os bufs s =
           Returns (s', [write_reply (handle_request doc_root fs r (session_reply s))])
         \<and> is_open s' = is_open s"
proof -
  obtain b bs where bufs: "bufs = b # bs" using assms(2) by (cases bufs) auto
  show ?thesis
  proof (cases bs)
    case Nil
    with assms bufs show ?thesis by (simp add: http_connection_def http_first_read_def Let_def)
  next
    case (Cons b' bs')
    with assms bufs have ne: "bs \<noteq> []" "last bs \<noteq> []" by auto
    from http_parser.parse_first_buffer [OF assms(1) [unfolded bufs] ne] obtain st1 r1
      where b: "parse (session_parser s) (session_request s) b = (Indeterminate, st1, r1, [])"
        and rest: "parse st1 r1 (concat bs) = (TTrue, p, r, [])" by blast
    with later_reads_accept [of "s\<lparr>session_parser := st1, session_request := r1\<rparr>" bs p r doc_root fs "snd os"]
      ne b rest assms(4) bufs
    show ?thesis by (auto simp: http_connection_def http_first_read_def)
  qed
qed

text \<open>The same for input that is refused somewhere.\<close>

lemma parse_reject_split:
  assumes "parse st r (b @ ys) = (TFalse, p, q, rest)"
  shows "fst (parse st r b) = TFalse \<or>
     (\<exists>st1 r1. parse st r b = (Indeterminate, st1, r1, []) \<and> parse st1 r1 ys = (TFalse, p, q, rest))"
proof -
  obtain res st1 r1 rest1 where b: "parse st r b = (res, st1, r1, rest1)" by (cases "parse st r b")
  then show ?thesis
    using assms http_parser.parse_append [of st r b ys] http_parser.parse_indeterminate_rest
    by (cases res) auto
qed

lemma later_reads_reject:
  "parse (session_parser s) (session_request s) (concat bs) = (TFalse, p, r, rest) \<Longrightarrow>
     \<exists>s'. later_reads doc_root fs close_ec bs (s, [Async_read_some Handle_read]) =
       Returns (s', [write_reply (stock_reply Bad_request)])"
proof (induction bs arbitrary: s)
  case Nil
  then show ?case by (simp add: http_parser.parse_Nil)
next
  case (Cons b bs)
  from Cons.prems have "parse (session_parser s) (session_request s) (b @ concat bs) = (TFalse, p, r, rest)"
    by simp
  from parse_reject_split [OF this]
  consider "fst (parse (session_parser s) (session_request s) b) = TFalse"
    | st1 r1 where "parse (session_parser s) (session_request s) b = (Indeterminate, st1, r1, [])"
        "parse st1 r1 (concat bs) = (TFalse, p, r, rest)" by blast
  then show ?case
  proof cases
    case 1
    then show ?thesis by (auto simp: handle_read_def Let_def split: prod.splits)
  next
    case 2
    with Cons.IH [of "s\<lparr>session_parser := st1, session_request := r1\<rparr>"]
    show ?thesis by (auto simp: handle_read_def)
  qed
qed

section \<open>Properties\<close>

text \<open>
  C11. One request, one reply, however the network cuts it: for every well-formed request and
  every way to deliver its text in buffers, of which the last is not empty and the first does
  not hold the WebSocket key header, a fresh session reads until the last buffer and then
  writes exactly the bytes of the reply to that request; when that write completes the socket
  is shut down and closed, and if closing it reports an error, that is thrown out of the handler.
\<close>

theorem http_reply_any_fragmentation:
  assumes "wf_request r" "concat bufs = print_request r" "bufs \<noteq> []" "last bufs \<noteq> []"
    and "str_find ws_key_text (hd bufs) = None"
  shows "\<exists>s. http_connection doc_root fs os bufs (mk_http_session True a b st) =
           Returns (s, [Async_write (concat (to_buffers (handle_request doc_root fs r
                  \<lparr>status = st, rep_headers = [], content = []\<rparr>))) Handle_write]) \<and>
         is_open s \<and> handle_write (snd os) No_error s =
           (if snd os = No_error then Returns (s\<lparr>is_open := False\<rparr>, [Socket_shutdown, Socket_close])
            else Uncaught_exception)"
proof -
  have "parse parser_init (mk_request a b) (concat bufs) = (TTrue, Expecting_newline_3, r, [])"
    using parse_print_request [OF assms(1), of a b "[]"] assms(2) by simp
  with http_connection_accept [of "mk_http_session True a b st" bufs _ r doc_root fs os] assms(3-5)
  show ?thesis by (auto simp: mk_http_session_def write_reply_def handle_write_def close_socket_def)
qed

theorem http_reply_any_fragmentation_witness:
  "\<exists>s. http_connection ''/www'' sample_fs (No_error, No_error)
       [take 9 (print_request sample_request), drop 9 (print_request sample_request)]
       (mk_http_session True 0 0 Ok) =
     Returns (s, [Async_write (concat (to_buffers (stock_reply Not_found))) Handle_write])"
proof -
  let ?bufs = "[take 9 (print_request sample_request), drop 9 (print_request sample_request)]"
  have printed: "print_request sample_request =
      ''GET /a HTTP/1.1'' @ crlf @ ''Host: x'' @ crlf @ crlf"
    by (simp add: print_request_def sample_request_def print_header_def version_text_def dec_string_def
        base_digits.simps digit_char_def char_of_def bit_Suc_0_iff)
  have "str_find ws_key_text (hd ?bufs) = None" "last ?bufs \<noteq> []"
    by (simp_all add: printed ws_key_text_def crlf_def)
  moreover have "handle_request ''/www'' sample_fs sample_request rep = stock_reply Not_found" for rep
    by (simp add: handle_request_def checked_path_def with_index_def sample_request_def
        sample_fs_def c_str_def)
  ultimately show ?thesis
    using http_reply_any_fragmentation
      [OF wf_sample_request, of ?bufs "''/www''" sample_fs "(No_error, No_error)" 0 0 Ok] by auto
qed

text \<open>
  Refused input: when the bytes of a connection are not a request, the answer depends on
  where the first bad byte falls. In the first buffer the session hands the socket and all the
  bytes of that buffer to the next protocol; in a later one it answers with the 400 page and
  stops reading.
\<close>

lemma http_bad_request:
  assumes "parse parser_init (mk_request a b) (concat (buf # bufs)) = (TFalse, p, r, rest)"
    and "str_find ws_key_text buf = None"
  shows "map_option snd (outcome_option (http_connection doc_root fs os (buf # bufs) (mk_http_session True a b st))) =
           Some (if fst (parse parser_init (mk_request a b) buf) = TFalse
            then [Handshake_fail \<lparr>tag = Http, hs_bytes = buf\<rparr>]
            else [Async_write (concat (to_buffers (stock_reply Bad_request))) Handle_write])"
proof -
  let ?s = "mk_http_session True a b st"
  have s: "session_parser ?s = parser_init" "session_request ?s = mk_request a b"
    by (simp_all add: mk_http_session_def)
  from assms(1) have "parse parser_init (mk_request a b) (buf @ concat bufs) = (TFalse, p, r, rest)"
    by simp
  from parse_reject_split [OF this]
  consider "fst (parse parser_init (mk_request a b) buf) = TFalse"
    | st1 r1 where "parse parser_init (mk_request a b) buf = (Indeterminate, st1, r1, [])"
        "parse st1 r1 (concat bufs) = (TFalse, p, r, rest)" by blast
  then show ?thesis
  proof cases
    case 1
    with assms(2) s show ?thesis
      by (auto simp: http_connection_def http_first_read_def Let_def split: prod.splits)
  next
    case 2
    with later_reads_reject [of "?s\<lparr>session_parser := st1, session_request := r1\<rparr>" bufs p r rest
        doc_root fs "snd os"] assms(2) s
    show ?thesis by (auto simp: http_connection_def http_first_read_def write_reply_def)
  qed
qed

text \<open>
  Whether an upgrade request reaches the WebSocket protocol depends on how it is cut: a
  well-formed request that holds the key header is handed on when it arrives in one piece, and
  is answered as a plain HTTP request when the same bytes arrive one by one.
\<close>

lemma upgrade_depends_on_fragmentation:
  assumes "wf_request r" "str_find ws_key_text (print_request r) \<noteq> None"
  shows "map_option snd (outcome_option (http_connection doc_root fs os [print_request r] (mk_http_session True a b st))) =
           Some [Handshake_fail \<lparr>tag = Http, hs_bytes = print_request r\<rparr>] \<and>
         map_option snd (outcome_option (http_connection doc_root fs os (map (\<lambda>c. [c]) (print_request r))
                (mk_http_session True a b st))) =
           Some [Async_write (concat (to_buffers (handle_request doc_root fs r
              \<lparr>status = st, rep_headers = [], content = []\<rparr>))) Handle_write]"
proof
  show "map_option snd (outcome_option (http_connection doc_root fs os [print_request r] (mk_http_session True a b st))) =
      Some [Handshake_fail \<lparr>tag = Http, hs_bytes = print_request r\<rparr>]"
    using assms(2) by (simp add: http_connection_def http_first_read_def)
next
  let ?bufs = "map (\<lambda>c. [c]) (print_request r)"
  have ne: "print_request r \<noteq> []" by (simp add: print_request_def)
  then have "last ?bufs \<noteq> []" by (simp add: last_map)
  moreover have "str_find ws_key_text (hd ?bufs) = None"
    using ne by (simp add: hd_map ws_key_text_def)
  moreover have "parse parser_init (mk_request a b) (concat ?bufs) = (TTrue, Expecting_newline_3, r, [])"
    using parse_print_request [OF assms(1), of a b "[]"] by simp
  ultimately show "map_option snd (outcome_option (http_connection doc_root fs os ?bufs (mk_http_session True a b st))) =
      Some [Async_write (concat (to_buffers (handle_request doc_root fs r
        \<lparr>status = st, rep_headers = [], content = []\<rparr>))) Handle_write]"
    using http_connection_accept [of "mk_http_session True a b st" ?bufs _ r doc_root fs os] ne
    by (auto simp: mk_http_session_def write_reply_def)
qed

lemma upgrade_request_has_key: "str_find ws_key_text (print_request upgrade_request) \<noteq> None"
  by (simp add: print_upgrade_request ws_key_text_def crlf_def)

end
