(* ===== verification/Ws_Frame.thy ===== *)
theory Ws_Frame
  imports Cpp_Std "HOL-Library.Word"
begin

unbundle bit_operations_syntax

text \<open>
  The data frames of \<^verbatim>\<open>splice/web_socket/rfc6455_engine.hpp\<close>: \<^verbatim>\<open>rfc6455_engine::data_frame\<close>
  with its \<^verbatim>\<open>to_buffers\<close>, and the byte order conversions \<^verbatim>\<open>hton16\<close>, \<^verbatim>\<open>ntoh16\<close>,
  \<^verbatim>\<open>hton64\<close> and \<^verbatim>\<open>ntoh64\<close> of the parser class. Integers keep their width. The byte order
  of the machine is an argument, because the code tests it at run time and because buffers
  are the bytes of the fields in memory.
\<close>

section \<open>Bytes and characters\<close>

text \<open>A byte of a payload as a character of a \<^verbatim>\<open>std::string\<close>, and back.\<close>

definition byte_char :: "8 word \<Rightarrow> char" where
  "byte_char b = char_of (unat b)"

definition char_byte :: "char \<Rightarrow> 8 word" where
  "char_byte c = of_char c"

lemma byte_char_char_byte [simp]: "byte_char (char_byte c) = c"
proof -
  have "(of_char c :: 8 word) = word_of_nat (of_char c)" by (rule of_nat_of_char [symmetric])
  then have "unat (of_char c :: 8 word) = take_bit 8 (of_char c :: nat)"
    by (simp add: unsigned_of_nat)
  also have "\<dots> = of_char c" by (rule take_bit_nat_eq_self) (simp add: nat_of_char_less_256)
  finally show ?thesis by (simp add: byte_char_def char_byte_def)
qed

lemma byte_char_comp [simp]: "byte_char \<circ> char_byte = id"
  by (simp add: fun_eq_iff)

lemma char_byte_byte_char [simp]: "char_byte (byte_char b) = b"
proof -
  have "unat b < 256" by (rule order.strict_trans2 [OF unsigned_less]) simp
  then have "(of_char (char_of (unat b) :: char) :: nat) = unat b" by simp
  moreover have "(of_char (char_of (unat b) :: char) :: 8 word) =
      word_of_nat (of_char (char_of (unat b) :: char))"
    by (rule of_nat_of_char [symmetric])
  ultimately show ?thesis by (simp add: byte_char_def char_byte_def)
qed

section \<open>Byte order\<close>

datatype byte_order = Little | Big

text \<open>The bytes of an integer, least significant first, and as they lie in memory.\<close>

definition le_bytes :: "'a::len word \<Rightarrow> 8 word list" where
  "le_bytes w = map (\<lambda>i. ucast (drop_bit (8 * i) w)) [0..<LENGTH('a) div 8]"

definition mem_bytes :: "byte_order \<Rightarrow> 'a::len word \<Rightarrow> 8 word list" where
  "mem_bytes ord w = (case ord of Little \<Rightarrow> le_bytes w | Big \<Rightarrow> rev (le_bytes w))"

text \<open>The test \<^verbatim>\<open>*reinterpret_cast<const char*>(&num) == num\<close> for the \<^verbatim>\<open>int32_t\<close> 42.\<close>

definition little_host :: "byte_order \<Rightarrow> bool" where
  "little_host ord = (scast (hd (mem_bytes ord (42 :: 32 word))) = (42 :: 32 word))"

text \<open>
  The conversions. The masks are \<^verbatim>\<open>ULL\<close> constants, so the shifts are done on 64 bits and the
  result is cut to the width of the variable it initialises.
\<close>

definition swap16 :: "16 word \<Rightarrow> 16 word" where
  "swap16 w =
     ucast (push_bit 8 ((ucast w :: 64 word) AND 0x00FF) OR drop_bit 8 ((ucast w :: 64 word) AND 0xFF00))"

definition swap64 :: "64 word \<Rightarrow> 64 word" where
  "swap64 w =
     push_bit 56 (w AND 0x00000000000000FF) OR
     push_bit 40 (w AND 0x000000000000FF00) OR
     push_bit 24 (w AND 0x0000000000FF0000) OR
     push_bit 8 (w AND 0x00000000FF000000) OR
     drop_bit 8 (w AND 0x000000FF00000000) OR
     drop_bit 24 (w AND 0x0000FF0000000000) OR
     drop_bit 40 (w AND 0x00FF000000000000) OR
     drop_bit 56 (w AND 0xFF00000000000000)"

definition ntoh16 :: "byte_order \<Rightarrow> 16 word \<Rightarrow> 16 word" where
  "ntoh16 ord net16 = (if little_host ord then swap16 net16 else net16)"

definition hton16 :: "byte_order \<Rightarrow> 16 word \<Rightarrow> 16 word" where
  "hton16 ord host16 = (if little_host ord then swap16 host16 else host16)"

definition ntoh64 :: "byte_order \<Rightarrow> 64 word \<Rightarrow> 64 word" where
  "ntoh64 ord net64 = (if little_host ord then swap64 net64 else net64)"

definition hton64 :: "byte_order \<Rightarrow> 64 word \<Rightarrow> 64 word" where
  "hton64 ord host64 = (if little_host ord then swap64 host64 else host64)"

lemma little_host_iff [simp]: "little_host ord \<longleftrightarrow> ord = Little"
  by (cases ord) (simp_all add: little_host_def mem_bytes_def le_bytes_def upt_rec)

lemma length_le_bytes [simp]: "length (le_bytes (w :: 'a::len word)) = LENGTH('a) div 8"
  by (simp add: le_bytes_def)

lemma le_bytes16: "le_bytes (w :: 16 word) = [ucast w, ucast (drop_bit 8 w)]"
  by (simp add: le_bytes_def upt_rec)

lemma le_bytes64:
  "le_bytes (w :: 64 word) =
     [ucast w, ucast (drop_bit 8 w), ucast (drop_bit 16 w), ucast (drop_bit 24 w),
      ucast (drop_bit 32 w), ucast (drop_bit 40 w), ucast (drop_bit 48 w), ucast (drop_bit 56 w)]"
  by (simp add: le_bytes_def upt_rec)

text \<open>The masks of the conversions by their bits, and where a conversion takes each bit from.\<close>

definition byte_mask :: "nat \<Rightarrow> 64 word" where
  "byte_mask k = push_bit k (mask 8)"

lemma bit_byte_mask: "bit (byte_mask k) n \<longleftrightarrow> k \<le> n \<and> n < k + 8 \<and> n < 64"
  unfolding byte_mask_def bit_push_bit_iff bit_mask_iff by auto

lemma byte_masks:
  "(0xFF00 :: 64 word) = byte_mask 8" "(0xFF0000 :: 64 word) = byte_mask 16"
  "(0xFF000000 :: 64 word) = byte_mask 24" "(0xFF00000000 :: 64 word) = byte_mask 32"
  "(0xFF0000000000 :: 64 word) = byte_mask 40" "(0xFF000000000000 :: 64 word) = byte_mask 48"
  "(0xFF00000000000000 :: 64 word) = byte_mask 56" "(0xFF :: 64 word) = byte_mask 0"
  by (simp_all add: byte_mask_def mask_eq_exp_minus_1 push_bit_eq_mult)

lemma bit_swap16: "bit (swap16 w) n \<longleftrightarrow> n < 16 \<and> bit w (if n < 8 then 8 + n else n - 8)"
  unfolding swap16_def byte_masks
  by (auto simp add: bit_simps bit_byte_mask ac_simps bit_imp_le_length)

lemma bit_swap64:
  assumes "n < 64"
  shows "bit (swap64 w) n \<longleftrightarrow> bit w (56 - 8 * (n div 8) + n mod 8)"
proof -
  define i j where "i = n div 8" and "j = n mod 8"
  then have n: "n = 8 * i + j" and j: "j < 8" and "i < 8" using assms by auto
  then consider "i = 0" | "i = 1" | "i = 2" | "i = 3" | "i = 4" | "i = 5" | "i = 6" | "i = 7"
    by linarith
  then show ?thesis unfolding swap64_def byte_masks i_def [symmetric] j_def [symmetric]
    by cases (use j in \<open>simp_all add: n bit_simps bit_byte_mask algebra_simps\<close>)
qed

lemma swap16_swap16 [simp]: "swap16 (swap16 w) = w"
  by (rule bit_word_eqI) (auto simp: bit_swap16)

lemma swap64_swap64 [simp]: "swap64 (swap64 w) = w"
proof (rule bit_word_eqI)
  fix n assume "n < LENGTH(64)"
  then have n: "n < 64" by simp
  define i j where "i = n div 8" and "j = n mod 8"
  then have ij: "n = 8 * i + j" "i \<le> 7" "j < 8" using n by auto
  define m where "m = 8 * (7 - i) + j"
  have m: "m < 64" "m div 8 = 7 - i" "m mod 8 = j" using ij by (auto simp: m_def)
  have "bit (swap64 (swap64 w)) n = bit (swap64 w) m"
    using n ij by (simp add: bit_swap64 m_def algebra_simps flip: i_def j_def)
  also have "\<dots> = bit w (56 - 8 * (7 - i) + j)" using m by (simp add: bit_swap64)
  also have "56 - 8 * (7 - i) + j = n" using ij by linarith
  finally show "bit (swap64 (swap64 w)) n = bit w n" .
qed

text \<open>The bits of the bytes, and reading bytes back as an integer.\<close>

lemma bit_le_bytes:
  "i < LENGTH('a) div 8 \<Longrightarrow>
     bit (le_bytes (w :: 'a::len word) ! i) j \<longleftrightarrow> j < 8 \<and> bit w (8 * i + j)"
  by (simp add: le_bytes_def bit_simps)

fun le_word :: "8 word list \<Rightarrow> 'a::len word" where
  "le_word [] = 0"
| "le_word (b # bs) = ucast b OR push_bit 8 (le_word bs)"

lemma bit_le_word:
  "bit (le_word bs :: 'a::len word) n \<longleftrightarrow>
     n < LENGTH('a) \<and> n div 8 < length bs \<and> bit (bs ! (n div 8)) (n mod 8)"
proof (induction bs arbitrary: n)
  case (Cons b bs)
  show ?case
  proof (cases "n < 8")
    case True
    then show ?thesis by (auto simp: bit_simps)
  next
    case False
    then have "n div 8 = Suc ((n - 8) div 8)" "n mod 8 = (n - 8) mod 8"
      by (auto simp: le_div_geq le_mod_geq)
    moreover have "\<not> bit b n" using False by (auto dest: bit_imp_le_length)
    ultimately show ?thesis using False Cons.IH [of "n - 8"] by (auto simp: bit_simps)
  qed
qed simp

lemma le_word_le_bytes [simp]:
  "8 dvd LENGTH('a) \<Longrightarrow> le_word (le_bytes (w :: 'a::len word)) = w"
  by (rule bit_word_eqI) (auto simp: bit_le_word bit_le_bytes div_less_iff_less_mult)

lemma le_bytes_swap16: "le_bytes (swap16 w) = rev (le_bytes w)"
  by (simp add: le_bytes16) (auto intro!: bit_word_eqI simp: bit_simps bit_swap16)

lemma le_bytes_swap64: "le_bytes (swap64 w) = rev (le_bytes w)"
proof (rule nth_equalityI)
  fix i assume "i < length (le_bytes (swap64 w))"
  then have i: "i < 8" by simp
  show "le_bytes (swap64 w) ! i = rev (le_bytes w) ! i"
  proof (rule bit_word_eqI)
    fix j assume "j < LENGTH(8)"
    then have "bit (swap64 w) (8 * i + j) = bit w (8 * (7 - i) + j)"
      using i by (subst bit_swap64) (auto simp: algebra_simps)
    then show "bit (le_bytes (swap64 w) ! i) j = bit (rev (le_bytes w) ! i) j"
      using i by (simp add: rev_nth bit_le_bytes)
  qed
qed simp

section \<open>The interface of the byte order conversions\<close>

text \<open>
  What the frame code relies on: converting to the network order and back is the identity,
  and a converted integer lies in memory most significant byte first.
\<close>

locale network_order =
  fixes ord :: byte_order
    and hton :: "'a::len word \<Rightarrow> 'a word"
    and ntoh :: "'a word \<Rightarrow> 'a word"
  assumes ntoh_hton: "ntoh (hton w) = w"
    and hton_ntoh: "hton (ntoh w) = w"
    and mem_hton: "mem_bytes ord (hton w) = rev (le_bytes w)"
    and whole_bytes: "8 dvd LENGTH('a)"
begin

lemma hton_eq_iff: "hton v = hton w \<longleftrightarrow> v = w"
  by (metis ntoh_hton)

text \<open>Bytes from the network, assembled least significant first, on a little endian machine.\<close>

lemma ntoh_le_word:
  assumes "ord = Little"
  shows "ntoh (le_word (rev (le_bytes w))) = w"
proof -
  have "le_word (rev (le_bytes w)) = (le_word (le_bytes (hton w)) :: 'a word)"
    using mem_hton [of w] assms by (simp add: mem_bytes_def)
  then show ?thesis using whole_bytes by (simp add: ntoh_hton)
qed

end

interpretation order16: network_order ord "hton16 ord" "ntoh16 ord"
  by unfold_locales
     (auto simp: hton16_def ntoh16_def mem_bytes_def le_bytes_swap16 split: byte_order.split)

interpretation order64: network_order ord "hton64 ord" "ntoh64 ord"
  by unfold_locales
     (auto simp: hton64_def ntoh64_def mem_bytes_def le_bytes_swap64 split: byte_order.split)

section \<open>The data frame\<close>

datatype operation_code =
    Continuation_frame | Text_frame | Binary_frame | Connection_close | Ping | Pong | Reserved

text \<open>The values of the enumerators, and \<^verbatim>\<open>lexical_cast<std::string>\<close> of one.\<close>

fun operation_code_value :: "operation_code \<Rightarrow> nat" where
  "operation_code_value Continuation_frame = 0"
| "operation_code_value Text_frame = 1"
| "operation_code_value Binary_frame = 2"
| "operation_code_value Connection_close = 3"
| "operation_code_value Ping = 4"
| "operation_code_value Pong = 5"
| "operation_code_value Reserved = 6"

fun operation_code_name :: "operation_code \<Rightarrow> string" where
  "operation_code_name Continuation_frame = ''continuation_frame''"
| "operation_code_name Text_frame = ''text_frame''"
| "operation_code_name Binary_frame = ''binary_frame''"
| "operation_code_name Connection_close = ''connection_close''"
| "operation_code_name Ping = ''ping''"
| "operation_code_name Pong = ''pong''"
| "operation_code_name arg = ''? '' @ dec_string (operation_code_value arg)"

text \<open>
  The \<^verbatim>\<open>int8_t\<close> members are 8 bit words; the code only ever uses their bits and, of
  \<^verbatim>\<open>payload_len_\<close>, the value below 128. The member \<^verbatim>\<open>mask_\<close> is \<open>masked\<close> here.
\<close>

record data_frame =
  fin :: bool
  opcode :: operation_code
  masked :: bool
  fin_opcode :: "8 word"
  mask_payload_len :: "8 word"
  payload_len :: "8 word"
  extended_payload_len16 :: "16 word"
  extended_payload_len64 :: "64 word"
  masking_key :: "8 word list"
  payload :: "8 word list"

text \<open>
  The constructors set every member but \<^verbatim>\<open>masking_key_\<close>: a \<^verbatim>\<open>boost::array\<close> of bytes
  is left with what the memory held. That content is the argument \<open>raw\<close>, four bytes.
\<close>

definition mk_data_frame :: "8 word list \<Rightarrow> string \<Rightarrow> data_frame" where
  "mk_data_frame raw str =
     \<lparr>fin = True, opcode = Text_frame, masked = False, fin_opcode = 0, mask_payload_len = 0,
      payload_len = 0, extended_payload_len16 = 0, extended_payload_len64 = 0,
      masking_key = raw, payload = map char_byte str\<rparr>"

section \<open>Serialising a frame\<close>

fun opcode_bits :: "operation_code \<Rightarrow> 8 word" where
  "opcode_bits Continuation_frame = 0x0"
| "opcode_bits Text_frame = 0x1"
| "opcode_bits Binary_frame = 0x2"
| "opcode_bits Connection_close = 0x8"
| "opcode_bits Ping = 0x9"
| "opcode_bits Pong = 0xA"
| "opcode_bits Reserved = 0xF"

text \<open>
  \<^verbatim>\<open>to_buffers\<close> changes the frame and returns buffers that point into it: here the changed
  frame and the bytes of each buffer.
\<close>

definition to_buffers :: "byte_order \<Rightarrow> data_frame \<Rightarrow> data_frame \<times> 8 word list list" where
  "to_buffers ord f =
     (let f = (if fin f then f\<lparr>fin_opcode := fin_opcode f OR 0x80\<rparr> else f);
          f = f\<lparr>fin_opcode := fin_opcode f OR opcode_bits (opcode f)\<rparr>;
          size = length (payload f)
      in if size < 126 then
           let f = f\<lparr>mask_payload_len := word_of_nat size\<rparr>
           in (f, [mem_bytes ord (fin_opcode f), mem_bytes ord (mask_payload_len f), payload f])
         else if size < 65537 then
           let f = f\<lparr>mask_payload_len := 126, extended_payload_len16 := word_of_nat size\<rparr>;
               f = f\<lparr>extended_payload_len16 := hton16 ord (extended_payload_len16 f)\<rparr>
           in (f, [mem_bytes ord (fin_opcode f), mem_bytes ord (mask_payload_len f),
                   mem_bytes ord (extended_payload_len16 f), payload f])
         else
           let f = f\<lparr>mask_payload_len := 127, extended_payload_len64 := word_of_nat size\<rparr>;
               f = f\<lparr>extended_payload_len64 := hton64 ord (extended_payload_len64 f)\<rparr>
           in (f, [mem_bytes ord (fin_opcode f), mem_bytes ord (mask_payload_len f),
                   mem_bytes ord (extended_payload_len64 f), payload f]))"

section \<open>The frames of RFC 6455\<close>

text \<open>
  The base framing of RFC 6455, section 5.2, as a specification: the first byte, the mask
  bit and the length in the shortest of its three forms, the masking key of a masked frame,
  and the payload, masked byte \<open>i\<close> with key byte \<open>i mod 4\<close> (section 5.3).
\<close>

fun mask_from :: "8 word list \<Rightarrow> nat \<Rightarrow> 8 word list \<Rightarrow> 8 word list" where
  "mask_from key i [] = []"
| "mask_from key i (x # xs) = (x XOR key ! (i mod 4)) # mask_from key (Suc i) xs"

text \<open>
  The opcodes of section 11.8, with a number of their own from the RFC and not from the code;
  the opcode the code calls reserved is the last of those section 5.2 keeps for further
  control frames.
\<close>

fun rfc_opcode :: "operation_code \<Rightarrow> nat" where
  "rfc_opcode Continuation_frame = 0"
| "rfc_opcode Text_frame = 1"
| "rfc_opcode Binary_frame = 2"
| "rfc_opcode Connection_close = 8"
| "rfc_opcode Ping = 9"
| "rfc_opcode Pong = 10"
| "rfc_opcode Reserved = 15"

definition rfc_first_byte :: "bool \<Rightarrow> operation_code \<Rightarrow> 8 word" where
  "rfc_first_byte a_fin op = word_of_nat ((if a_fin then 128 else 0) + rfc_opcode op)"

definition rfc_length :: "bool \<Rightarrow> nat \<Rightarrow> 8 word list" where
  "rfc_length a_mask n =
     (let m = (if a_mask then 128 else 0)
      in if n < 126 then [m + word_of_nat n]
         else if n < 2 ^ 16 then (m + 126) # rev (le_bytes (word_of_nat n :: 16 word))
         else (m + 127) # rev (le_bytes (word_of_nat n :: 64 word)))"

fun rfc_frame :: "bool \<Rightarrow> operation_code \<Rightarrow> 8 word list option \<Rightarrow> 8 word list \<Rightarrow> 8 word list" where
  "rfc_frame a_fin op None data =
     rfc_first_byte a_fin op # rfc_length False (length data) @ data"
| "rfc_frame a_fin op (Some key) data =
     rfc_first_byte a_fin op # rfc_length True (length data) @ key @ mask_from key 0 data"

lemma length_mask_from [simp]: "length (mask_from key i xs) = length xs"
  by (induction xs arbitrary: i) auto

lemma mask_from_mask_from [simp]: "mask_from key i (mask_from key i xs) = xs"
  by (induction xs arbitrary: i) (auto simp: xor.assoc)

lemma mask_from_append:
  "mask_from key i (xs @ ys) = mask_from key i xs @ mask_from key (i + length xs) ys"
  by (induction xs arbitrary: i) auto

lemma mask_from_zero [simp]: "mask_from [0, 0, 0, 0] i xs = xs"
proof (induction xs arbitrary: i)
  case (Cons x xs)
  have "i mod 4 \<in> {0, 1, 2, 3}" by auto
  then show ?case using Cons by auto
qed simp

lemma mem_bytes8 [simp]: "mem_bytes ord (w :: 8 word) = [w]"
  by (cases ord) (simp_all add: mem_bytes_def le_bytes_def)

lemma first_byte_bits: "(if a_fin then 0x80 else 0) OR opcode_bits op = rfc_first_byte a_fin op"
  by (cases op) (simp_all add: rfc_first_byte_def)

lemma to_buffers_twice: "snd (to_buffers ord (fst (to_buffers ord f))) = snd (to_buffers ord f)"
  by (auto simp: to_buffers_def Let_def ac_simps)

lemma to_buffers_rfc:
  "concat (snd (to_buffers ord ((mk_data_frame raw str)\<lparr>fin := a_fin, opcode := op\<rparr>))) =
     rfc_frame a_fin op None (map char_byte str) \<longleftrightarrow> length str \<noteq> 65536"
proof -
  have first: "(if a_fin then 0x80 else 0) OR opcode_bits op = rfc_first_byte a_fin op"
    by (rule first_byte_bits)
  consider "length str < 126" | "126 \<le> length str" "length str < 65536" | "length str = 65536"
    | "65536 < length str" by linarith
  then show ?thesis
    by cases (use first in \<open>auto simp: to_buffers_def mk_data_frame_def rfc_length_def Let_def
      order16.mem_hton order64.mem_hton le_bytes16 le_bytes64 split: if_splits\<close>)
qed

text \<open>
  C6. A frame the server builds from a string, with any opcode and any final bit, is sent in
  the base framing of RFC 6455, unmasked, whatever the byte order of the machine and the
  uninitialised key, with the opcode the RFC assigns, for every payload length except one: a payload of 65536 bytes takes the
  branch for 16 bit lengths, where its length wraps to 0.
\<close>

theorem to_buffers_is_rfc_frame:
  "concat (snd (to_buffers ord ((mk_data_frame raw str)\<lparr>fin := a_fin, opcode := op\<rparr>))) =
     rfc_frame a_fin op None (map char_byte str) \<longleftrightarrow> length str \<noteq> 65536"
  by (rule to_buffers_rfc)

end
