(* ===== verification/Ws_Frame_Parser.thy ===== *)
theory Ws_Frame_Parser
  imports Ws_Frame
begin

unbundle bit_operations_syntax

text \<open>
  \<^verbatim>\<open>rfc6455_engine::data_frame_parser\<close> of \<^verbatim>\<open>splice/web_socket/rfc6455_engine.hpp\<close>: the
  state machine that reads a data frame byte by byte, what it does on the frames of RFC 6455,
  masked and unmasked, and where it goes wrong.
\<close>

section \<open>The parser\<close>

text \<open>The enumeration \<^verbatim>\<open>state\<close>; a new parser is in \<open>Fin_opcode\<close>.\<close>

datatype frame_state =
    Fin_opcode | Mask_payload_len
  | Extended_payload_len1 | Extended_payload_len2 | Extended_payload_len3 | Extended_payload_len4
  | Extended_payload_len5 | Extended_payload_len6 | Extended_payload_len7 | Extended_payload_len8
  | Masking_key1 | Masking_key2 | Masking_key3 | Masking_key4
  | Payload

definition frame_parser_init :: frame_state where
  "frame_parser_init = Fin_opcode"

text \<open>
  \<^verbatim>\<open>get_bits(char b, offset, count)\<close>: the signed \<^verbatim>\<open>char\<close> is promoted to \<^verbatim>\<open>int\<close>,
  shifted arithmetically, masked, and cut to a byte.
\<close>

definition get_bits :: "8 word \<Rightarrow> nat \<Rightarrow> nat \<Rightarrow> 8 word" where
  "get_bits b offset count =
     ucast (signed_drop_bit offset (scast b :: 32 word) AND (push_bit count 1 - 1))"

definition opcode_of_bits :: "8 word \<Rightarrow> operation_code" where
  "opcode_of_bits b =
     (if b = 0 then Continuation_frame else if b = 0x1 then Text_frame
      else if b = 0x2 then Binary_frame else if b = 0x8 then Connection_close
      else if b = 0x9 then Ping else if b = 0xA then Pong else Reserved)"

text \<open>The state after the length: the masking key when there is one.\<close>

definition after_length :: "data_frame \<Rightarrow> frame_state" where
  "after_length f = (if masked f then Masking_key1 else Payload)"

text \<open>The states of the extended length, one byte each, least significant first.\<close>

definition or_len64 :: "nat \<Rightarrow> 8 word \<Rightarrow> data_frame \<Rightarrow> data_frame" where
  "or_len64 shift input f =
     f\<lparr>extended_payload_len64 := extended_payload_len64 f OR push_bit shift (ucast input)\<rparr>"

definition consume_len1 :: "data_frame \<Rightarrow> 8 word \<Rightarrow> (frame_state, data_frame) consumed" where
  "consume_len1 f input =
     (Indeterminate, Extended_payload_len2,
      if payload_len f = 126 then f\<lparr>extended_payload_len16 := ucast input\<rparr>
      else if payload_len f = 127 then f\<lparr>extended_payload_len64 := ucast input\<rparr>
      else f)"

definition consume_len2 ::
  "byte_order \<Rightarrow> data_frame \<Rightarrow> 8 word \<Rightarrow> (frame_state, data_frame) consumed" where
  "consume_len2 ord f input =
     (if payload_len f = 126 then
        let temp = push_bit 8 (ucast input) :: 16 word;
            f = f\<lparr>extended_payload_len16 := extended_payload_len16 f OR temp\<rparr>;
            f = f\<lparr>extended_payload_len16 := ntoh16 ord (extended_payload_len16 f)\<rparr>
        in (Indeterminate, after_length f, f)
      else if payload_len f = 127 then
        (Indeterminate, Extended_payload_len3, or_len64 8 input f)
      else (Indeterminate, Extended_payload_len2, f))"

definition consume_len8 ::
  "byte_order \<Rightarrow> data_frame \<Rightarrow> 8 word \<Rightarrow> (frame_state, data_frame) consumed" where
  "consume_len8 ord f input =
     (let f = or_len64 56 input f;
          f = f\<lparr>extended_payload_len64 := ntoh64 ord (extended_payload_len64 f)\<rparr>
      in (Indeterminate, after_length f, f))"

text \<open>
  The payload: unmask with the stored key, append, and compare with the length. The length of
  the vector is a \<^verbatim>\<open>size_t\<close>; the short length is widened to it from a signed byte.
\<close>

definition consume_payload :: "data_frame \<Rightarrow> 8 word \<Rightarrow> (frame_state, data_frame) consumed" where
  "consume_payload f input =
     (let mask_byte = masking_key f ! (length (payload f) mod 4);
          f = f\<lparr>payload := payload f @ [input XOR mask_byte]\<rparr>;
          complete =
            (if payload_len f = 127 then length (payload f) = unat (extended_payload_len64 f)
             else if payload_len f = 126 then length (payload f) = unat (extended_payload_len16 f)
             else length (payload f) = unat (scast (payload_len f) :: 64 word))
      in (if complete then TTrue else Indeterminate, Payload, f))"

fun consume :: "byte_order \<Rightarrow> frame_state \<Rightarrow> data_frame \<Rightarrow> 8 word \<Rightarrow> (frame_state, data_frame) consumed" where
  "consume ord Fin_opcode f input =
     (Indeterminate, Mask_payload_len,
      f\<lparr>fin := get_bits input 7 1 = 1, opcode := opcode_of_bits (get_bits input 0 4)\<rparr>)"
| "consume ord Mask_payload_len f input =
     (let f = f\<lparr>masked := get_bits input 7 1 = 1, payload_len := get_bits input 0 7\<rparr>
      in if payload_len f = 0 then (TTrue, Mask_payload_len, f)
         else if payload_len f = 126 \<or> payload_len f = 127 then
           (Indeterminate, Extended_payload_len1, f)
         else (Indeterminate, after_length f, f))"
| "consume ord Extended_payload_len1 f input = consume_len1 f input"
| "consume ord Extended_payload_len2 f input = consume_len2 ord f input"
| "consume ord Extended_payload_len3 f input = (Indeterminate, Extended_payload_len4, or_len64 16 input f)"
| "consume ord Extended_payload_len4 f input = (Indeterminate, Extended_payload_len5, or_len64 24 input f)"
| "consume ord Extended_payload_len5 f input = (Indeterminate, Extended_payload_len6, or_len64 32 input f)"
| "consume ord Extended_payload_len6 f input = (Indeterminate, Extended_payload_len7, or_len64 40 input f)"
| "consume ord Extended_payload_len7 f input = (Indeterminate, Extended_payload_len8, or_len64 48 input f)"
| "consume ord Extended_payload_len8 f input = consume_len8 ord f input"
| "consume ord Masking_key1 f input = (Indeterminate, Masking_key2, f\<lparr>masking_key := (masking_key f)[0 := input]\<rparr>)"
| "consume ord Masking_key2 f input = (Indeterminate, Masking_key3, f\<lparr>masking_key := (masking_key f)[1 := input]\<rparr>)"
| "consume ord Masking_key3 f input = (Indeterminate, Masking_key4, f\<lparr>masking_key := (masking_key f)[2 := input]\<rparr>)"
| "consume ord Masking_key4 f input = (Indeterminate, Payload, f\<lparr>masking_key := (masking_key f)[3 := input]\<rparr>)"
| "consume ord Payload f input = consume_payload f input"

fun parse :: "byte_order \<Rightarrow> frame_state \<Rightarrow> data_frame \<Rightarrow> 8 word list \<Rightarrow> (frame_state, data_frame, 8 word) parsed" where
  "parse ord st f [] = (Indeterminate, st, f, [])"
| "parse ord st f (b # bs) =
     (case consume ord st f b of (result, st', f') \<Rightarrow>
        if determinate result then (result, st', f', bs) else parse ord st' f' bs)"

lemmas consume_defs = consume_len1_def consume_len2_def consume_len8_def consume_payload_def
  or_len64_def after_length_def

text \<open>
  What the parser keeps: the key has its four bytes, the short length has its seven bits, and
  the states of the extended length are entered with the marks 126 and 127 only.
\<close>

definition frame_inv :: "frame_state \<Rightarrow> data_frame \<Rightarrow> bool" where
  "frame_inv st f \<longleftrightarrow>
     length (masking_key f) = 4 \<and> payload_len f < 128 \<and>
     (st \<in> {Extended_payload_len1, Extended_payload_len2} \<longrightarrow> payload_len f \<in> {126, 127}) \<and>
     (st \<in> {Extended_payload_len3, Extended_payload_len4, Extended_payload_len5,
            Extended_payload_len6, Extended_payload_len7, Extended_payload_len8} \<longrightarrow>
        payload_len f = 127)"

text \<open>What \<^verbatim>\<open>get_bits\<close> computes on the two ways it is called.\<close>

lemma bit_signed_drop_scast:
  "bit (signed_drop_bit k (scast (b :: 8 word) :: 32 word)) n \<longleftrightarrow>
     n < 32 \<and> bit b (if k + n < 8 then k + n else 7)"
proof (cases "k + n = 7")
  case False
  then show ?thesis by (auto simp: bit_signed_drop_bit_iff bit_simps min_def)
qed (auto simp: bit_signed_drop_bit_iff bit_simps min_def)

lemma get_bits_top: "get_bits b 7 (Suc 0) = drop_bit 7 b"
proof (rule bit_word_eqI)
  fix n assume "n < LENGTH(8)"
  then show "bit (get_bits b 7 (Suc 0)) n = bit (drop_bit 7 b) n"
    by (cases n) (auto simp: get_bits_def bit_simps bit_signed_drop_scast
      dest: bit_imp_le_length)
qed

lemma get_bits_low: "k \<le> 7 \<Longrightarrow> get_bits b 0 k = take_bit k b"
proof (rule bit_word_eqI)
  fix n assume "k \<le> 7" "n < LENGTH(8)"
  have "push_bit k 1 - 1 = (mask k :: 32 word)" by (simp add: mask_eq_exp_minus_1 push_bit_of_1)
  then show "bit (get_bits b 0 k) n = bit (take_bit k b) n"
    using \<open>k \<le> 7\<close> \<open>n < LENGTH(8)\<close>
    by (auto simp: get_bits_def bit_simps bit_signed_drop_scast simp del: mask_eq_exp_minus_1)
qed

lemma get_bits_7_less: "get_bits b 0 7 < 128"
proof -
  have "take_bit 7 (unat b) < 2 ^ 7" by (rule take_bit_nat_less_exp)
  then show ?thesis by (simp add: get_bits_low word_less_nat_alt unsigned_take_bit_eq)
qed

interpretation frame_parser: incremental_parser "consume ord" "parse ord" frame_inv
proof unfold_locales
  fix st f x st' f' and res
  assume "frame_inv st f" "consume ord st f x = (res, st', f')"
  then show "frame_inv st' f'"
    by (cases st)
       (auto simp: frame_inv_def consume_defs Let_def get_bits_7_less split: if_splits)
qed simp_all

section \<open>Reading the header\<close>

text \<open>What the first two bytes of a frame give.\<close>

lemma first_byte_fin: "(get_bits (rfc_first_byte a_fin op) 7 1 = 1) = a_fin"
  by (cases op; cases a_fin) (simp_all add: get_bits_top rfc_first_byte_def)

lemma first_byte_opcode: "opcode_of_bits (get_bits (rfc_first_byte a_fin op) 0 4) = op"
  by (cases op; cases a_fin)
     (simp_all add: get_bits_low rfc_first_byte_def opcode_of_bits_def)

lemma consume_first [parse_steps]:
  "consume ord Fin_opcode f (rfc_first_byte a_fin op) =
     (Indeterminate, Mask_payload_len, f\<lparr>fin := a_fin, opcode := op\<rparr>)"
  using first_byte_fin [of a_fin op] by (simp add: first_byte_opcode)

lemma mask_bit_plus:
  fixes n :: "8 word"
  assumes "n < 128"
  shows "get_bits (128 + n) 7 1 = 1" "get_bits n 7 1 = 0"
    and "get_bits (128 + n) 0 7 = n" "get_bits n 0 7 = n"
proof -
  have n: "unat n < 128" using assms by (simp add: word_less_nat_alt)
  have s: "unat (128 + n) = 128 + unat n" using n by (simp add: unat_word_ariths)
  show "get_bits (128 + n) 7 1 = 1" "get_bits n 7 1 = 0"
    using n by (auto simp: get_bits_top word_unat_eq_iff unsigned_drop_bit_eq s drop_bit_eq_div unat_div)
  show "get_bits (128 + n) 0 7 = n" "get_bits n 0 7 = n"
    using n by (auto simp: get_bits_low word_unat_eq_iff unsigned_take_bit_eq s take_bit_eq_mod unat_mod)
qed

text \<open>The second byte: the mask bit and the short length.\<close>

lemma consume_second [parse_steps]:
  assumes "n < 128"
  shows "consume ord Mask_payload_len f ((if a_mask then 128 else 0) + n) =
     (let f = f\<lparr>masked := a_mask, payload_len := n\<rparr>
      in if n = 0 then (TTrue, Mask_payload_len, f)
         else if n = 126 \<or> n = 127 then (Indeterminate, Extended_payload_len1, f)
         else (Indeterminate, if a_mask then Masking_key1 else Payload, f))"
  using mask_bit_plus [OF assms] by (cases a_mask) (simp_all add: after_length_def Let_def)

text \<open>
  The extended lengths. The parser puts the bytes together least significant first and then
  converts, which on a little endian machine reads the number the network bytes stand for.
\<close>

definition ext16 :: "byte_order \<Rightarrow> 8 word list \<Rightarrow> 16 word" where
  "ext16 ord bs = ntoh16 ord (le_word bs)"

definition ext64 :: "byte_order \<Rightarrow> 8 word list \<Rightarrow> 64 word" where
  "ext64 ord bs = ntoh64 ord (le_word bs)"

lemma parse_len16 [parse_steps]:
  assumes "payload_len f = 126"
  shows "parse ord Extended_payload_len1 f (b0 # b1 # bs) =
     parse ord (after_length f) (f\<lparr>extended_payload_len16 := ext16 ord [b0, b1]\<rparr>) bs"
  using assms by (simp add: consume_defs Let_def ext16_def)

lemma parse_len64 [parse_steps]:
  assumes "payload_len f = 127"
  shows "parse ord Extended_payload_len1 f (b0 # b1 # b2 # b3 # b4 # b5 # b6 # b7 # bs) =
     parse ord (after_length f)
       (f\<lparr>extended_payload_len64 := ext64 ord [b0, b1, b2, b3, b4, b5, b6, b7]\<rparr>) bs"
  using assms by (simp add: consume_defs Let_def ext64_def push_bit_or or.assoc)

lemma ext16_network [simp]:
  "n < 2 ^ 16 \<Longrightarrow> unat (ext16 Little (rev (le_bytes (word_of_nat n :: 16 word)))) = n"
  by (simp add: ext16_def order16.ntoh_le_word unsigned_of_nat take_bit_nat_eq_self)

lemma ext64_network [simp]:
  "n < 2 ^ 64 \<Longrightarrow> unat (ext64 Little (rev (le_bytes (word_of_nat n :: 64 word)))) = n"
  by (simp add: ext64_def order64.ntoh_le_word unsigned_of_nat take_bit_nat_eq_self)

section \<open>Reading the key and the payload\<close>

lemma parse_key [parse_steps]:
  assumes "length (masking_key f) = 4" "length key = 4"
  shows "parse ord Masking_key1 f (key @ bs) = parse ord Payload (f\<lparr>masking_key := key\<rparr>) bs"
proof -
  obtain a b c d where "masking_key f = [a, b, c, d]"
    using assms(1) by (auto simp: numeral_eq_Suc length_Suc_conv)
  moreover obtain k0 k1 k2 k3 where "key = [k0, k1, k2, k3]"
    using assms(2) by (auto simp: numeral_eq_Suc length_Suc_conv)
  ultimately show ?thesis by simp
qed

text \<open>The length the parser waits for.\<close>

definition expected_length :: "data_frame \<Rightarrow> nat" where
  "expected_length f =
     (if payload_len f = 127 then unat (extended_payload_len64 f)
      else if payload_len f = 126 then unat (extended_payload_len16 f)
      else unat (scast (payload_len f) :: 64 word))"

lemma expected_length_payload [simp]: "expected_length (f\<lparr>payload := p\<rparr>) = expected_length f"
  by (simp add: expected_length_def)

lemma expected_length_key [simp]: "expected_length (f\<lparr>masking_key := k\<rparr>) = expected_length f"
  by (simp add: expected_length_def)

lemma consume_payload_eq:
  "consume_payload f b =
     (let f' = f\<lparr>payload := payload f @ mask_from (masking_key f) (length (payload f)) [b]\<rparr>
      in (if Suc (length (payload f)) = expected_length f then TTrue else Indeterminate,
          Payload, f'))"
  by (simp add: consume_payload_def expected_length_def Let_def)

lemma parse_payload_partial:
  "length (payload f) + length xs < expected_length f \<Longrightarrow>
     parse ord Payload f xs =
       (Indeterminate, Payload,
        f\<lparr>payload := payload f @ mask_from (masking_key f) (length (payload f)) xs\<rparr>, [])"
proof (induction xs arbitrary: f)
  case (Cons x xs)
  let ?f = "f\<lparr>payload := payload f @ mask_from (masking_key f) (length (payload f)) [x]\<rparr>"
  have "consume ord Payload f x = (Indeterminate, Payload, ?f)"
    using Cons.prems by (simp add: consume_payload_eq)
  then have "parse ord Payload f (x # xs) = parse ord Payload ?f xs"
    by (rule frame_parser.parse_step)
  also have "\<dots> = (Indeterminate, Payload,
      ?f\<lparr>payload := payload ?f @ mask_from (masking_key ?f) (length (payload ?f)) xs\<rparr>, [])"
    using Cons.prems by (intro Cons.IH) simp
  finally show ?case by simp
qed simp

lemma parse_payload_complete [parse_steps]:
  assumes "length (payload f) + length xs = expected_length f" "xs \<noteq> []"
  shows "parse ord Payload f (xs @ ys) =
       (TTrue, Payload,
        f\<lparr>payload := payload f @ mask_from (masking_key f) (length (payload f)) xs\<rparr>, ys)"
proof -
  obtain zs z where xs: "xs = zs @ [z]" using assms(2) by (cases xs rule: rev_cases) auto
  have p: "parse ord Payload f zs =
       (Indeterminate, Payload,
        f\<lparr>payload := payload f @ mask_from (masking_key f) (length (payload f)) zs\<rparr>, [])"
    using parse_payload_partial [of f zs ord] assms(1) xs by simp
  show ?thesis
    using frame_parser.parse_append_indeterminate [OF p, of "z # ys"] assms(1) xs
    by (simp add: consume_payload_eq Let_def mask_from_append)
qed

text \<open>A length that the payload has already reached is never reached again.\<close>

lemma parse_payload_never:
  "expected_length f \<le> length (payload f) \<Longrightarrow> fst (parse ord Payload f xs) = Indeterminate"
proof (induction xs arbitrary: f)
  case (Cons x xs)
  let ?f = "f\<lparr>payload := payload f @ mask_from (masking_key f) (length (payload f)) [x]\<rparr>"
  have "consume ord Payload f x = (Indeterminate, Payload, ?f)"
    using Cons.prems by (simp add: consume_payload_eq)
  then have "parse ord Payload f (x # xs) = parse ord Payload ?f xs"
    by (rule frame_parser.parse_step)
  with Cons show ?case by simp
qed simp

section \<open>Reading a frame of RFC 6455\<close>

declare parse.simps [simp del] consume.simps [simp del]

text \<open>The frame after its header: first byte, mask bit and length.\<close>

definition header_read :: "data_frame \<Rightarrow> bool \<Rightarrow> operation_code \<Rightarrow> bool \<Rightarrow> nat \<Rightarrow> data_frame \<Rightarrow> bool" where
  "header_read f a_fin op a_mask n f' \<longleftrightarrow>
     fin f' = a_fin \<and> opcode f' = op \<and> masked f' = a_mask \<and> expected_length f' = n \<and>
     masking_key f' = masking_key f \<and> payload f' = payload f"

lemma short_length:
  assumes "n < 126"
  shows "unat (word_of_nat n :: 8 word) = n"
    and "unat (scast (word_of_nat n :: 8 word) :: 64 word) = n"
proof -
  have "sint (word_of_nat n :: 8 word) = int n"
    using assms by (simp add: signed_of_nat signed_take_bit_int_eq_self)
  then have "(scast (word_of_nat n :: 8 word) :: 64 word) = word_of_nat n"
    unfolding scast_eq by (simp only: of_int_of_nat_eq)
  then show "unat (scast (word_of_nat n :: 8 word) :: 64 word) = n"
    using assms by (simp add: unsigned_of_nat take_bit_nat_eq_self)
  show "unat (word_of_nat n :: 8 word) = n"
    using assms by (simp add: unsigned_of_nat take_bit_nat_eq_self)
qed

lemma rfc_length_cases:
  "n < 126 \<Longrightarrow> rfc_length a_mask n = [(if a_mask then 128 else 0) + word_of_nat n]"
  "\<lbrakk>126 \<le> n; n < 2 ^ 16\<rbrakk> \<Longrightarrow> rfc_length a_mask n =
     ((if a_mask then 128 else 0) + 126) # rev (le_bytes (word_of_nat n :: 16 word))"
  "2 ^ 16 \<le> n \<Longrightarrow> rfc_length a_mask n =
     ((if a_mask then 128 else 0) + 127) # rev (le_bytes (word_of_nat n :: 64 word))"
proof -
  show "n < 126 \<Longrightarrow> rfc_length a_mask n = [(if a_mask then 128 else 0) + word_of_nat n]"
    unfolding rfc_length_def Let_def by (simp only: if_True)
next
  assume n: "126 \<le> n" "n < 2 ^ 16"
  then have "\<not> n < 126" by linarith
  with n(2) show "rfc_length a_mask n =
     ((if a_mask then 128 else 0) + 126) # rev (le_bytes (word_of_nat n :: 16 word))"
    unfolding rfc_length_def Let_def by (simp only: if_True if_False)
next
  assume "2 ^ 16 \<le> n"
  then have "\<not> n < 126" "\<not> n < 2 ^ 16" by simp_all
  then show "rfc_length a_mask n =
     ((if a_mask then 128 else 0) + 127) # rev (le_bytes (word_of_nat n :: 64 word))"
    unfolding rfc_length_def Let_def by (simp only: if_False)
qed

lemma parse_two_bytes:
  assumes "k < 128" "k \<noteq> 0"
  shows "parse ord Fin_opcode f (rfc_first_byte a_fin op # ((if a_mask then 128 else 0) + k) # bs) =
     parse ord (if k = 126 \<or> k = 127 then Extended_payload_len1
                else if a_mask then Masking_key1 else Payload)
       (f\<lparr>fin := a_fin, opcode := op, masked := a_mask, payload_len := k\<rparr>) bs"
proof -
  let ?f = "f\<lparr>fin := a_fin, opcode := op\<rparr>"
  have "parse ord Mask_payload_len ?f (((if a_mask then 128 else 0) + k) # bs) =
      parse ord (if k = 126 \<or> k = 127 then Extended_payload_len1
                 else if a_mask then Masking_key1 else Payload)
        (?f\<lparr>masked := a_mask, payload_len := k\<rparr>) bs"
    by (rule frame_parser.parse_step)
       (use assms consume_second [of k ord ?f a_mask] in \<open>simp add: Let_def\<close>)
  then show ?thesis by (simp add: frame_parser.parse_step [OF consume_first])
qed

lemma parse_frame_header:
  assumes "0 < n" "n < 2 ^ 64"
  shows "\<exists>f'. header_read f a_fin op a_mask n f' \<and>
     parse Little Fin_opcode f (rfc_first_byte a_fin op # rfc_length a_mask n @ bs) =
     parse Little (if a_mask then Masking_key1 else Payload) f' bs"
proof -
  let ?f = "\<lambda>k. f\<lparr>fin := a_fin, opcode := op, masked := a_mask, payload_len := k\<rparr>"
  consider (short) "n < 126" | (len16) "126 \<le> n" "n < 2 ^ 16" | (len64) "2 ^ 16 \<le> n"
    by linarith
  then show ?thesis
  proof cases
    case short
    let ?k = "word_of_nat n :: 8 word"
    have k: "?k < 128" "?k \<noteq> 0" "?k \<noteq> 126" "?k \<noteq> 127"
      using short assms(1) short_length(1) [OF short]
      by (auto simp: word_less_nat_alt word_unat_eq_iff)
    show ?thesis
      using parse_two_bytes [OF k(1,2), of Little f a_fin op a_mask bs] k(3,4)
        short_length(2) [OF short]
      by (intro exI [of _ "?f ?k"])
         (simp add: rfc_length_cases(1) [OF short] header_read_def expected_length_def)
  next
    case len16
    let ?bs = "rev (le_bytes (word_of_nat n :: 16 word))"
    obtain b0 b1 where bs: "?bs = [b0, b1]" by (simp add: le_bytes16)
    have "parse Little Fin_opcode f (rfc_first_byte a_fin op # rfc_length a_mask n @ bs) =
        parse Little (after_length (?f 126)) ((?f 126)\<lparr>extended_payload_len16 := ext16 Little ?bs\<rparr>) bs"
      by (simp add: rfc_length_cases(2) [OF len16] parse_two_bytes bs parse_len16)
    then show ?thesis
      using ext16_network [OF len16(2)]
      by (intro exI [of _ "(?f 126)\<lparr>extended_payload_len16 := ext16 Little ?bs\<rparr>"])
         (simp add: header_read_def expected_length_def after_length_def)
  next
    case len64
    let ?bs = "rev (le_bytes (word_of_nat n :: 64 word))"
    obtain b0 b1 b2 b3 b4 b5 b6 b7 where bs: "?bs = [b0, b1, b2, b3, b4, b5, b6, b7]"
      by (simp add: le_bytes64)
    have "parse Little Fin_opcode f (rfc_first_byte a_fin op # rfc_length a_mask n @ bs) =
        parse Little (after_length (?f 127)) ((?f 127)\<lparr>extended_payload_len64 := ext64 Little ?bs\<rparr>) bs"
      by (simp add: rfc_length_cases(3) [OF len64] parse_two_bytes bs parse_len64)
    then show ?thesis
      using ext64_network [OF assms(2)]
      by (intro exI [of _ "(?f 127)\<lparr>extended_payload_len64 := ext64 Little ?bs\<rparr>"])
         (simp add: header_read_def expected_length_def after_length_def)
  qed
qed

text \<open>The frame a whole RFC frame is read to, and that it stops exactly at the frame's end.\<close>

definition frame_read ::
  "bool \<Rightarrow> operation_code \<Rightarrow> 8 word list \<Rightarrow> 8 word list \<Rightarrow> (frame_state, data_frame, 8 word) parsed \<Rightarrow> bool" where
  "frame_read a_fin op data later r \<longleftrightarrow>
     (case r of (res, st, f, rest) \<Rightarrow>
        res = TTrue \<and> rest = later \<and> fin f = a_fin \<and> opcode f = op \<and> payload f = data)"

lemma parse_rfc_frame_masked:
  assumes "length (masking_key f) = 4" "payload f = []" "length key = 4"
    and "data \<noteq> []" "length data < 2 ^ 64"
  shows "frame_read a_fin op data later
     (parse Little Fin_opcode f (rfc_frame a_fin op (Some key) data @ later))"
proof -
  have "0 < length data" using assms(4) by simp
  from parse_frame_header [OF this assms(5), of f a_fin op True "key @ mask_from key 0 data @ later"]
  obtain f' where f': "header_read f a_fin op True (length data) f'"
    and p: "parse Little Fin_opcode f (rfc_frame a_fin op (Some key) data @ later) =
      parse Little Masking_key1 f' (key @ mask_from key 0 data @ later)"
    by auto
  have "parse Little Masking_key1 f' (key @ mask_from key 0 data @ later) =
      (TTrue, Payload, f'\<lparr>masking_key := key, payload := data\<rparr>, later)"
    using parse_key [of f' key Little "mask_from key 0 data @ later"] f' assms
      parse_payload_complete [of "f'\<lparr>masking_key := key\<rparr>" "mask_from key 0 data" Little later]
    by (simp add: header_read_def flip: length_greater_0_conv)
  with p f' show ?thesis by (simp add: frame_read_def header_read_def)
qed

lemma parse_rfc_frame_unmasked:
  assumes "payload f = []" "data \<noteq> []" "length data < 2 ^ 64"
  shows "frame_read a_fin op (mask_from (masking_key f) 0 data) later
     (parse Little Fin_opcode f (rfc_frame a_fin op None data @ later))"
proof -
  have "0 < length data" using assms(2) by simp
  from parse_frame_header [OF this assms(3), of f a_fin op False "data @ later"]
  obtain f' where f': "header_read f a_fin op False (length data) f'"
    and p: "parse Little Fin_opcode f (rfc_frame a_fin op None data @ later) =
      parse Little Payload f' (data @ later)"
    by auto
  then show ?thesis
    using parse_payload_complete [of f' data Little later] assms
    by (simp add: header_read_def frame_read_def)
qed

lemma consume_no_length:
  "parse ord Fin_opcode f (rfc_first_byte a_fin op # rfc_length a_mask 0 @ bs) =
     (TTrue, Mask_payload_len,
      f\<lparr>fin := a_fin, opcode := op, masked := a_mask, payload_len := 0\<rparr>, bs)"
proof -
  let ?f = "f\<lparr>fin := a_fin, opcode := op\<rparr>"
  have "consume ord Mask_payload_len ?f ((if a_mask then 128 else 0) + 0) =
      (TTrue, Mask_payload_len, ?f\<lparr>masked := a_mask, payload_len := 0\<rparr>)"
    by (subst consume_second) simp_all
  from frame_parser.parse_stop [OF this] show ?thesis
    by (simp add: rfc_length_def frame_parser.parse_step [OF consume_first])
qed

section \<open>Properties\<close>

text \<open>
  C2. On a little endian machine the parser decodes every masked frame of RFC 6455, the
  frames clients send: any opcode, final bit and masking key, a payload of any length from 1
  in each of the three length forms. It delivers the unmasked payload and stops exactly at
  the end of the frame, whatever the uninitialised key held and whatever follows.
\<close>

theorem masked_frame_decoded:
  assumes "length raw = 4" "length key = 4" "data \<noteq> []" "length data < 2 ^ 64"
  shows "case parse Little frame_parser_init (mk_data_frame raw [])
                (rfc_frame a_fin op (Some key) data @ later) of
           (res, st, f, rest) \<Rightarrow>
             res = TTrue \<and> rest = later \<and> fin f = a_fin \<and> opcode f = op \<and> payload f = data"
  using parse_rfc_frame_masked [of "mk_data_frame raw []" key data a_fin op later] assms
  by (simp add: frame_read_def frame_parser_init_def mk_data_frame_def)

theorem masked_frame_decoded_witness:
  "payload (fst (snd (snd (parse Little frame_parser_init (mk_data_frame [9, 9, 9, 9] [])
     (rfc_frame True Text_frame (Some [1, 2, 3, 4]) [72, 105] @ [7]))))) = [72, 105]"
  using masked_frame_decoded [where raw = "[9, 9, 9, 9]" and key = "[1, 2, 3, 4]"
      and data = "[72, 105]" and a_fin = True and op = Text_frame and later = "[7]"]
  by (simp split: prod.splits)

text \<open>
  What the server sends its own parser reads back: a frame built from a string by
  \<^verbatim>\<open>to_buffers\<close>, of any length from 1 except 65536, comes back with its opcode, final bit
  and characters, provided the key memory of the receiving frame happens to be zero.
\<close>

lemma server_frame_roundtrip:
  assumes "str \<noteq> []" "length str < 2 ^ 64" "length str \<noteq> 65536"
  shows "case parse Little frame_parser_init (mk_data_frame [0, 0, 0, 0] [])
                (concat (snd (to_buffers Little
                   ((mk_data_frame raw str)\<lparr>fin := a_fin, opcode := op\<rparr>))) @ later) of
           (res, st, f, rest) \<Rightarrow>
             res = TTrue \<and> rest = later \<and> fin f = a_fin \<and> opcode f = op \<and>
             map byte_char (payload f) = str"
proof -
  have "concat (snd (to_buffers Little ((mk_data_frame raw str)\<lparr>fin := a_fin, opcode := op\<rparr>))) =
      rfc_frame a_fin op None (map char_byte str)"
    using to_buffers_rfc assms(3) by blast
  then show ?thesis
    using parse_rfc_frame_unmasked [of "mk_data_frame [0, 0, 0, 0] []" "map char_byte str" a_fin op later]
      assms(1,2)
    by (auto simp: frame_read_def frame_parser_init_def mk_data_frame_def)
qed

text \<open>
  The frame of 65536 bytes, which \<^verbatim>\<open>to_buffers\<close> sends with a 16 bit length of 0,
  never completes in the library's own parser: it takes that frame and any input that comes
  after it for payload and stays undecided.
\<close>

lemma frame_65536_never_complete:
  assumes "length str = 65536"
  shows "fst (parse Little frame_parser_init (mk_data_frame [0, 0, 0, 0] [])
           (concat (snd (to_buffers Little (mk_data_frame raw str))) @ later)) = Indeterminate"
proof -
  let ?f = "(mk_data_frame [0, 0, 0, 0] [])\<lparr>fin := True, opcode := Text_frame, masked := False,
    payload_len := 126\<rparr>"
  have size: "length (map char_byte str) = 65536" using assms by simp
  have bytes: "concat (snd (to_buffers Little (mk_data_frame raw str))) =
      rfc_first_byte True Text_frame # 126 # 0 # 0 # map char_byte str"
    using assms order16.mem_hton [of Little 65536]
    by (simp add: to_buffers_def mk_data_frame_def Let_def rfc_first_byte_def le_bytes16)
  have two: "parse Little Fin_opcode (mk_data_frame [0, 0, 0, 0] [])
      (rfc_first_byte True Text_frame # 126 # bs) = parse Little Extended_payload_len1 ?f bs" for bs
    using parse_two_bytes [of 126 Little "mk_data_frame [0, 0, 0, 0] []" True Text_frame False bs]
    by simp
  have "ext16 Little [0, 0] = 0" by (simp add: ext16_def ntoh16_def swap16_def)
  then have "parse Little frame_parser_init (mk_data_frame [0, 0, 0, 0] [])
      (concat (snd (to_buffers Little (mk_data_frame raw str))) @ later) =
      parse Little Payload (?f\<lparr>extended_payload_len16 := 0\<rparr>) (map char_byte str @ later)"
    by (simp add: bytes frame_parser_init_def two parse_len16 after_length_def)
  then show ?thesis
    by (simp add: parse_payload_never expected_length_def)
qed

lemma mask_from_id_iff:
  "mask_from key i xs = xs \<longleftrightarrow> (\<forall>j<length xs. key ! ((i + j) mod 4) = 0)"
proof (induction xs arbitrary: i)
  case (Cons x xs)
  have "x XOR k = x \<longleftrightarrow> k = 0" for k :: "8 word"
  proof
    assume "x XOR k = x"
    then have "x XOR (x XOR k) = x XOR x" by simp
    then show "k = 0" by (simp flip: xor.assoc)
  qed simp
  moreover have "(\<forall>j<Suc n. P j) \<longleftrightarrow> P 0 \<and> (\<forall>j<n. P (Suc j))" for n and P :: "nat \<Rightarrow> bool"
    using less_Suc_eq_0_disj by auto
  ultimately show ?case using Cons by simp
qed simp

text \<open>
  The parser accepts an unmasked frame, which RFC 6455 forbids clients to send, and
  decodes it with the masking key nobody set: the payload it delivers is right exactly when
  the uninitialised key bytes it uses happen to be zero.
\<close>

lemma unmasked_frame_garbled:
  assumes "data \<noteq> []" "length data < 2 ^ 64"
  shows "case parse Little frame_parser_init (mk_data_frame raw [])
                (rfc_frame a_fin op None data @ later) of
           (res, st, f, rest) \<Rightarrow>
             res = TTrue \<and> rest = later \<and> opcode f = op \<and>
             (payload f = data \<longleftrightarrow> (\<forall>i<length data. raw ! (i mod 4) = 0))"
  using parse_rfc_frame_unmasked [of "mk_data_frame raw []" data a_fin op later] assms
    mask_from_id_iff [of raw 0 data]
  by (auto simp: frame_read_def frame_parser_init_def mk_data_frame_def)

text \<open>
  On a big endian machine a frame with a 16 bit length is misread: the parser stores the
  first length byte lowest and its conversion does nothing there, so it waits for the number
  with the two bytes swapped. A frame of 126 bytes stays undecided.
\<close>

lemma big_endian_length_misread:
  assumes "length data = 126" "length key = 4" "length raw = 4"
  shows "fst (parse Big frame_parser_init (mk_data_frame raw [])
           (rfc_frame a_fin op (Some key) data)) = Indeterminate"
proof -
  let ?f = "(mk_data_frame raw [])\<lparr>fin := a_fin, opcode := op, masked := True, payload_len := 126\<rparr>"
  let ?f' = "?f\<lparr>extended_payload_len16 := ext16 Big [0, 126]\<rparr>"
  have len: "rfc_length True 126 = [254, 0, 126]" by (simp add: rfc_length_def le_bytes16)
  have two: "parse Big Fin_opcode (mk_data_frame raw []) (rfc_first_byte a_fin op # 254 # bs) =
      parse Big Extended_payload_len1 ?f bs" for bs
    using parse_two_bytes [of 126 Big "mk_data_frame raw []" a_fin op True bs] by simp
  have swapped: "unat (ext16 Big [0, 126]) = 32256" by (simp add: ext16_def ntoh16_def)
  have "parse Big frame_parser_init (mk_data_frame raw []) (rfc_frame a_fin op (Some key) data) =
      parse Big Masking_key1 ?f' (key @ mask_from key 0 data)"
    by (simp add: frame_parser_init_def assms(1) len two parse_len16 after_length_def)
  also have "\<dots> = parse Big Payload (?f'\<lparr>masking_key := key\<rparr>) (mask_from key 0 data)"
    using assms by (simp add: parse_key mk_data_frame_def)
  finally show ?thesis
    using parse_payload_partial [of "?f'\<lparr>masking_key := key\<rparr>" "mask_from key 0 data" Big]
    by (simp add: mk_data_frame_def expected_length_def assms(1) swapped)
qed

end
