(* ===== verification/Ws_Handshake.thy ===== *)
theory Ws_Handshake
  imports Tcp_Session Ws_Http Ws_Frame_Parser
begin

text \<open>
  \<^verbatim>\<open>splice/web_socket/ws_handshake.hxx\<close>: how a connection becomes a WebSocket. In a mono
  protocol server the upgrade request is answered and the session starts; in a multi protocol
  server a first frame with a GUID follows, which tells the WebSocket protocols apart, and a
  connection that does not fit goes to the next protocol.

  A handler returns \<open>None\<close> where an assertion of the source fails or a copy runs over the
  end of its buffer; \<open>no_handler_fails\<close> shows that this never happens. The digest
  \<open>sha1\<close> and the Base64 iterators \<open>b64\<close> are third party code. The arguments \<open>mem\<close> and
  \<open>raw\<close> are the uninitialised version numbers of the request and key of the frame.
\<close>

section \<open>The handlers\<close>

datatype ws_handler =
    On_mono_first_read
  | On_multi_first_read
  | On_mono_second_read ws_reply
  | On_multi_second_read ws_reply
  | On_guid_read frame_state
  | On_read_dataframe frame_state
  | On_write_dataframe data_frame

type_synonym sha1_digest = "string \<Rightarrow> 32 word list"
type_synonym base64_iterators = "8 word list \<Rightarrow> nat \<Rightarrow> string"

text \<open>\<^verbatim>\<open>on_bad_request\<close> logs and shuts the session down.\<close>

definition on_bad_request :: "error_code \<times> error_code \<Rightarrow> 'a tcp_session_scheme \<Rightarrow> ('h, 'a tcp_session_scheme) step" where
  "on_bad_request os s = shutdown os s"

text \<open>Parsing the upgrade request: a new parser and a new request, as in both \<^verbatim>\<open>first_write\<close>.\<close>

definition parse_upgrade :: "32 word \<times> 32 word \<Rightarrow> string \<Rightarrow> tribool \<times> request" where
  "parse_upgrade mem incoming =
     (case rfc_parse rfc_parser_init (mk_request (fst mem) (snd mem)) incoming of
        (result, _, hs_req, _) \<Rightarrow> (result, hs_req))"

subsection \<open>Mono protocol server\<close>

definition mono_first_write ::
  "sha1_digest \<Rightarrow> base64_iterators \<Rightarrow> 32 word \<times> 32 word \<Rightarrow> error_code \<times> error_code \<Rightarrow> string
     \<Rightarrow> 'a tcp_session_scheme \<Rightarrow> (ws_handler, 'a tcp_session_scheme) step option" where
  "mono_first_write sha1 b64 mem os incoming s =
     (case parse_upgrade mem incoming of (result, hs_req) \<Rightarrow>
        if result = TTrue then
          let reply = ws_handle_request sha1 b64 hs_req
          in (case ws_status reply of
                Switching_protocols \<Rightarrow>
                  map_option (\<lambda>bufs. (s, [Async_write (concat bufs) (On_mono_second_read reply)]))
                    (ws_to_buffers reply)
              | _ \<Rightarrow> Some (on_error os s))
        else Some (on_error os s))"

definition mono_first_read ::
  "sha1_digest \<Rightarrow> base64_iterators \<Rightarrow> 32 word \<times> 32 word \<Rightarrow> error_code \<times> error_code \<Rightarrow> error_code \<Rightarrow> string
     \<Rightarrow> 'a tcp_session_scheme \<Rightarrow> (ws_handler, 'a tcp_session_scheme) step option" where
  "mono_first_read sha1 b64 mem os ec incoming s =
     (if ec \<noteq> No_error then Some (on_error_code os ec s)
      else mono_first_write sha1 b64 mem os incoming s)"

definition mono_second_read ::
  "error_code \<times> error_code \<Rightarrow> ws_reply \<Rightarrow> error_code \<Rightarrow> 'a tcp_session_scheme
     \<Rightarrow> (ws_handler, 'a tcp_session_scheme) step" where
  "mono_second_read os reply ec s =
     (if ec \<noteq> No_error then on_error_code os ec s
      else (case ws_status reply of
              Switching_protocols \<Rightarrow> (s, [On_handshake_success])
            | _ \<Rightarrow> on_bad_request os s))"

subsection \<open>Multi protocol server\<close>

definition multi_first_write ::
  "sha1_digest \<Rightarrow> base64_iterators \<Rightarrow> 32 word \<times> 32 word \<Rightarrow> hand_shake_data
     \<Rightarrow> 'a tcp_session_scheme \<Rightarrow> (ws_handler, 'a tcp_session_scheme) step option" where
  "multi_first_write sha1 b64 mem incoming s =
     (case parse_upgrade mem (hs_bytes incoming) of (result, hs_req) \<Rightarrow>
        if result = TTrue then
          let reply = ws_handle_request sha1 b64 hs_req
          in (case ws_status reply of
                Switching_protocols \<Rightarrow>
                  map_option (\<lambda>bufs. (s, [Async_write (concat bufs) (On_multi_second_read reply)]))
                    (ws_to_buffers reply)
              | _ \<Rightarrow> Some (s, [Handshake_fail incoming]))
        else Some (s, [Handshake_fail incoming]))"

definition multi_first_read ::
  "sha1_digest \<Rightarrow> base64_iterators \<Rightarrow> 32 word \<times> 32 word \<Rightarrow> error_code \<times> error_code \<Rightarrow> error_code \<Rightarrow> string
     \<Rightarrow> 'a tcp_session_scheme \<Rightarrow> (ws_handler, 'a tcp_session_scheme) step option" where
  "multi_first_read sha1 b64 mem os ec incoming s =
     (if ec \<noteq> No_error then Some (on_error_code os ec s)
      else if str_find ''Sec-WebSocket-Key:'' incoming = None then
        Some (s, [Handshake_fail \<lparr>tag = Http, hs_bytes = incoming\<rparr>])
      else multi_first_write sha1 b64 mem \<lparr>tag = None_tag, hs_bytes = incoming\<rparr> s)"

definition guid_read :: "'a tcp_session_scheme \<Rightarrow> (ws_handler, 'a tcp_session_scheme) step" where
  "guid_read s = (s, [Async_read_some (On_guid_read frame_parser_init)])"

definition multi_second_read ::
  "error_code \<times> error_code \<Rightarrow> ws_reply \<Rightarrow> error_code \<Rightarrow> 'a tcp_session_scheme
     \<Rightarrow> (ws_handler, 'a tcp_session_scheme) step" where
  "multi_second_read os reply ec s =
     (if ec \<noteq> No_error then on_error_code os ec s
      else (case ws_status reply of
              Switching_protocols \<Rightarrow> guid_read s
            | _ \<Rightarrow> on_bad_request os s))"

text \<open>The assertion \<^verbatim>\<open>in.tag_==hand_shake_t::ws_guid\<close>, then the derived class decides.\<close>

definition do_custom_handshake ::
  "(hand_shake_data \<Rightarrow> bool) \<Rightarrow> hand_shake_data \<Rightarrow> 'a tcp_session_scheme
     \<Rightarrow> (ws_handler, 'a tcp_session_scheme) step option" where
  "do_custom_handshake accepts incoming s =
     (if tag incoming \<noteq> Ws_guid then None
      else if \<not> accepts incoming then Some (s, [Handshake_fail incoming])
      else Some (s, [On_handshake_success]))"

text \<open>
  \<^verbatim>\<open>on_guid_read\<close>: a complete text frame is copied into a buffer of 8192 bytes and handed
  on. An incomplete frame installs no further read: that code is commented out.
\<close>

definition on_guid_read ::
  "byte_order \<Rightarrow> 8 word list \<Rightarrow> (hand_shake_data \<Rightarrow> bool) \<Rightarrow> error_code \<times> error_code \<Rightarrow> frame_state
     \<Rightarrow> error_code \<Rightarrow> string \<Rightarrow> 'a tcp_session_scheme \<Rightarrow> (ws_handler, 'a tcp_session_scheme) step option" where
  "on_guid_read ord raw accepts os frame_parser ec incoming s =
     (if ec \<noteq> No_error then Some (on_error_code os ec s)
      else (case Ws_Frame_Parser.parse ord frame_parser (mk_data_frame raw []) (map char_byte incoming) of
              (result, _, read_frame, _) \<Rightarrow>
        (case result of
           TFalse \<Rightarrow> Some (on_error os s)
         | Indeterminate \<Rightarrow> Some (s, [])
         | TTrue \<Rightarrow>
             (if opcode read_frame = Text_frame then
                if length (payload read_frame) > buffer_size then None
                else do_custom_handshake accepts
                  \<lparr>tag = Ws_guid, hs_bytes = map byte_char (payload read_frame)\<rparr> s
              else Some (on_error os s)))))"

definition ws_handshake ::
  "sha1_digest \<Rightarrow> base64_iterators \<Rightarrow> 32 word \<times> 32 word \<Rightarrow> (hand_shake_data \<Rightarrow> bool) \<Rightarrow> hand_shake_data
     \<Rightarrow> 'a tcp_session_scheme \<Rightarrow> (ws_handler, 'a tcp_session_scheme) step option" where
  "ws_handshake sha1 b64 mem accepts incoming s =
     (case tag incoming of
        Http \<Rightarrow> multi_first_write sha1 b64 mem incoming s
      | Ws_guid \<Rightarrow> do_custom_handshake accepts incoming s
      | _ \<Rightarrow> Some (s, [Handshake_fail incoming]))"

lemmas ws_handshake_defs [handler_defs] =
  on_bad_request_def mono_first_write_def mono_first_read_def mono_second_read_def
  multi_first_write_def multi_first_read_def guid_read_def multi_second_read_def
  do_custom_handshake_def on_guid_read_def ws_handshake_def

section \<open>The answer to the upgrade\<close>

text \<open>Only the 101 answer is sent, and it has headers.\<close>

lemma ws_handle_request_buffers:
  "ws_status (ws_handle_request sha1 b64 req) = Switching_protocols \<Longrightarrow>
     \<exists>bufs. ws_to_buffers (ws_handle_request sha1 b64 req) = Some bufs"
  by (auto simp: ws_handle_request_eq ws_to_buffers_def split: option.splits)

lemma ws_handle_request_status:
  "ws_status (ws_handle_request sha1 b64 req) =
     (if \<exists>h\<in>set (req_headers req). hname h = ''Sec-WebSocket-Key'' then Switching_protocols
      else Ws_bad_request)"
  by (auto simp: ws_handle_request_eq find_None_iff find_Some_iff split: option.splits)

lemma mono_first_read_not_None: "mono_first_read sha1 b64 mem os ec incoming s \<noteq> None"
  using ws_handle_request_buffers
  by (fastforce simp: mono_first_read_def mono_first_write_def Let_def
      split: prod.splits ws_status.splits)

text \<open>The payload of a frame is no longer than the bytes it was read from.\<close>

lemma payload_consume_length:
  "consume ord st f b = (res, st', f') \<Longrightarrow> length (payload f') \<le> Suc (length (payload f))"
  by (cases st)
     (auto simp: Ws_Frame_Parser.consume.simps consume_defs Let_def split: if_splits)

lemma payload_parse_length:
  "Ws_Frame_Parser.parse ord st f bs = (res, st', f', rest) \<Longrightarrow>
     length (payload f') \<le> length (payload f) + length bs"
proof (induction bs arbitrary: st f)
  case (Cons b bs)
  obtain res1 st1 f1 where c: "Ws_Frame_Parser.consume ord st f b = (res1, st1, f1)"
    by (cases "Ws_Frame_Parser.consume ord st f b")
  note len = payload_consume_length [OF c]
  show ?case
  proof (cases "determinate res1")
    case True
    then show ?thesis using Cons.prems c len by (simp add: Ws_Frame_Parser.parse.simps)
  next
    case False
    then have "length (payload f') \<le> length (payload f1) + length bs"
      using Cons c by (simp add: Ws_Frame_Parser.parse.simps)
    with len show ?thesis by simp
  qed
qed (simp add: Ws_Frame_Parser.parse.simps)

section \<open>The parser on upgrade requests\<close>

lemma parse_upgrade_whole:
  "wf_request r \<Longrightarrow> parse_upgrade mem (print_request r) = (TTrue, r)"
  using parse_print_request [of r "fst mem" "snd mem" "[]"]
  by (simp add: parse_upgrade_def rfc_parse_eq rfc_parser_init_def parser_init_def)

lemma parse_upgrade_prefix:
  assumes "wf_request r" "print_request r = p @ q" "q \<noteq> []"
  shows "fst (parse_upgrade mem p) = Indeterminate"
proof -
  have "Http_Parser.parse parser_init (mk_request (fst mem) (snd mem)) (p @ q) =
      (TTrue, Expecting_newline_3, r, [])"
    using parse_print_request [OF assms(1), of "fst mem" "snd mem" "[]"] assms(2) by simp
  from http_parser.parse_proper_prefix [OF this] assms(3) show ?thesis
    by (auto simp: parse_upgrade_def rfc_parse_eq rfc_parser_init_def parser_init_def)
qed

text \<open>A header is printed with its name and a colon, so the text search finds it.\<close>

lemma header_text_found:
  assumes "h \<in> set (req_headers r)" "hname h = ''Sec-WebSocket-Key''"
  shows "str_find ''Sec-WebSocket-Key:'' (print_request r) \<noteq> None"
proof -
  obtain hs1 hs2 where hs: "req_headers r = hs1 @ h # hs2"
    using assms(1) by (meson split_list)
  have "\<exists>a b. print_request r = a @ ''Sec-WebSocket-Key:'' @ b"
    unfolding print_request_def hs using assms(2)
    by (intro exI [of _ "req_method r @ '' '' @ req_uri r @ '' HTTP/'' @
          version_text (http_version_major r) @ ''.'' @
          version_text (http_version_minor r) @ crlf @ concat (map print_header hs1)"]
        exI [of _ "'' '' @ hvalue h @ crlf @ concat (map print_header hs2) @ crlf"])
       (simp add: print_header_def)
  then show ?thesis by (simp add: str_find_None_iff)
qed

section \<open>Properties\<close>

text \<open>
  No handler of the handshake can fail: the assertions on the reply and on the tag hold,
  and the copy of the GUID stays inside its buffer, for any bytes a client sends, any parser
  state and any key memory, as long as a read fills no more than its buffer.
\<close>

lemma multi_first_write_not_None: "multi_first_write sha1 b64 mem d s \<noteq> None"
  using ws_handle_request_buffers
  by (fastforce simp: multi_first_write_def Let_def split: prod.splits ws_status.splits)

lemma on_guid_read_not_None:
  assumes "ec = No_error \<longrightarrow> length incoming \<le> buffer_size"
  shows "on_guid_read ord raw accepts os frame_parser ec incoming s \<noteq> None"
  using assms payload_parse_length [of ord frame_parser "mk_data_frame raw []" "map char_byte incoming"]
  by (auto simp: on_guid_read_def do_custom_handshake_def mk_data_frame_def
      split: prod.splits tribool.splits)

lemma no_handler_fails:
  assumes "length incoming \<le> buffer_size"
  shows "mono_first_read sha1 b64 mem os ec incoming s \<noteq> None \<and>
    multi_first_read sha1 b64 mem os ec incoming s \<noteq> None \<and>
    on_guid_read ord raw accepts os frame_parser ec incoming s \<noteq> None \<and>
    ws_handshake sha1 b64 mem accepts hs s \<noteq> None"
proof (intro conjI)
  show "mono_first_read sha1 b64 mem os ec incoming s \<noteq> None" by (rule mono_first_read_not_None)
  show "multi_first_read sha1 b64 mem os ec incoming s \<noteq> None"
    by (simp add: multi_first_read_def multi_first_write_not_None del: not_None_eq)
  show "ws_handshake sha1 b64 mem accepts hs s \<noteq> None"
    by (simp add: ws_handshake_def do_custom_handshake_def multi_first_write_not_None del: not_None_eq split: hand_shake_t.splits)
  show "on_guid_read ord raw accepts os frame_parser ec incoming s \<noteq> None"
    by (rule on_guid_read_not_None) (use assms in simp)
qed

text \<open>The three handlers of the handshake, on what a correct client sends.\<close>

lemma upgrade_answered:
  assumes "wf_request r" "h \<in> set (req_headers r)" "hname h = ''Sec-WebSocket-Key''"
  shows "multi_first_read sha1 b64 mem os No_error (print_request r) s =
     Some (s, [Async_write (concat (the (ws_to_buffers (ws_handle_request sha1 b64 r))))
       (On_multi_second_read (ws_handle_request sha1 b64 r))])"
proof -
  let ?reply = "ws_handle_request sha1 b64 r"
  have status: "ws_status ?reply = Switching_protocols"
    using assms(2,3) by (auto simp: ws_handle_request_status)
  with ws_handle_request_buffers [of sha1 b64 r] obtain bufs where "ws_to_buffers ?reply = Some bufs" by auto
  then show ?thesis
    using header_text_found [OF assms(2,3)] status parse_upgrade_whole [OF assms(1), of mem]
    by (simp add: multi_first_read_def multi_first_write_def Let_def)
qed

lemma guid_awaited:
  assumes "h \<in> set (req_headers r)" "hname h = ''Sec-WebSocket-Key''"
  shows "multi_second_read os (ws_handle_request sha1 b64 r) No_error s =
     (s, [Async_read_some (On_guid_read frame_parser_init)])"
  using assms by (auto simp: multi_second_read_def guid_read_def ws_handle_request_status)

lemma guid_frame_read:
  assumes "length raw = 4" "length key = 4" "guid \<noteq> []" "length guid \<le> buffer_size"
  shows "on_guid_read Little raw accepts os frame_parser_init No_error
      (map byte_char (rfc_frame True Text_frame (Some key) (map char_byte guid))) s =
    Some (s, [if accepts \<lparr>tag = Ws_guid, hs_bytes = guid\<rparr> then On_handshake_success
              else Handshake_fail \<lparr>tag = Ws_guid, hs_bytes = guid\<rparr>])"
proof -
  have "length (map char_byte guid) < 2 ^ 64" using assms(4) by (simp add: buffer_size_def)
  with assms(1-3) have "frame_read True Text_frame (map char_byte guid) []
      (Ws_Frame_Parser.parse Little Fin_opcode (mk_data_frame raw [])
        (rfc_frame True Text_frame (Some key) (map char_byte guid) @ []))"
    by (intro parse_rfc_frame_masked) (simp_all add: mk_data_frame_def)
  then show ?thesis
    using assms(4)
    by (auto simp: on_guid_read_def frame_read_def frame_parser_init_def do_custom_handshake_def
        comp_def simp del: rfc_frame.simps split: prod.splits)
qed

text \<open>
  C7. The handshake of a multi protocol server, from the first read to the decision: a
  well-formed request with a \<^verbatim>\<open>Sec-WebSocket-Key\<close> header, read in one piece, is answered
  with the 101 reply; when that is written a frame is awaited; and a masked text frame with a
  GUID ends the handshake in favour of this session exactly when the derived class accepts
  the GUID, the next protocol getting it otherwise.
\<close>

theorem upgrade_and_guid:
  assumes "wf_request r" "h \<in> set (req_headers r)" "hname h = ''Sec-WebSocket-Key''"
    and "length raw = 4" "length key = 4" "guid \<noteq> []" "length guid \<le> buffer_size"
  shows "multi_first_read sha1 b64 mem os No_error (print_request r) s =
           Some (s, [Async_write (concat (the (ws_to_buffers (ws_handle_request sha1 b64 r)))) (On_multi_second_read (ws_handle_request sha1 b64 r))]) \<and>
         multi_second_read os (ws_handle_request sha1 b64 r) No_error s =
           (s, [Async_read_some (On_guid_read frame_parser_init)]) \<and>
         on_guid_read Little raw accepts os frame_parser_init No_error
           (map byte_char (rfc_frame True Text_frame (Some key) (map char_byte guid))) s =
           Some (s, [if accepts \<lparr>tag = Ws_guid, hs_bytes = guid\<rparr> then On_handshake_success
                     else Handshake_fail \<lparr>tag = Ws_guid, hs_bytes = guid\<rparr>])"
  by (intro conjI upgrade_answered [OF assms(1-3)] guid_awaited [OF assms(2,3)] guid_frame_read [OF assms(4-7)])

theorem upgrade_and_guid_witness:
  "on_guid_read Little [7, 7, 7, 7] (\<lambda>d. hs_bytes d = ''ws'') (No_error, No_error)
     frame_parser_init No_error
     (map byte_char (rfc_frame True Text_frame (Some [1, 2, 3, 4]) (map char_byte ''ws'')))
     \<lparr>is_open = True\<rparr> = Some (\<lparr>is_open = True\<rparr>, [On_handshake_success])"
proof -
  have "\<lparr>hname = ''Sec-WebSocket-Key'', hvalue = ''x''\<rparr> \<in> set (req_headers upgrade_request)"
    by (simp add: upgrade_request_def)
  from upgrade_and_guid [OF wf_upgrade_request this, where s = "\<lparr>is_open = True\<rparr>"
      and raw = "[7, 7, 7, 7]" and key = "[1, 2, 3, 4]" and guid = "''ws''"
      and accepts = "\<lambda>d. hs_bytes d = ''ws''"]
  show ?thesis by (simp add: buffer_size_def del: rfc_frame.simps)
qed

text \<open>
  An upgrade request that the network cuts in two is lost: on the first piece, however
  long, the mono protocol server reports an error, which shuts the session down, and the
  multi protocol server hands the connection to the next protocol.
\<close>

lemma split_upgrade_refused:
  assumes "wf_request r" "print_request r = p @ q" "q \<noteq> []"
  shows "mono_first_read sha1 b64 mem os No_error p s = Some (on_error os s) \<and>
    multi_first_read sha1 b64 mem os No_error p s =
      Some (s, [Handshake_fail
        \<lparr>tag = if str_find ''Sec-WebSocket-Key:'' p = None then Http else None_tag, hs_bytes = p\<rparr>])"
proof (intro conjI)
  have u: "fst (parse_upgrade mem p) \<noteq> TTrue" using parse_upgrade_prefix [OF assms] by simp
  show "mono_first_read sha1 b64 mem os No_error p s = Some (on_error os s)"
    using u by (auto simp: mono_first_read_def mono_first_write_def split: prod.splits)
  show "multi_first_read sha1 b64 mem os No_error p s =
      Some (s, [Handshake_fail
        \<lparr>tag = if str_find ''Sec-WebSocket-Key:'' p = None then Http else None_tag, hs_bytes = p\<rparr>])"
    using u by (auto simp: multi_first_read_def multi_first_write_def split: prod.splits)
qed

text \<open>
  A GUID frame that arrives in two pieces ends the session without any report: after the
  first piece no further read is installed, no error is raised and no other protocol is
  tried.
\<close>

lemma split_guid_frame_dropped:
  assumes "length raw = 4" "length key = 4" "data \<noteq> []" "length data < 2 ^ 64"
    and "rfc_frame a_fin op (Some key) data = p @ q" "q \<noteq> []"
  shows "on_guid_read Little raw accepts os frame_parser_init No_error (map byte_char p) s =
           Some (s, [])"
proof -
  have "frame_read a_fin op data []
      (Ws_Frame_Parser.parse Little Fin_opcode (mk_data_frame raw [])
        (rfc_frame a_fin op (Some key) data @ []))"
    using assms(1-4) by (intro parse_rfc_frame_masked) (simp_all add: mk_data_frame_def)
  then obtain st f where "Ws_Frame_Parser.parse Little Fin_opcode (mk_data_frame raw []) (p @ q) =
      (TTrue, st, f, [])"
    by (auto simp: frame_read_def assms(5) simp del: rfc_frame.simps split: prod.splits)
  from frame_parser.parse_proper_prefix [OF this] assms(6)
  obtain st1 f1 where "Ws_Frame_Parser.parse Little Fin_opcode (mk_data_frame raw []) p =
      (Indeterminate, st1, f1, [])" by auto
  then show ?thesis by (simp add: on_guid_read_def frame_parser_init_def comp_def)
qed

end
