(* ===== verification/Ws_Session.thy ===== *)
theory Ws_Session
  imports Ws_Handshake
begin

text \<open>
  \<^verbatim>\<open>splice/web_socket/ws_session.hxx\<close>: an established WebSocket connection, which reads
  data frames and hands text messages to the derived class (the effect \<open>On_read\<close>) and sends
  strings as frames. Then a connection as a sequence of reads, and what it delivers: every
  text frame that fills its own read, and nothing after a frame that is cut in two.
\<close>

section \<open>The handlers\<close>

text \<open>Every read that waits for a new frame gets a new parser.\<close>

definition read_next_frame :: "(ws_handler) effect" where
  "read_next_frame = Async_read_some (On_read_dataframe frame_parser_init)"

definition ws_on_handshake_success :: "'a tcp_session_scheme \<Rightarrow> (ws_handler, 'a tcp_session_scheme) step" where
  "ws_on_handshake_success s = (s, [read_next_frame])"

definition ws_async_write ::
  "byte_order \<Rightarrow> 8 word list \<Rightarrow> string \<Rightarrow> 'a tcp_session_scheme \<Rightarrow> (ws_handler, 'a tcp_session_scheme) step" where
  "ws_async_write ord raw msg s =
     (case Ws_Frame.to_buffers ord (mk_data_frame raw msg) of (df, buffers) \<Rightarrow>
        (s, [Async_write (map byte_char (concat buffers)) (On_write_dataframe df)]))"

definition on_read_data_frame ::
  "error_code \<times> error_code \<Rightarrow> data_frame \<Rightarrow> 'a tcp_session_scheme \<Rightarrow> (ws_handler, 'a tcp_session_scheme) step" where
  "on_read_data_frame os read_frame s =
     (case opcode read_frame of
        Text_frame \<Rightarrow> (s, [On_read (map byte_char (payload read_frame)), read_next_frame])
      | Pong \<Rightarrow> (s, [read_next_frame])
      | Ping \<Rightarrow> (s, [read_next_frame])
      | _ \<Rightarrow> on_error os s)"

text \<open>
  \<^verbatim>\<open>on_read_dataframe\<close>: the frame is a local variable, while the parser goes on to the next
  read; the place in the buffer where the parser stopped is ignored.
\<close>

definition on_read_dataframe ::
  "byte_order \<Rightarrow> 8 word list \<Rightarrow> error_code \<times> error_code \<Rightarrow> frame_state \<Rightarrow> error_code \<Rightarrow> string
     \<Rightarrow> 'a tcp_session_scheme \<Rightarrow> (ws_handler, 'a tcp_session_scheme) step" where
  "on_read_dataframe ord raw os frame_parser ec incoming s =
     (if ec \<noteq> No_error then on_error_code os ec s
      else (case Ws_Frame_Parser.parse ord frame_parser (mk_data_frame raw []) (map char_byte incoming) of
              (result, frame_parser', read_frame, _) \<Rightarrow>
        (case result of
           TFalse \<Rightarrow> on_error os s
         | Indeterminate \<Rightarrow> (s, [Async_read_some (On_read_dataframe frame_parser')])
         | TTrue \<Rightarrow> on_read_data_frame os read_frame s)))"

definition on_write_dataframe ::
  "error_code \<times> error_code \<Rightarrow> error_code \<Rightarrow> 'a tcp_session_scheme \<Rightarrow> (ws_handler, 'a tcp_session_scheme) step" where
  "on_write_dataframe os ec s = (if ec \<noteq> No_error then on_error os s else (s, []))"

lemmas ws_session_defs [handler_defs] =
  read_next_frame_def ws_on_handshake_success_def ws_async_write_def on_read_data_frame_def
  on_read_dataframe_def on_write_dataframe_def

text \<open>What a string becomes on the wire, and the frame object its handler keeps.\<close>

abbreviation text_frame :: "string \<Rightarrow> string" where
  "text_frame msg \<equiv> map byte_char (rfc_frame True Text_frame None (map char_byte msg))"

abbreviation sent_frame :: "byte_order \<Rightarrow> 8 word list \<Rightarrow> string \<Rightarrow> data_frame" where
  "sent_frame ord raw msg \<equiv> fst (Ws_Frame.to_buffers ord (mk_data_frame raw msg))"

lemma ws_async_write_text:
  assumes "length msg \<noteq> 65536"
  shows "ws_async_write ord raw msg s =
     (s, [Async_write (text_frame msg) (On_write_dataframe (sent_frame ord raw msg))])"
proof -
  have "(mk_data_frame raw msg)\<lparr>fin := True, opcode := Text_frame\<rparr> = mk_data_frame raw msg"
    by (simp add: mk_data_frame_def)
  then have "concat (snd (Ws_Frame.to_buffers ord (mk_data_frame raw msg))) =
      rfc_frame True Text_frame None (map char_byte msg)"
    using to_buffers_rfc [where ord = ord and raw = raw and str = msg and a_fin = True and op = Text_frame] assms by simp
  then show ?thesis
    by (simp add: ws_async_write_def case_prod_beta del: rfc_frame.simps)
qed

section \<open>A connection as a sequence of reads\<close>

text \<open>
  Asio runs the read handler the session installed last. Each read brings some bytes of the
  client and its own uninitialised key memory; a session that installs no read gets no more.
\<close>

fun next_read :: "ws_handler effect list \<Rightarrow> frame_state option" where
  "next_read [] = None"
| "next_read [Async_read_some (On_read_dataframe st)] = Some st"
| "next_read (e # es) = next_read es"

fun ws_reads ::
  "byte_order \<Rightarrow> error_code \<times> error_code \<Rightarrow> frame_state \<Rightarrow> (8 word list \<times> string) list
     \<Rightarrow> 'a tcp_session_scheme \<Rightarrow> (ws_handler, 'a tcp_session_scheme) step" where
  "ws_reads ord os st [] s = (s, [])"
| "ws_reads ord os st ((raw, incoming) # rest) s =
     (case on_read_dataframe ord raw os st No_error incoming s of (s', es) \<Rightarrow>
        (case next_read es of
           None \<Rightarrow> (s', es)
         | Some st' \<Rightarrow> after_step (s', es) (ws_reads ord os st' rest)))"

fun delivered :: "'h effect list \<Rightarrow> string list" where
  "delivered [] = []"
| "delivered (On_read msg # es) = msg # delivered es"
| "delivered (e # es) = delivered es"

lemma delivered_append [simp]: "delivered (es @ es') = delivered es @ delivered es'"
  by (induction es rule: delivered.induct) auto

section \<open>Whole frames\<close>

text \<open>A text message as a client sends it, with what happens to follow in the same read.\<close>

record client_message =
  cm_raw :: "8 word list"
  cm_fin :: bool
  cm_key :: "8 word list"
  cm_text :: string
  cm_later :: string

definition ok_message :: "client_message \<Rightarrow> bool" where
  "ok_message m \<longleftrightarrow>
     length (cm_raw m) = 4 \<and> length (cm_key m) = 4 \<and> length (cm_text m) < 2 ^ 64"

definition message_read :: "client_message \<Rightarrow> 8 word list \<times> string" where
  "message_read m =
     (cm_raw m,
      map byte_char (rfc_frame (cm_fin m) Text_frame (Some (cm_key m)) (map char_byte (cm_text m)))
      @ cm_later m)"

lemma char_byte_comp [simp]: "char_byte \<circ> byte_char = id"
  by (simp add: fun_eq_iff)

lemma on_read_whole_frame:
  assumes "length raw = 4" "length key = 4" "length data < 2 ^ 64"
  shows "\<exists>f. opcode f = op \<and> payload f = data \<and>
     on_read_dataframe Little raw os frame_parser_init No_error
       (map byte_char (rfc_frame a_fin op (Some key) data) @ later) s = on_read_data_frame os f s"
proof (cases "data = []")
  case True
  then show ?thesis
    using consume_no_length [of Little "mk_data_frame raw []" a_fin op True "key @ map char_byte later"]
    by (intro exI [of _ "(mk_data_frame raw [])\<lparr>fin := a_fin, opcode := op, masked := True,
          payload_len := 0\<rparr>"])
       (simp add: on_read_dataframe_def frame_parser_init_def mk_data_frame_def)
next
  case False
  then have "frame_read a_fin op data (map char_byte later)
      (Ws_Frame_Parser.parse Little Fin_opcode (mk_data_frame raw [])
        (rfc_frame a_fin op (Some key) data @ map char_byte later))"
    using assms by (intro parse_rfc_frame_masked) (simp_all add: mk_data_frame_def)
  then show ?thesis
    by (auto simp: frame_read_def on_read_dataframe_def frame_parser_init_def
        simp del: rfc_frame.simps split: prod.splits)
qed

lemma on_read_message:
  assumes "ok_message m"
  shows "on_read_dataframe Little (cm_raw m) os frame_parser_init No_error (snd (message_read m)) s =
           (s, [On_read (cm_text m), read_next_frame])"
proof -
  have "length (cm_raw m) = 4" "length (cm_key m) = 4"
    "length (map char_byte (cm_text m)) < 2 ^ 64"
    using assms by (simp_all add: ok_message_def)
  from on_read_whole_frame [OF this, of Text_frame os "cm_fin m" "cm_later m" s] show ?thesis
    by (auto simp: on_read_data_frame_def message_read_def)
qed

section \<open>A frame cut in two\<close>

text \<open>
  The parser after at least two bytes of a frame, and a new frame with no length: such a
  parser never finishes, whatever it reads and however the input goes on to be cut.
\<close>

definition past_length :: "frame_state \<Rightarrow> bool" where
  "past_length st \<longleftrightarrow> st \<noteq> Fin_opcode \<and> st \<noteq> Mask_payload_len"

lemma consume_past_length:
  "\<lbrakk>Ws_Frame_Parser.consume ord st f b = (res, st', f'); past_length st\<rbrakk> \<Longrightarrow> past_length st'"
  by (cases st)
     (auto simp: past_length_def Ws_Frame_Parser.consume.simps consume_defs Let_def split: if_splits)

lemma consume_no_length_stuck:
  "\<lbrakk>Ws_Frame_Parser.consume ord st f b = (res, st', f'); past_length st; payload_len f = 0\<rbrakk>
    \<Longrightarrow> res = Indeterminate \<and> payload_len f' = 0"
  by (cases st)
     (auto simp: past_length_def Ws_Frame_Parser.consume.simps consume_defs Let_def split: if_splits)

lemma parse_no_length_stuck:
  "\<lbrakk>past_length st; payload_len f = 0\<rbrakk> \<Longrightarrow>
     \<exists>st' f'. Ws_Frame_Parser.parse ord st f bs = (Indeterminate, st', f', []) \<and> past_length st'"
proof (induction bs arbitrary: st f)
  case (Cons b bs)
  obtain res st1 f1 where c: "Ws_Frame_Parser.consume ord st f b = (res, st1, f1)"
    by (cases "Ws_Frame_Parser.consume ord st f b")
  from consume_past_length [OF c Cons.prems(1)] consume_no_length_stuck [OF c Cons.prems]
  show ?case using Cons.IH c by (simp add: Ws_Frame_Parser.parse.simps)
qed (simp add: Ws_Frame_Parser.parse.simps)

lemma parse_past_length:
  "\<lbrakk>Ws_Frame_Parser.parse ord st f bs = (res, st', f', rest); past_length st\<rbrakk> \<Longrightarrow> past_length st'"
proof (induction bs arbitrary: st f)
  case (Cons b bs)
  obtain res1 st1 f1 where c: "Ws_Frame_Parser.consume ord st f b = (res1, st1, f1)"
    by (cases "Ws_Frame_Parser.consume ord st f b")
  with consume_past_length [OF c Cons.prems(2)] Cons show ?case
    by (auto simp: Ws_Frame_Parser.parse.simps split: if_splits)
qed (simp add: Ws_Frame_Parser.parse.simps)

lemma ws_reads_stuck:
  "past_length st \<Longrightarrow>
     \<exists>es. ws_reads ord os st reads s = (s, es) \<and> delivered es = [] \<and>
       (\<forall>e\<in>set es. \<exists>st'. e = Async_read_some (On_read_dataframe st'))"
proof (induction reads arbitrary: st)
  case (Cons r reads)
  obtain raw incoming where r: "r = (raw, incoming)" by (cases r)
  have "payload_len (mk_data_frame raw []) = 0" by (simp add: mk_data_frame_def)
  from parse_no_length_stuck [OF Cons.prems this, of ord "map char_byte incoming"]
  obtain st' where step: "on_read_dataframe ord raw os st No_error incoming s =
      (s, [Async_read_some (On_read_dataframe st')])" and "past_length st'"
    by (auto simp: on_read_dataframe_def)
  from Cons.IH [OF \<open>past_length st'\<close>] show ?case
    by (auto simp: r step after_step_def)
qed simp

lemma parse_two_bytes_past_length:
  assumes "Ws_Frame_Parser.parse ord Fin_opcode f (b0 # b1 # bs) = (Indeterminate, st, f', rest)"
  shows "past_length st"
proof -
  obtain f1 where "Ws_Frame_Parser.consume ord Fin_opcode f b0 = (Indeterminate, Mask_payload_len, f1)"
    by (simp add: Ws_Frame_Parser.consume.simps)
  from frame_parser.parse_step [OF this]
  have p: "Ws_Frame_Parser.parse ord Mask_payload_len f1 (b1 # bs) = (Indeterminate, st, f', rest)"
    using assms by simp
  obtain res st2 f2 where c: "Ws_Frame_Parser.consume ord Mask_payload_len f1 b1 = (res, st2, f2)"
    by (cases "Ws_Frame_Parser.consume ord Mask_payload_len f1 b1")
  with p have "res = Indeterminate" "Ws_Frame_Parser.parse ord st2 f2 bs = (Indeterminate, st, f', rest)"
    by (cases res; simp add: Ws_Frame_Parser.parse.simps)+
  moreover have "past_length st2" if "res = Indeterminate"
    using c that by (auto simp: past_length_def Ws_Frame_Parser.consume.simps Let_def after_length_def
        split: if_splits)
  ultimately show ?thesis using parse_past_length by blast
qed

section \<open>Properties\<close>

text \<open>
  C8. Messages that each arrive in a read of their own are delivered: for any sequence of
  masked text frames, with any keys and final bits, of any length including none, the session
  hands exactly these texts in this order to the derived class, asks for the next read after
  each, and drops whatever else the same read brought.
\<close>

theorem text_frames_delivered:
  assumes "list_all ok_message ms"
  shows "ws_reads Little os frame_parser_init (map message_read ms) s =
           (s, concat (map (\<lambda>m. [On_read (cm_text m), read_next_frame]) ms))"
  using assms
proof (induction ms)
  case (Cons m ms)
  then show ?case
    using on_read_message [of m os s]
    by (cases "message_read m") (simp add: message_read_def read_next_frame_def after_step_def)
qed simp

theorem text_frames_delivered_witness:
  "ws_reads Little (No_error, No_error) frame_parser_init
     (map message_read [\<lparr>cm_raw = [1, 1, 1, 1], cm_fin = True, cm_key = [1, 2, 3, 4],
        cm_text = ''hi'', cm_later = ''x''\<rparr>]) \<lparr>is_open = True\<rparr> =
   (\<lparr>is_open = True\<rparr>, [On_read ''hi'', read_next_frame])"
  by (subst text_frames_delivered) (simp_all add: ok_message_def)

text \<open>
  What the session does with each kind of frame: a text goes to the derived class, pings
  and pongs are skipped (a ping is not answered), and a binary, continuation, close or
  reserved frame is an error that shuts the session down.
\<close>

lemma frame_dispatch:
  assumes "length raw = 4" "length key = 4" "length data < 2 ^ 64"
  shows "on_read_dataframe Little raw os frame_parser_init No_error
           (map byte_char (rfc_frame a_fin op (Some key) data) @ later) s =
         (if op = Text_frame then (s, [On_read (map byte_char data), read_next_frame])
          else if op = Ping \<or> op = Pong then (s, [read_next_frame])
          else shutdown os s)"
  using on_read_whole_frame [OF assms, of op os a_fin later s]
  by (cases op) (auto simp: on_read_data_frame_def on_error_def)

text \<open>
  C19. A frame cut in two kills the connection silently: when a read ends inside a frame after
  at least its first two bytes, no message is delivered any more and no error is raised,
  whatever the client sends afterwards and however it is cut; the session just goes on
  asking for reads.
\<close>

theorem split_frame_swallows_all:
  assumes "length raw = 4" "length key = 4" "data \<noteq> []" "length data < 2 ^ 64"
    and "rfc_frame a_fin op (Some key) data = p @ q" "2 \<le> length p" "q \<noteq> []"
  shows "\<exists>es. ws_reads Little os frame_parser_init ((raw, map byte_char p) # reads) s = (s, es) \<and>
           delivered es = [] \<and>
           list_all (\<lambda>e. \<exists>st. e = Async_read_some (On_read_dataframe st)) es"
proof -
  have "frame_read a_fin op data []
      (Ws_Frame_Parser.parse Little Fin_opcode (mk_data_frame raw [])
        (rfc_frame a_fin op (Some key) data @ []))"
    using assms(1-4) by (intro parse_rfc_frame_masked) (simp_all add: mk_data_frame_def)
  then obtain st f where "Ws_Frame_Parser.parse Little Fin_opcode (mk_data_frame raw []) (p @ q) =
      (TTrue, st, f, [])"
    by (auto simp: frame_read_def assms(5) simp del: rfc_frame.simps split: prod.splits)
  from frame_parser.parse_proper_prefix [OF this] assms(7)
  obtain st1 f1 where p: "Ws_Frame_Parser.parse Little Fin_opcode (mk_data_frame raw []) p =
      (Indeterminate, st1, f1, [])" by auto
  obtain b0 b1 bs where "p = b0 # b1 # bs"
    using assms(6) by (auto simp: numeral_2_eq_2 Suc_le_length_iff)
  with p parse_two_bytes_past_length have "past_length st1" by blast
  from ws_reads_stuck [OF this, of Little os reads s] p show ?thesis
    by (auto simp: on_read_dataframe_def frame_parser_init_def after_step_def list_all_iff)
qed

theorem split_frame_swallows_all_witness:
  "\<exists>es. ws_reads Little (No_error, No_error) frame_parser_init
      [([0, 0, 0, 0], map byte_char [129, 130, 1, 2]), ([0, 0, 0, 0], map byte_char [3, 4, 64, 64])]
      \<lparr>is_open = True\<rparr> = (\<lparr>is_open = True\<rparr>, es) \<and> delivered es = []"
  using split_frame_swallows_all [where raw = "[0, 0, 0, 0]" and key = "[1, 2, 3, 4]"
      and data = "[65, 66]" and a_fin = True and op = Text_frame and p = "[129, 130, 1, 2]"
      and q = "[3, 4, 64, 64]" and os = "(No_error, No_error)"
      and reads = "[([0, 0, 0, 0], map byte_char [3, 4, 64, 64])]" and s = "\<lparr>is_open = True\<rparr>"]
  by (fastforce simp: rfc_first_byte_def rfc_length_def)

text \<open>
  A frame cut after its first byte loses its kind: the new frame of the second read has
  the opcode the constructor sets, so a frame of any kind, a close frame too, is delivered as
  a text message.
\<close>

lemma split_first_byte_becomes_text:
  assumes "length raw' = 4" "length key = 4" "length data < 2 ^ 64"
  shows "ws_reads Little os frame_parser_init
           [(raw, [byte_char (rfc_first_byte a_fin op)]),
            (raw', map byte_char (tl (rfc_frame a_fin op (Some key) data)))] s =
         (s, [Async_read_some (On_read_dataframe Mask_payload_len),
              On_read (map byte_char data), read_next_frame])"
proof -
  have first: "on_read_dataframe Little raw os frame_parser_init No_error
      [byte_char (rfc_first_byte a_fin op)] s =
      (s, [Async_read_some (On_read_dataframe Mask_payload_len)])"
    by (simp add: on_read_dataframe_def frame_parser_init_def Ws_Frame_Parser.parse.simps consume_first)
  have new: "(mk_data_frame raw' [])\<lparr>fin := True, opcode := Text_frame\<rparr> = mk_data_frame raw' []"
    by (simp add: mk_data_frame_def)
  have "Ws_Frame_Parser.parse Little Mask_payload_len (mk_data_frame raw' [])
        (tl (rfc_frame a_fin op (Some key) data)) =
      Ws_Frame_Parser.parse Little Fin_opcode (mk_data_frame raw' [])
        (rfc_frame True Text_frame (Some key) data)"
    using frame_parser.parse_step [OF consume_first, of Little "mk_data_frame raw' []" True Text_frame]
    by (simp add: new)
  then have "on_read_dataframe Little raw' os Mask_payload_len No_error
        (map byte_char (tl (rfc_frame a_fin op (Some key) data))) s =
      on_read_dataframe Little raw' os frame_parser_init No_error
        (map byte_char (rfc_frame True Text_frame (Some key) data) @ []) s"
    by (simp add: on_read_dataframe_def frame_parser_init_def del: rfc_frame.simps)
  also have "\<dots> = (s, [On_read (map byte_char data), read_next_frame])"
    using on_read_whole_frame [OF assms, of Text_frame os True "[]" s]
    by (auto simp: on_read_data_frame_def)
  finally show ?thesis
    by (simp add: first after_step_def read_next_frame_def del: rfc_frame.simps)
qed

end
