(* ===== verification/Serialization.thy ===== *)
theory Serialization
  imports Tcp_Session
begin

text \<open>
  \<^verbatim>\<open>splice/serialization_session.hxx\<close> and \<^verbatim>\<open>splice/serialization_engine.hxx\<close>: objects
  on a connection, each written as a header of eight characters, the length of the data in
  hexadecimal, and the data. The two files hold the same operations under different names,
  the session using its own; both are modelled and shown to agree.

  \<open>save\<close> and \<open>load\<close> are the Boost archives (\<open>load\<close> is \<open>None\<close> where they throw). What they
  handle, \<open>'m\<close>, are pointers to messages, \<^verbatim>\<open>msg_ptr\<close>, which an archive can also load as null.
  \<open>alloc\<close> tells which sizes \<^verbatim>\<open>make_shared<vector<char>>\<close> can allocate, and \<open>checked\<close>
  whether \<^verbatim>\<open>BOOST_ASSERT\<close> is compiled in.
\<close>

section \<open>The wire format\<close>

definition header_length :: nat where
  "header_length = 8"

definition format_header :: "string \<Rightarrow> string option" where
  "format_header outbound_data =
     (let h = setw header_length (hex_string (length outbound_data))
      in if length h \<noteq> header_length then None else Some h)"

text \<open>What is sent for some data, and what a header says.\<close>

definition frame_data :: "string \<Rightarrow> string option" where
  "frame_data outbound_data = map_option (\<lambda>h. h @ outbound_data) (format_header outbound_data)"

definition read_size :: "string \<Rightarrow> nat option" where
  "read_size inbound_header = stream_hex_size inbound_header"

section \<open>The session\<close>

datatype 'm ser_handler = On_read_header | On_read_data nat | On_ser_write 'm

definition ser_async_read :: "'a tcp_session_scheme \<Rightarrow> ('m ser_handler, 'm, 'a tcp_session_scheme) step_of" where
  "ser_async_read s = (s, [Async_read_some On_read_header])"

definition ser_on_handshake_success :: "'a tcp_session_scheme \<Rightarrow> ('m ser_handler, 'm, 'a tcp_session_scheme) step_of" where
  "ser_on_handshake_success s = ser_async_read s"

definition ser_handle_read ::
  "error_code \<times> error_code \<Rightarrow> error_code \<Rightarrow> 'a tcp_session_scheme \<Rightarrow> ('m ser_handler, 'm, 'a tcp_session_scheme) step_of" where
  "ser_handle_read os ec s = (if ec \<noteq> No_error then on_error_code os ec s else (s, []))"

definition ser_handle_read_dataframe :: "'a tcp_session_scheme \<Rightarrow> ('m ser_handler, 'm, 'a tcp_session_scheme) step_of" where
  "ser_handle_read_dataframe s = ser_async_read s"

definition ser_async_write ::
  "('m \<Rightarrow> string) \<Rightarrow> error_code \<times> error_code \<Rightarrow> 'm \<Rightarrow> 'a tcp_session_scheme
     \<Rightarrow> ('m ser_handler, 'm, 'a tcp_session_scheme) step_of" where
  "ser_async_write save os msg s =
     (let outbound_data = save msg
      in (case format_header outbound_data of
            None \<Rightarrow> on_error_code os Invalid_argument s
          | Some outbound_header \<Rightarrow>
              (s, [Async_write (outbound_header @ outbound_data) (On_ser_write msg)])))"

definition on_write_msg ::
  "error_code \<times> error_code \<Rightarrow> error_code \<Rightarrow> 'm \<Rightarrow> 'a tcp_session_scheme
     \<Rightarrow> ('m ser_handler, 'm, 'a tcp_session_scheme) step_of" where
  "on_write_msg os ec msg s = (if ec \<noteq> No_error then on_error_code os ec s else (s, []))"

definition ser_on_write ::
  "error_code \<times> error_code \<Rightarrow> error_code \<Rightarrow> 'm \<Rightarrow> 'a tcp_session_scheme
     \<Rightarrow> ('m ser_handler, 'm, 'a tcp_session_scheme) step_of" where
  "ser_on_write os ec msg s = on_write_msg os ec msg s"

text \<open>
  The header vector has eight elements, zero where nothing was read. Its text is parsed and
  a vector of that many elements is allocated for the data.
\<close>

definition on_read_header ::
  "bool \<Rightarrow> (nat \<Rightarrow> bool) \<Rightarrow> error_code \<times> error_code \<Rightarrow> error_code \<Rightarrow> string \<Rightarrow> 'a tcp_session_scheme
     \<Rightarrow> ('m ser_handler, 'm, 'a tcp_session_scheme) step_of outcome" where
  "on_read_header checked alloc os ec incoming s =
     (if ec \<noteq> No_error then Returns (on_error_code os ec s)
      else if checked \<and> length incoming \<noteq> header_length then Assertion_failure
      else
        let inbound_header = incoming @ replicate (header_length - length incoming) CHR 0x00
        in (case read_size inbound_header of
              None \<Rightarrow> Returns (on_error_code os Invalid_argument s)
            | Some sz \<Rightarrow>
                if alloc sz then Returns (s, [Async_read_some (On_read_data sz)])
                else Uncaught_exception))"

text \<open>\<^verbatim>\<open>on_error_ex_ec\<close> has an empty body.\<close>

definition on_error_ex_ec :: "'a tcp_session_scheme \<Rightarrow> ('m ser_handler, 'm, 'a tcp_session_scheme) step_of" where
  "on_error_ex_ec s = (s, [])"

definition on_read_data ::
  "bool \<Rightarrow> (string \<Rightarrow> 'm option) \<Rightarrow> error_code \<times> error_code \<Rightarrow> nat \<Rightarrow> error_code \<Rightarrow> string
     \<Rightarrow> 'a tcp_session_scheme \<Rightarrow> ('m ser_handler, 'm, 'a tcp_session_scheme) step_of outcome" where
  "on_read_data checked load os sz ec incoming s =
     (if ec \<noteq> No_error then Returns (on_error_code os ec s)
      else if checked \<and> length incoming \<noteq> sz then Assertion_failure
      else
        let archive_data = incoming @ replicate (sz - length incoming) CHR 0x00
        in (case load archive_data of
              None \<Rightarrow> Returns (on_error_ex_ec s)
            | Some msg \<Rightarrow> Returns (s, [On_read msg])))"

lemmas ser_defs [handler_defs] =
  ser_async_read_def ser_on_handshake_success_def ser_handle_read_def
  ser_handle_read_dataframe_def ser_async_write_def on_write_msg_def ser_on_write_def
  on_read_header_def on_error_ex_ec_def on_read_data_def

section \<open>The engine\<close>

text \<open>
  The base class \<^verbatim>\<open>serialization_engine\<close> with the same handlers under its own names. Its
  \<^verbatim>\<open>on_write_struct\<close> handles the error itself.
\<close>

definition engine_async_read :: "'a tcp_session_scheme \<Rightarrow> ('m ser_handler, 'm, 'a tcp_session_scheme) step_of" where
  "engine_async_read s = (s, [Async_read_some On_read_header])"

definition engine_handle_read ::
  "error_code \<times> error_code \<Rightarrow> error_code \<Rightarrow> 'a tcp_session_scheme \<Rightarrow> ('m ser_handler, 'm, 'a tcp_session_scheme) step_of" where
  "engine_handle_read os ec s = (if ec \<noteq> No_error then on_error_code os ec s else (s, []))"

definition engine_handle_read_dataframe :: "'a tcp_session_scheme \<Rightarrow> ('m ser_handler, 'm, 'a tcp_session_scheme) step_of" where
  "engine_handle_read_dataframe s = engine_async_read s"

definition async_write_struct ::
  "('m \<Rightarrow> string) \<Rightarrow> error_code \<times> error_code \<Rightarrow> 'm \<Rightarrow> 'a tcp_session_scheme
     \<Rightarrow> ('m ser_handler, 'm, 'a tcp_session_scheme) step_of" where
  "async_write_struct save os msg s =
     (let outbound_data = save msg;
          header_stream = setw header_length (hex_string (length outbound_data))
      in if length header_stream \<noteq> header_length then on_error_code os Invalid_argument s
         else (s, [Async_write (concat [header_stream, outbound_data]) (On_ser_write msg)]))"

definition on_write_struct ::
  "error_code \<times> error_code \<Rightarrow> error_code \<Rightarrow> 'm \<Rightarrow> 'a tcp_session_scheme
     \<Rightarrow> ('m ser_handler, 'm, 'a tcp_session_scheme) step_of" where
  "on_write_struct os ec msg s = (if ec \<noteq> No_error then on_error_code os ec s else (s, []))"

definition engine_on_read_header ::
  "bool \<Rightarrow> (nat \<Rightarrow> bool) \<Rightarrow> error_code \<times> error_code \<Rightarrow> error_code \<Rightarrow> string \<Rightarrow> 'a tcp_session_scheme
     \<Rightarrow> ('m ser_handler, 'm, 'a tcp_session_scheme) step_of outcome" where
  "engine_on_read_header checked alloc os ec incoming s =
     (if ec \<noteq> No_error then Returns (on_error_code os ec s)
      else if checked \<and> length incoming \<noteq> header_length then Assertion_failure
      else
        let inbound_header = take header_length (incoming @ replicate header_length CHR 0x00)
        in (case stream_hex_size inbound_header of
              None \<Rightarrow> Returns (on_error_code os Invalid_argument s)
            | Some sz \<Rightarrow>
                if \<not> alloc sz then Uncaught_exception
                else Returns (s, [Async_read_some (On_read_data sz)])))"

definition engine_on_read_data ::
  "bool \<Rightarrow> (string \<Rightarrow> 'm option) \<Rightarrow> error_code \<times> error_code \<Rightarrow> nat \<Rightarrow> error_code \<Rightarrow> string
     \<Rightarrow> 'a tcp_session_scheme \<Rightarrow> ('m ser_handler, 'm, 'a tcp_session_scheme) step_of outcome" where
  "engine_on_read_data checked load os sz ec incoming s =
     (if ec \<noteq> No_error then Returns (on_error_code os ec s)
      else if checked \<and> length incoming \<noteq> sz then Assertion_failure
      else
        let archive_data = take sz (incoming @ replicate sz CHR 0x00)
        in (case load archive_data of
              None \<Rightarrow> Returns (s, [])
            | Some msg \<Rightarrow> Returns (s, [On_read msg])))"

section \<open>The interface of a length prefixed format\<close>

text \<open>
  Data is framed with a header of fixed length from which its size can be read; data that is
  too long is refused. A stream of frames can then be taken apart again.
\<close>

locale length_prefixed =
  fixes hlen :: nat
    and frame :: "string \<Rightarrow> string option"
    and size_of :: "string \<Rightarrow> nat option"
  assumes frame_parts: "frame d = Some w \<Longrightarrow> length w = hlen + length d \<and> drop hlen w = d"
    and frame_size: "frame d = Some w \<Longrightarrow> size_of (take hlen w) = Some (length d)"
    and hlen_pos: "0 < hlen"
begin

fun unframe_stream :: "nat \<Rightarrow> string \<Rightarrow> string list option" where
  "unframe_stream 0 w = (if w = [] then Some [] else None)"
| "unframe_stream (Suc n) w =
     (if w = [] then Some []
      else case size_of (take hlen w) of
             None \<Rightarrow> None
           | Some k \<Rightarrow>
               map_option (Cons (take k (drop hlen w))) (unframe_stream n (drop (hlen + k) w)))"

lemma frame_header: "frame d = Some w \<Longrightarrow> take hlen w @ d = w"
  using frame_parts by (metis append_take_drop_id)

lemma unframe_concat:
  "list_all2 (\<lambda>d w. frame d = Some w) ds ws \<Longrightarrow> unframe_stream (length ds) (concat ws) = Some ds"
proof (induction ds arbitrary: ws)
  case (Cons d ds)
  then obtain w ws' where ws: "ws = w # ws'" and w: "frame d = Some w"
    and rest: "list_all2 (\<lambda>d w. frame d = Some w) ds ws'"
    by (auto simp: list_all2_Cons1)
  define h where "h = take hlen w"
  have h: "w = h @ d" "length h = hlen"
    using frame_parts [OF w] by (auto simp: h_def min_def)
  have size: "size_of h = Some (length d)" using frame_size [OF w] by (simp add: h_def)
  have "h \<noteq> []" using h(2) hlen_pos by auto
  then show ?case
    using Cons.IH [OF rest] size h(2) by (simp add: ws h(1))
qed simp

end

lemma format_header_iff: "format_header d \<noteq> None \<longleftrightarrow> length d < 16 ^ 8"
  using length_base_digits [of 16 8 "length d"]
  by (auto simp: format_header_def header_length_def length_setw hex_string_def Let_def)

lemma format_header_size:
  assumes "format_header d = Some h"
  shows "length h = header_length" and "read_size h = Some (length d)"
proof -
  show "length h = header_length"
    using assms by (auto simp: format_header_def Let_def split: if_splits)
  have "length d < 16 ^ 8" using assms format_header_iff by auto
  then have "length d < 2 ^ 64" by simp
  then show "read_size h = Some (length d)"
    using assms stream_hex_size_setw by (auto simp: format_header_def read_size_def Let_def split: if_splits)
qed

interpretation ser_format: length_prefixed header_length frame_data read_size
  by unfold_locales
     (auto simp: frame_data_def format_header_size header_length_def [symmetric]
        dest: format_header_size, simp add: header_length_def)

text \<open>One message on the wire, as it is written, and as header and data are read.\<close>

abbreviation wire :: "string \<Rightarrow> string" where
  "wire d \<equiv> the (frame_data d)"

lemma frame_data_wire: "length d < 16 ^ 8 \<Longrightarrow> frame_data d = Some (wire d)"
  using format_header_iff [of d] by (auto simp: frame_data_def)

lemma length_wire: "length d < 16 ^ 8 \<Longrightarrow> length (wire d) = header_length + length d"
  using ser_format.frame_parts [OF frame_data_wire] by blast

lemma message_written:
  assumes "length (save msg) < 16 ^ 8"
  shows "ser_async_write save os msg s = (s, [Async_write (wire (save msg)) (On_ser_write msg)])"
proof -
  obtain h where "format_header (save msg) = Some h" using assms format_header_iff [of "save msg"] by blast
  then show ?thesis by (simp add: ser_async_write_def frame_data_def)
qed

lemma message_header_read:
  assumes "length d < 16 ^ 8" "alloc (length d)"
  shows "on_read_header checked alloc os No_error (take header_length (wire d)) s =
     Returns (s, [Async_read_some (On_read_data (length d))])"
  using ser_format.frame_size [OF frame_data_wire [OF assms(1)]] length_wire [OF assms(1)] assms(2)
  by (simp add: on_read_header_def)

lemma message_data_read:
  assumes "load (save msg) = Some msg" "length (save msg) < 16 ^ 8"
  shows "on_read_data checked load os (length (save msg)) No_error (drop header_length (wire (save msg))) s =
     Returns (s, [On_read msg])"
  using ser_format.frame_parts [OF frame_data_wire [OF assms(2)]] assms(1)
  by (simp add: on_read_data_def)

section \<open>The session and the engine agree\<close>

lemma padded_read:
  "length incoming \<le> n \<Longrightarrow>
     take n (incoming @ replicate n CHR 0x00) = incoming @ replicate (n - length incoming) CHR 0x00"
  by simp

lemma engine_async_write_eq: "async_write_struct save os msg s = ser_async_write save os msg s"
  by (simp add: async_write_struct_def ser_async_write_def format_header_def Let_def)

lemma engine_on_read_header_eq:
  "length incoming \<le> header_length \<Longrightarrow>
     engine_on_read_header checked alloc os ec incoming s = on_read_header checked alloc os ec incoming s"
  by (simp add: engine_on_read_header_def on_read_header_def padded_read read_size_def Let_def
      split: option.split)

lemma engine_on_read_data_eq:
  "length incoming \<le> sz \<Longrightarrow>
     engine_on_read_data checked load os sz ec incoming s = on_read_data checked load os sz ec incoming s"
  by (simp add: engine_on_read_data_def on_read_data_def padded_read on_error_ex_ec_def Let_def
      split: option.split)

section \<open>Properties\<close>

text \<open>
  C9. A message reaches the other side: what \<^verbatim>\<open>async_write\<close> sends is, for a message whose
  archive is shorter than \<open>16 ^ 8\<close> bytes, a header of eight characters and the archive; the
  receiver reads the archive's length from exactly that header and delivers the message from
  exactly those bytes. The archive is only assumed to load what it saved, and the allocation
  to succeed for this size.
\<close>

theorem message_exchange:
  assumes "load (save msg) = Some msg" "length (save msg) < 16 ^ 8" "alloc (length (save msg))"
  shows "\<exists>w. ser_async_write save os msg s = (s, [Async_write w (On_ser_write msg)]) \<and>
     on_read_header checked alloc os No_error (take header_length w) s =
       Returns (s, [Async_read_some (On_read_data (length (save msg)))]) \<and>
     on_read_data checked load os (length (save msg)) No_error (drop header_length w) s =
       Returns (s, [On_read msg])"
  using assms
  by (intro exI [of _ "wire (save msg)"] conjI message_written message_header_read message_data_read)

theorem message_exchange_witness:
  "\<exists>w. ser_async_write id (No_error, No_error) ''abc'' \<lparr>is_open = True\<rparr> =
       (\<lparr>is_open = True\<rparr>, [Async_write w (On_ser_write ''abc'')]) \<and>
     on_read_data True Some (No_error, No_error) 3 No_error (drop header_length w) \<lparr>is_open = True\<rparr> =
       Returns (\<lparr>is_open = True\<rparr>, [On_read ''abc''])"
  using message_exchange [of Some id "''abc''" "\<lambda>_. True" "(No_error, No_error)"
      "\<lparr>is_open = True\<rparr>" True] by (auto simp: numeral_3_eq_3)

text \<open>
  A message whose archive is too long for the header is not sent: the session is shut
  down and nothing is written, exactly from \<open>16 ^ 8\<close> bytes on.
\<close>

lemma oversized_message_refused:
  "ser_async_write save os msg s = on_error_code os Invalid_argument s \<longleftrightarrow> 16 ^ 8 \<le> length (save msg)"
proof (cases "format_header (save msg)")
  case None
  then have "\<not> length (save msg) < 16 ^ 8" using format_header_iff [of "save msg"] by blast
  with None show ?thesis by (simp add: ser_async_write_def)
next
  case (Some h)
  then have "length (save msg) < 16 ^ 8" using format_header_iff [of "save msg"] by blast
  with Some show ?thesis
    by (simp add: ser_async_write_def on_error_code_def shutdown_def)
qed

text \<open>
  A stream of messages can be taken apart: reading the headers one after the other, with
  the rule the session uses, gives back the data of every message that was framed, in order.
\<close>

lemma stream_decoded:
  assumes "list_all (\<lambda>d. length d < 16 ^ 8) ds"
  shows "ser_format.unframe_stream (length ds) (concat (map (\<lambda>d. the (frame_data d)) ds)) = Some ds"
proof (rule ser_format.unframe_concat)
  have "frame_data d = Some (the (frame_data d))" if d: "length d < 16 ^ 8" for d
  proof -
    obtain h where "format_header d = Some h" using d format_header_iff [of d] by blast
    then show ?thesis by (simp add: frame_data_def)
  qed
  with assms show "list_all2 (\<lambda>d w. frame_data d = Some w) ds (map (\<lambda>d. the (frame_data d)) ds)"
    by (auto simp: list_all2_conv_all_nth list_all_length)
qed

text \<open>
  A header with a minus sign stops the server: the stream operator reads it as a huge
  unsigned number, no vector can hold so much, and the exception of the allocation leaves the
  handler uncaught. Any eight characters that spell a negative number do it.
\<close>

lemma negative_header_throws:
  assumes "length hdr = header_length" "stream_hex hdr = Some (True, n)" "0 < n" "n < 2 ^ 63"
    and "\<And>sz. alloc sz \<Longrightarrow> sz < 2 ^ 63"
  shows "on_read_header checked alloc os No_error hdr s = Uncaught_exception"
proof -
  have "read_size hdr = Some (2 ^ 64 - n)"
    using assms(2-4) by (simp add: read_size_def stream_hex_size_def)
  moreover have "\<not> alloc (2 ^ 64 - n)"
    using assms(4) assms(5) [of "2 ^ 64 - n"] by auto
  ultimately show ?thesis using assms(1) by (simp add: on_read_header_def)
qed

text \<open>
  A message that cannot be decoded ends the session without a report: the error routine for
  it has an empty body, and nothing more is read, so that no handler is left to hold the session.
\<close>

lemma undecodable_message_unreported:
  assumes "length incoming = sz" "load incoming = None"
  shows "on_read_data checked load os sz No_error incoming s = Returns (s, [])"
  using assms by (simp add: on_read_data_def on_error_ex_ec_def)

text \<open>
  C31. The engine, the base class with its own copy of the operations, does what the session
  does: the same bytes are written and the same reads are answered the same way, for reads
  that fill at most the buffer they were given.
\<close>

theorem engine_equivalent:
  assumes "length hdr \<le> header_length" "length body \<le> sz"
  shows "async_write_struct save os (msg :: 'm) s = ser_async_write save os msg s \<and>
     on_write_struct os ec msg s = ser_on_write os ec msg s \<and>
     engine_async_read s = (ser_async_read s :: ('m ser_handler, 'm, _) step_of) \<and>
     engine_on_read_header checked alloc os ec hdr s =
       (on_read_header checked alloc os ec hdr s :: ('m ser_handler, 'm, _) step_of outcome) \<and>
     engine_on_read_data checked load os sz ec body s =
       (on_read_data checked load os sz ec body s :: ('m ser_handler, 'm, _) step_of outcome)"
  by (simp add: engine_on_read_header_eq [OF assms(1)] engine_on_read_data_eq [OF assms(2)] engine_async_write_eq on_write_struct_def ser_on_write_def on_write_msg_def
      engine_async_read_def ser_async_read_def)

theorem engine_equivalent_witness:
  "engine_on_read_data False Some (No_error, No_error) 3 No_error ''ab'' \<lparr>is_open = True\<rparr> =
   Returns (\<lparr>is_open = True\<rparr>, [On_read [CHR ''a'', CHR ''b'', CHR 0x00]])"
proof -
  have "engine_on_read_data False Some (No_error, No_error) 3 No_error ''ab'' \<lparr>is_open = True\<rparr> =
      on_read_data False Some (No_error, No_error) 3 No_error ''ab'' \<lparr>is_open = True\<rparr>"
    using engine_equivalent [where hdr = "[]" and body = "''ab''" and sz = 3
        and os = "(No_error, No_error)" and s = "\<lparr>is_open = True\<rparr>" and checked = False
        and load = Some and ec = No_error and save = id and msg = "[]" and alloc = "\<lambda>_. True"]
    by (simp add: numeral_3_eq_3)
  then show ?thesis by (simp add: on_read_data_def)
qed

end
