(* ===== verification/Server.thy ===== *)
theory Server
  imports Tcp_Session
begin

text \<open>
  \<^verbatim>\<open>splice/server.hxx\<close>, \<^verbatim>\<open>mono_protocol.hxx\<close>, \<^verbatim>\<open>multi_protocol.hxx\<close> and \<^verbatim>\<open>protocol.hxx\<close>: setting
  up the acceptor, the accept loop of both kinds of server, the number of threads, and the
  chain of protocols that a connection is handed along in a multi protocol server.
\<close>

section \<open>Starting the server\<close>

text \<open>
  What the server does, in order. \<open>Server_on_error\<close> is \<^verbatim>\<open>protocol::on_error\<close>, which only
  logs.
\<close>

datatype server_effect =
    Server_on_error error_code
  | Construct_session
  | On_wait_connect
  | Async_accept
  | Session_connected "nat option"
  | On_run nat
  | Io_service_run
  | Create_thread
  | Join_all
  | Io_service_stop

record server =
  acceptor_open :: bool

text \<open>The results of the calls the constructor makes, in their order.\<close>

record setup_results =
  resolve_ec :: error_code
  open_ec :: error_code
  option_ec :: error_code
  bind_ec :: error_code
  listen_ec :: error_code

text \<open>
  The constructor: the resolver's result is dereferenced before its error code is looked at,
  so an address that does not resolve is undefined behaviour (\<open>None\<close>). The chain of
  disjunctions stops at the first error, which is reported; the acceptor stays open when the
  error comes after \<^verbatim>\<open>open\<close>.
\<close>

definition ez_server :: "setup_results \<Rightarrow> (server \<times> server_effect list) option" where
  "ez_server r =
     (if resolve_ec r \<noteq> No_error then None
      else if open_ec r \<noteq> No_error then
        Some (\<lparr>acceptor_open = False\<rparr>, [Server_on_error (open_ec r)])
      else if option_ec r \<noteq> No_error then
        Some (\<lparr>acceptor_open = True\<rparr>, [Server_on_error (option_ec r)])
      else if bind_ec r \<noteq> No_error then
        Some (\<lparr>acceptor_open = True\<rparr>, [Server_on_error (bind_ec r)])
      else if listen_ec r \<noteq> No_error then
        Some (\<lparr>acceptor_open = True\<rparr>, [Server_on_error (listen_ec r)])
      else Some (\<lparr>acceptor_open = True\<rparr>, []))"

text \<open>
  \<^verbatim>\<open>run\<close>, with \<open>hw\<close> the value of \<^verbatim>\<open>hardware_concurrency()\<close>. Its second test is the
  assignment \<^verbatim>\<open>thread_count=1\<close>, whose value is true.
\<close>

definition run :: "nat \<Rightarrow> nat \<Rightarrow> server_effect list" where
  "run hw thread_count =
     (let thread_count = (if thread_count = 0 then (if hw \<noteq> 0 then hw else 1) else thread_count);
          thread_count = 1
      in if thread_count \<noteq> 0 then [On_run 1, Io_service_run]
         else replicate thread_count Create_thread @ [On_run thread_count, Join_all])"

definition on_stop :: "server_effect list" where
  "on_stop = [Io_service_stop]"

section \<open>Accepting connections\<close>

text \<open>\<^verbatim>\<open>start_accept\<close>, the same in both kinds of server.\<close>

definition start_accept :: "server \<Rightarrow> server_effect list" where
  "start_accept sv =
     (if \<not> acceptor_open sv then [] else [Construct_session, On_wait_connect, Async_accept])"

definition mono_on_accept :: "error_code \<Rightarrow> server \<Rightarrow> server_effect list" where
  "mono_on_accept ec sv =
     (if \<not> acceptor_open sv then []
      else (if ec = No_error then [Session_connected None] else [Server_on_error ec])
           @ start_accept sv)"

text \<open>
  The multi protocol server passes its session the handler for the protocol with the highest
  index. The assertion that the socket is open comes before the error is looked at
  (\<open>None\<close> when it fails and assertions are compiled in).
\<close>

definition multi_on_accept ::
  "bool \<Rightarrow> nat \<Rightarrow> bool \<Rightarrow> error_code \<Rightarrow> server \<Rightarrow> server_effect list option" where
  "multi_on_accept checked protocol_count socket_open ec sv =
     (if \<not> acceptor_open sv then Some []
      else if checked \<and> \<not> socket_open then None
      else Some ((if ec = No_error then [Session_connected (Some (protocol_count - 1))]
                  else [Server_on_error ec]) @ start_accept sv))"

text \<open>The accept loop over the results of the accept operations, one after the other.\<close>

fun mono_accepts :: "server \<Rightarrow> error_code list \<Rightarrow> server_effect list" where
  "mono_accepts sv [] = start_accept sv"
| "mono_accepts sv ecs = start_accept sv @ concat (map (\<lambda>ec. mono_on_accept ec sv) ecs)"

lemmas server_defs [handler_defs] =
  ez_server_def run_def on_stop_def start_accept_def mono_on_accept_def multi_on_accept_def

section \<open>The chain of protocols\<close>

text \<open>
  A session that does not recognise the first bytes hands them, with the socket, to
  \<^verbatim>\<open>on_handshake_fail\<close> together with its index; the server tries the next lower index.
  \<open>attempt\<close> is the handshake of the protocol with a given index: it takes the connection
  (\<open>Inl\<close>) or hands data on (\<open>Inr\<close>). At index 0 the connection is given up.
\<close>

datatype 't chain_result = Taken nat 't | Unable_to_connect hand_shake_data

fun on_handshake_fail ::
  "(nat \<Rightarrow> hand_shake_data \<Rightarrow> 't + hand_shake_data) \<Rightarrow> nat \<Rightarrow> hand_shake_data \<Rightarrow> 't chain_result" where
  "on_handshake_fail attempt 0 incoming = Unable_to_connect incoming"
| "on_handshake_fail attempt (Suc i) incoming =
     (case attempt i incoming of
        Inl t \<Rightarrow> Taken i t
      | Inr incoming' \<Rightarrow> on_handshake_fail attempt i incoming')"

text \<open>
  The contract of the protocols: a protocol that refuses a connection hands on the bytes it
  was given.
\<close>

locale protocol_chain =
  fixes attempt :: "nat \<Rightarrow> hand_shake_data \<Rightarrow> 't + hand_shake_data"
  assumes bytes_kept: "attempt i d = Inr d' \<Longrightarrow> hs_bytes d' = hs_bytes d"
begin

lemma unable_bytes_kept:
  "on_handshake_fail attempt n d = Unable_to_connect d' \<Longrightarrow> hs_bytes d' = hs_bytes d"
  by (induction n arbitrary: d) (auto split: sum.splits dest: bytes_kept)

lemma taken_below: "on_handshake_fail attempt n d = Taken i t \<Longrightarrow> i < n"
proof (induction n arbitrary: d)
  case (Suc n)
  then show ?case by (cases "attempt n d") (auto dest: less_SucI)
qed simp

text \<open>The protocol that takes a connection saw the bytes the first one was given.\<close>

lemma taken_bytes:
  "on_handshake_fail attempt n d = Taken i t \<Longrightarrow> \<exists>d'. hs_bytes d' = hs_bytes d \<and> attempt i d' = Inl t"
proof (induction n arbitrary: d)
  case (Suc n)
  show ?case
  proof (cases "attempt n d")
    case (Inl u)
    with Suc.prems show ?thesis by auto
  next
    case (Inr d1)
    with Suc.prems have "on_handshake_fail attempt n d1 = Taken i t" by simp
    from Suc.IH [OF this] bytes_kept [OF Inr] show ?thesis by auto
  qed
qed simp

end

section \<open>How servers accept\<close>

text \<open>
  The accept loop of a mono protocol server: while its acceptor is open every successful
  accept connects one session, every failed one is reported, and exactly one accept operation
  is pending after each, so the server never stops accepting.
\<close>

lemma mono_accept_loop:
  assumes "acceptor_open sv"
  shows "length (filter (\<lambda>e. e = Async_accept) (mono_accepts sv ecs)) = Suc (length ecs) \<and>
     length (filter (\<lambda>e. e = Session_connected None) (mono_accepts sv ecs)) =
       length (filter (\<lambda>ec. ec = No_error) ecs) \<and>
     last (mono_accepts sv ecs) = Async_accept"
proof -
  have step: "mono_accepts sv (ecs @ [ec]) = mono_accepts sv ecs @ mono_on_accept ec sv" for ecs ec
    by (cases ecs) simp_all
  show ?thesis
    by (induction ecs rule: rev_induct)
       (use assms in \<open>auto simp: step start_accept_def mono_on_accept_def\<close>)
qed

text \<open>
  A failed accept is handled differently by the two kinds of server: the mono protocol
  server reports the error and goes on, while the multi protocol server with assertions
  aborts, because it first asserts that the socket, which a failed accept leaves closed, is
  open.
\<close>

lemma multi_accept_error_aborts:
  assumes "acceptor_open sv" "ec \<noteq> No_error"
  shows "multi_on_accept True protocol_count False ec sv = None \<and>
     multi_on_accept False protocol_count False ec sv = Some (mono_on_accept ec sv) \<and>
     mono_on_accept ec sv =
       [Server_on_error ec, Construct_session, On_wait_connect, Async_accept]"
  using assms by (simp add: multi_on_accept_def mono_on_accept_def start_accept_def)

text \<open>
  A server whose port is taken keeps accepting on a socket that does not listen: the
  constructor reports the error of \<^verbatim>\<open>bind\<close> and leaves the acceptor open, so the accept
  loop starts, and every accept that fails starts the next one, without end.
\<close>

lemma bind_failure_busy_loop:
  assumes "resolve_ec r = No_error" "open_ec r = No_error" "option_ec r = No_error"
    and "bind_ec r \<noteq> No_error" "ec \<noteq> No_error"
  shows "\<exists>sv. ez_server r = Some (sv, [Server_on_error (bind_ec r)]) \<and>
     mono_accepts sv (replicate n ec) =
       [Construct_session, On_wait_connect, Async_accept] @
       concat (replicate n [Server_on_error ec, Construct_session, On_wait_connect, Async_accept])"
proof -
  have "mono_accepts \<lparr>acceptor_open = True\<rparr> (replicate n ec) =
      [Construct_session, On_wait_connect, Async_accept] @
      concat (replicate n [Server_on_error ec, Construct_session, On_wait_connect, Async_accept])"
    using assms(5) by (cases n) (simp_all add: start_accept_def mono_on_accept_def)
  with assms(1-4) show ?thesis by (simp add: ez_server_def)
qed

text \<open>
  However many threads are asked for and however many the hardware has, the server runs
  its event loop in the calling thread only and creates none.
\<close>

lemma run_single_thread: "run hw thread_count = [On_run 1, Io_service_run]"
  by (simp add: run_def)

end
