(* ===== verification/Multi_Echo.thy ===== *)
theory Multi_Echo
  imports Http_Session Ws_Session Serialization Server "HOL-Library.Multiset"
begin

text \<open>
  \<^verbatim>\<open>examples/multi_protocol_echo/server\<close>: a server of five protocols on one port. A
  connection starts as a WebSocket session (index 4) and is handed along HTTP (3), the log
  WebSocket (2), serialized objects (1) and plain TCP (0), which recognise their clients by a
  GUID. The theory puts the sessions of the library into the chain of \<open>Server\<close>, and models
  the echo messages and the set of log sessions.
\<close>

section \<open>The sessions of the server\<close>

definition tcp_guid :: string where
  "tcp_guid = ''{21BB758F-BC6A-42C4-92B1-6B5332CEAEBF}''"

definition serialization_guid :: string where
  "serialization_guid = ''{40CBD5AC-856A-4EA5-AE00-DFB199ABED64}''"

definition log_guid :: string where
  "log_guid = ''{82F0D331-F6C1-4227-8015-C89276E1931B}''"

definition ws_guid :: string where
  "ws_guid = ''{FB3D4012-F196-4299-9531-0AEACBB3ED89}''"

text \<open>\<^verbatim>\<open>try_handshake\<close>: the same length and the same bytes.\<close>

definition try_handshake :: "string \<Rightarrow> hand_shake_data \<Rightarrow> bool" where
  "try_handshake guid incoming \<longleftrightarrow>
     length guid = length (hs_bytes incoming) \<and> take (length (hs_bytes incoming)) guid = hs_bytes incoming"

lemma try_handshake_iff [simp]: "try_handshake guid incoming \<longleftrightarrow> hs_bytes incoming = guid"
  by (auto simp: try_handshake_def)

text \<open>What the handlers of the sessions depend on outside the program.\<close>

record echo_env =
  env_doc_root :: string
  env_fs :: file_system
  env_sha1 :: sha1_digest
  env_b64 :: base64_iterators
  env_mem :: "32 word \<times> 32 word"
  env_os :: "error_code \<times> error_code"

text \<open>
  A session built on the socket that was moved to it. The server gives a log session the
  function it signals its connection and its shutdown with.
\<close>

definition connected :: tcp_session where
  "connected = \<lparr>is_open = True\<rparr>"

record log_session = tcp_session +
  has_signal :: bool

definition on_connect_sig :: "'a log_session_scheme \<Rightarrow> 'a log_session_scheme" where
  "on_connect_sig s = s\<lparr>has_signal := True\<rparr>"

definition log_connected :: log_session where
  "log_connected = on_connect_sig \<lparr>is_open = True, has_signal = False\<rparr>"

lemma connected_open [simp]: "is_open connected" "is_open log_connected" "has_signal log_connected"
  by (simp_all add: connected_def log_connected_def on_connect_sig_def)

text \<open>The session that has taken a connection, with its state and what it did.\<close>

datatype 'm taken =
    Ws_took "(ws_handler, tcp_session) step"
  | Http_took "(http_handler, http_session) step"
  | Log_took "(ws_handler, log_session) step"
  | Serialization_took "('m ser_handler, 'm, tcp_session) step_of"
  | Tcp_took "(tcp_handler, tcp_session) step"
  | Assertion_failed

text \<open>The call of the failure handler among the effects, and that of \<^verbatim>\<open>on_handshake_success\<close>.\<close>

fun handed_on :: "('h, 'm) effect_of list \<Rightarrow> hand_shake_data option" where
  "handed_on [] = None"
| "handed_on (Handshake_fail d # es) = Some d"
| "handed_on (e # es) = handed_on es"

fun on_success ::
  "('s \<Rightarrow> ('h, 'm, 's) step_of) \<Rightarrow> ('h, 'm, 's) step_of \<Rightarrow> ('h, 'm, 's) step_of" where
  "on_success success (s, []) = (s, [])"
| "on_success success (s, On_handshake_success # es) = after_step (success s) (\<lambda>s'. on_success success (s', es))"
| "on_success success (s, e # es) = after_step (s, [e]) (\<lambda>s'. on_success success (s', es))"

definition take_or_hand_on ::
  "(('h, 'n, 's) step_of \<Rightarrow> 'm taken) \<Rightarrow> ('h, 'n, 's) step_of \<Rightarrow> 'm taken + hand_shake_data" where
  "take_or_hand_on took r =
     (case handed_on (snd r) of Some d \<Rightarrow> Inr d | None \<Rightarrow> Inl (took r))"

text \<open>
  \<^verbatim>\<open>do_next_handshake\<close>: build the session of the index and run its handshake. An index of
  4 or more fails the assertion. On success the TCP session asks for a string, the
  serialization session for a header, and the log session calls its signal, which stays the
  effect \<open>On_handshake_success\<close>.
\<close>

definition do_next_handshake :: "echo_env \<Rightarrow> nat \<Rightarrow> hand_shake_data \<Rightarrow> 'm taken + hand_shake_data" where
  "do_next_handshake env protocol_index incoming =
     (if protocol_index = 0 then
        take_or_hand_on (Tcp_took \<circ> on_success async_read_string)
          (Tcp_Session.handshake (try_handshake tcp_guid) incoming connected)
      else if protocol_index = 1 then
        take_or_hand_on (Serialization_took \<circ> on_success ser_on_handshake_success)
          (Tcp_Session.handshake (try_handshake serialization_guid) incoming connected)
      else if protocol_index = 2 then
        (case ws_handshake (env_sha1 env) (env_b64 env) (env_mem env) (try_handshake log_guid)
                incoming log_connected of
           None \<Rightarrow> Inl Assertion_failed
         | Some r \<Rightarrow> take_or_hand_on Log_took r)
      else if protocol_index = 3 then
        take_or_hand_on Http_took
          (http_handshake (env_doc_root env) (env_fs env) (env_os env) incoming
             (mk_http_session True (fst (env_mem env)) (snd (env_mem env)) Ok))
      else Inl Assertion_failed)"

text \<open>
  A new connection: the first read of the WebSocket session with index 4, and the chain when
  it does not want the connection.
\<close>

definition protocol_count :: nat where
  "protocol_count = 5"

definition first_bytes :: "echo_env \<Rightarrow> string \<Rightarrow> 'm taken chain_result" where
  "first_bytes env incoming =
     (case multi_first_read (env_sha1 env) (env_b64 env) (env_mem env) (env_os env) No_error
             incoming connected of
        None \<Rightarrow> Taken (protocol_count - 1) Assertion_failed
      | Some (s, es) \<Rightarrow>
          (case handed_on es of
             None \<Rightarrow> Taken (protocol_count - 1) (Ws_took (s, es))
           | Some d \<Rightarrow> on_handshake_fail (do_next_handshake env) (protocol_count - 1) d))"

lemmas echo_defs = take_or_hand_on_def Tcp_Session.handshake_def

section \<open>The chain\<close>

lemma shutdown_not_handed_on [simp]: "handed_on (snd (shutdown os s)) = None"
  by (simp add: shutdown_def)

lemma http_hands_on_bytes:
  "handed_on (snd (http_handshake doc_root fs os d s)) = Some d' \<Longrightarrow> hs_bytes d' = hs_bytes d"
  by (auto simp: http_handshake_def http_first_read_def write_reply_def Let_def
      split: if_splits prod.splits tribool.splits)

lemma multi_first_write_hands_on_bytes:
  "\<lbrakk>multi_first_write sha1 b64 mem d s = Some r; handed_on (snd r) = Some d'\<rbrakk> \<Longrightarrow> hs_bytes d' = hs_bytes d"
  by (auto simp: multi_first_write_def Let_def split: if_splits prod.splits ws_status.splits)

lemma ws_hands_on_bytes:
  "\<lbrakk>ws_handshake sha1 b64 mem accepts d s = Some r; handed_on (snd r) = Some d'\<rbrakk>
    \<Longrightarrow> hs_bytes d' = hs_bytes d"
  by (cases "tag d")
     (auto simp: ws_handshake_def do_custom_handshake_def dest: multi_first_write_hands_on_bytes
        split: if_splits)

lemma do_next_handshake_bytes:
  "do_next_handshake env i d = Inr d' \<Longrightarrow> hs_bytes d' = hs_bytes d"
  by (auto simp: do_next_handshake_def echo_defs dest: http_hands_on_bytes ws_hands_on_bytes
      split: if_splits option.splits)

interpretation echo_chain: protocol_chain "do_next_handshake env"
  by unfold_locales (rule do_next_handshake_bytes)

lemma chain_4: "on_handshake_fail t 4 d =
    (case t 3 d of Inl x \<Rightarrow> Taken 3 x | Inr d1 \<Rightarrow>
    (case t 2 d1 of Inl x \<Rightarrow> Taken 2 x | Inr d2 \<Rightarrow>
    (case t 1 d2 of Inl x \<Rightarrow> Taken 1 x | Inr d3 \<Rightarrow>
    (case t 0 d3 of Inl x \<Rightarrow> Taken 0 x | Inr d4 \<Rightarrow> Unable_to_connect d4))))"
  by (simp add: numeral_eq_Suc split: sum.split)

lemma guids_differ [simp]:
  "tcp_guid \<noteq> serialization_guid" "tcp_guid \<noteq> log_guid" "serialization_guid \<noteq> log_guid"
  "serialization_guid \<noteq> tcp_guid" "log_guid \<noteq> tcp_guid" "log_guid \<noteq> serialization_guid"
  by (simp_all add: tcp_guid_def serialization_guid_def log_guid_def)

text \<open>The last two links look only at the bytes.\<close>

lemma next_tcp:
  "do_next_handshake env 0 d =
     (if hs_bytes d = tcp_guid then Inl (Tcp_took (connected, [Async_read_some On_async_read_string]))
      else Inr d)"
  by (simp add: do_next_handshake_def echo_defs async_read_string_def after_step_def)

lemma next_serialization:
  "do_next_handshake env 1 d =
     (if hs_bytes d = serialization_guid then Inl (Serialization_took (connected, [Async_read_some On_read_header]))
      else Inr d)"
  by (simp add: do_next_handshake_def echo_defs ser_on_handshake_success_def ser_async_read_def after_step_def)

lemma next_log_guid:
  "do_next_handshake env 2 \<lparr>tag = Ws_guid, hs_bytes = g\<rparr> =
     (if g = log_guid then Inl (Log_took (log_connected, [On_handshake_success]))
      else Inr \<lparr>tag = Ws_guid, hs_bytes = g\<rparr>)"
  by (simp add: do_next_handshake_def echo_defs ws_handshake_def do_custom_handshake_def)

lemma next_http_guid:
  "do_next_handshake env 3 \<lparr>tag = Ws_guid, hs_bytes = g\<rparr> = Inr \<lparr>tag = Ws_guid, hs_bytes = g\<rparr>"
  by (simp add: do_next_handshake_def echo_defs http_handshake_def)

text \<open>Bytes that the request parser rejects at once.\<close>

lemma parse_brace:
  "Http_Parser.parse parser_init req (CHR ''{'' # cs) = (TFalse, Method_start, req, cs)"
  by (simp add: http_parser.parse_Cons parser_init_def bad_token_char_def char_test_defs)

lemma next_http_brace:
  assumes "str_find ws_key_text (CHR ''{'' # cs) = None"
  shows "do_next_handshake env 3 \<lparr>tag = Http, hs_bytes = CHR ''{'' # cs\<rparr> =
     Inr \<lparr>tag = Http, hs_bytes = CHR ''{'' # cs\<rparr>"
  using assms
  by (simp add: do_next_handshake_def echo_defs http_handshake_def http_first_read_def
      mk_http_session_def parse_brace Let_def)

lemma next_log_brace:
  "do_next_handshake env 2 \<lparr>tag = Http, hs_bytes = CHR ''{'' # cs\<rparr> =
     Inr \<lparr>tag = Http, hs_bytes = CHR ''{'' # cs\<rparr>"
  using parse_brace [unfolded parser_init_def]
  by (simp add: do_next_handshake_def echo_defs ws_handshake_def multi_first_write_def
      parse_upgrade_def rfc_parse_eq rfc_parser_init_def)

section \<open>The log sessions\<close>

text \<open>
  \<^verbatim>\<open>log_session_\<close>: the set of connected log sessions, by the address of the session, to
  which every line of the log is posted in the order of the set.
\<close>

definition log_insert :: "nat \<Rightarrow> bool \<Rightarrow> nat set \<Rightarrow> nat set" where
  "log_insert obj inserting sessions =
     (if inserting then insert obj sessions
      else if obj \<in> sessions then sessions - {obj} else sessions)"

text \<open>\<^verbatim>\<open>my_server::on_connect\<close>, the function a log session signals.\<close>

definition on_connect :: "nat \<Rightarrow> bool \<Rightarrow> nat set \<Rightarrow> nat set" where
  "on_connect obj connect sessions = log_insert obj connect sessions"

definition log_clear :: "nat set \<Rightarrow> nat set" where
  "log_clear sessions = {}"

definition log_broadcast :: "string \<Rightarrow> nat set \<Rightarrow> (nat \<times> string) list" where
  "log_broadcast msg sessions = map (\<lambda>obj. (obj, msg)) (sorted_list_of_set sessions)"

text \<open>
  What the logger's signal changes: the set stays, and a line is posted to each session that is
  in the set when the line is logged. The lines of a handler are logged one after the other
  while it runs, between its other effects.
\<close>

type_synonym log_state = "nat set \<times> (nat \<times> string) multiset"

definition log_line :: "string \<Rightarrow> log_state \<Rightarrow> log_state" where
  "log_line msg L = (fst L, snd L + mset (log_broadcast msg (fst L)))"

definition log_lines :: "string list \<Rightarrow> log_state \<Rightarrow> log_state" where
  "log_lines msgs L = fold log_line msgs L"

text \<open>What a posted line becomes in its session: a frame with a line break of HTML.\<close>

definition log_send ::
  "byte_order \<Rightarrow> 8 word list \<Rightarrow> string \<Rightarrow> 'a tcp_session_scheme \<Rightarrow> (ws_handler, 'a tcp_session_scheme) step" where
  "log_send ord raw msg s = ws_async_write ord raw (msg @ ''<br>'') s"

definition log_on_write_quiet ::
  "error_code \<times> error_code \<Rightarrow> error_code \<Rightarrow> 'a tcp_session_scheme \<Rightarrow> (ws_handler, 'a tcp_session_scheme) step" where
  "log_on_write_quiet os ec s = (if ec \<noteq> No_error then on_error os s else (s, []))"

section \<open>The echo messages\<close>

datatype message_identification = First | Client_echo_timed_id | Server_echo_timed_id | Last

fun message_code :: "message_identification \<Rightarrow> nat" where
  "message_code First = 0"
| "message_code Client_echo_timed_id = 1"
| "message_code Server_echo_timed_id = 2"
| "message_code Last = 3"

lemma message_code_inject [simp]: "message_code a = message_code b \<longleftrightarrow> a = b"
  by (cases a; cases b) simp_all

text \<open>Enumerators are ordered by their values, as in the assertion of \<^verbatim>\<open>get_id\<close>.\<close>

instantiation message_identification :: linorder
begin

definition less_eq_message_identification :: "message_identification \<Rightarrow> message_identification \<Rightarrow> bool" where
  "less_eq_message_identification a b \<longleftrightarrow> message_code a \<le> message_code b"

definition less_message_identification :: "message_identification \<Rightarrow> message_identification \<Rightarrow> bool" where
  "less_message_identification a b \<longleftrightarrow> message_code a < message_code b"

instance
  by standard (auto simp: less_eq_message_identification_def less_message_identification_def)

end

fun message_name :: "message_identification \<Rightarrow> string" where
  "message_name First = ''first''"
| "message_name Client_echo_timed_id = ''client_echo_timed''"
| "message_name Server_echo_timed_id = ''server_echo_timed''"
| "message_name Last = ''last''"

text \<open>The identifier of a received message; \<open>None\<close> is the failed assertion.\<close>

definition get_id :: "int \<Rightarrow> message_identification option" where
  "get_id n = find (\<lambda>i. int (message_code i) = n \<and> First < i \<and> i < Last)
     [Client_echo_timed_id, Server_echo_timed_id]"

datatype message =
    Client_echo_timed string "64 word"
  | Server_echo_timed string "64 word" "64 word"

fun message_id :: "message \<Rightarrow> message_identification" where
  "message_id (Client_echo_timed msg sent) = Client_echo_timed_id"
| "message_id (Server_echo_timed msg client_sent server_sent) = Server_echo_timed_id"

text \<open>
  \<^verbatim>\<open>msg_ptr\<close>, a \<^verbatim>\<open>boost::shared_ptr\<close> that may be null. Its \<^verbatim>\<open>operator->\<close> and \<^verbatim>\<open>operator*\<close>
  assert that it is not; without assertions using a null pointer is undefined.
\<close>

type_synonym msg_ptr = "message option"

definition null_dereferenced :: "bool \<Rightarrow> 'r outcome" where
  "null_dereferenced checked = (if checked then Assertion_failure else Undefined_behaviour)"

text \<open>
  \<^verbatim>\<open>my_serialization_session::on_read\<close>: a client message is answered with the text and its
  time stamp and the time \<open>now\<close> of the server; any other message fails the assertion, and is
  ignored where assertions are not compiled in (\<open>checked\<close>). The identifier of the message is
  asked for without a look at the pointer, which an archive of a client can make null.
\<close>

definition echo_on_read ::
  "bool \<Rightarrow> (msg_ptr \<Rightarrow> string) \<Rightarrow> error_code \<times> error_code \<Rightarrow> 64 word \<Rightarrow> msg_ptr \<Rightarrow> 'a tcp_session_scheme
     \<Rightarrow> (msg_ptr ser_handler, msg_ptr, 'a tcp_session_scheme) step_of outcome" where
  "echo_on_read checked save os now msg s =
     (case msg of
        None \<Rightarrow> null_dereferenced checked
      | Some (Client_echo_timed txt_ sent) \<Rightarrow>
          Returns (ser_async_write save os (Some (Server_echo_timed txt_ sent now)) s)
      | Some (Server_echo_timed _ _ _) \<Rightarrow> if checked then Assertion_failure else Returns (s, []))"

text \<open>\<^verbatim>\<open>my_tcp_session\<close>: the string is written back.\<close>

definition tcp_on_read_string :: "string \<Rightarrow> 'a tcp_session_scheme \<Rightarrow> (tcp_handler, 'a tcp_session_scheme) step" where
  "tcp_on_read_string msg s = Tcp_Session.async_write msg s"

section \<open>Preparing the HTML files\<close>

text \<open>
  The substitution of \<^verbatim>\<open>html_preprocess\<close>: the first occurrence of each placeholder is
  replaced, a missing one is an error.
\<close>

definition replace_placeholder :: "string \<Rightarrow> string \<Rightarrow> string \<Rightarrow> string option" where
  "replace_placeholder name val buffer =
     map_option (\<lambda>i. take i buffer @ c_str val @ drop (i + length name) buffer) (str_find name buffer)"

definition setup_html :: "string \<Rightarrow> string \<Rightarrow> string \<Rightarrow> string option" where
  "setup_html host port buffer =
     Option.bind (replace_placeholder ''value_of_hostName'' ([CHR 0x22] @ host @ [CHR 0x22]) buffer)
       (replace_placeholder ''value_of_portNumber'' port)"

text \<open>
  A client of another protocol is recognised by its first read: bytes that begin with a
  brace and are no upgrade request pass the WebSocket and HTTP sessions and reach the
  serialization or the TCP session exactly when they are that session's GUID and nothing
  more; otherwise the connection is given up.
\<close>

lemma first_bytes_brace:
  assumes "str_find ws_key_text (CHR ''{'' # cs) = None"
  shows "first_bytes env (CHR ''{'' # cs) =
     (if CHR ''{'' # cs = serialization_guid
      then Taken 1 (Serialization_took (connected, [Async_read_some On_read_header]))
      else if CHR ''{'' # cs = tcp_guid then Taken 0 (Tcp_took (connected, [Async_read_some On_async_read_string]))
      else Unable_to_connect \<lparr>tag = Http, hs_bytes = CHR ''{'' # cs\<rparr>)"
  using assms
  by (simp add: first_bytes_def multi_first_read_def ws_key_text_def [symmetric] protocol_count_def
      chain_4 next_http_brace next_log_brace next_serialization [unfolded One_nat_def] next_tcp)

section \<open>Which session gets a connection\<close>

text \<open>
  After an upgrade the GUID decides alone: the chain gives the connection to the log
  session, the serialization session or the TCP session whose GUID it is, byte for byte, and
  gives it up, with the bytes unchanged, for any other.
\<close>

lemma guid_selects_protocol:
  "on_handshake_fail (do_next_handshake env) (protocol_count - 1) \<lparr>tag = Ws_guid, hs_bytes = g\<rparr> =
     (if g = log_guid then Taken 2 (Log_took (log_connected, [On_handshake_success]))
      else if g = serialization_guid then Taken 1 (Serialization_took (connected, [Async_read_some On_read_header]))
      else if g = tcp_guid then Taken 0 (Tcp_took (connected, [Async_read_some On_async_read_string]))
      else Unable_to_connect \<lparr>tag = Ws_guid, hs_bytes = g\<rparr>)"
  by (simp add: protocol_count_def chain_4 next_http_guid next_log_guid next_serialization
      [unfolded One_nat_def] next_tcp)

text \<open>The HTTP session takes a request that arrives in one piece, and writes the answer.\<close>

lemma next_http_request:
  assumes "wf_request r" "str_find ws_key_text (print_request r) = None"
  shows "\<exists>s. do_next_handshake env 3 \<lparr>tag = Http, hs_bytes = print_request r\<rparr> =
     Inl (Http_took (s, [Async_write (concat (Http_Message.to_buffers
       (Request_Handler.handle_request (env_doc_root env) (env_fs env) r
          \<lparr>status = Ok, rep_headers = [], content = []\<rparr>))) Handle_write])) \<and> is_open s"
proof -
  have "Http_Parser.parse parser_init (mk_request (fst (env_mem env)) (snd (env_mem env)))
      (print_request r) = (TTrue, Expecting_newline_3, r, [])"
    using parse_print_request [OF assms(1), of "fst (env_mem env)" "snd (env_mem env)" "[]"] by simp
  with assms(2) show ?thesis
    by (simp add: do_next_handshake_def echo_defs http_handshake_def http_first_read_def
        mk_http_session_def write_reply_def Let_def)
qed

text \<open>
  Nothing a client sent first is lost on the way along the chain: when the server gives a
  connection up, and whatever the client sent, the data it logs are the bytes of the first
  read.
\<close>

lemma refused_bytes_unchanged:
  assumes "first_bytes env incoming = (Unable_to_connect d :: 'm taken chain_result)"
  shows "hs_bytes d = incoming"
proof -
  let ?r = "multi_first_read (env_sha1 env) (env_b64 env) (env_mem env) (env_os env) No_error
              incoming connected"
  obtain s es d0 where r: "?r = Some (s, es)" "handed_on es = Some d0"
    and c: "on_handshake_fail (do_next_handshake env) (protocol_count - 1) d0 =
      (Unable_to_connect d :: 'm taken chain_result)"
    using assms by (auto simp: first_bytes_def split: option.splits prod.splits)
  have "hs_bytes d0 = incoming"
    using r multi_first_write_hands_on_bytes
    by (fastforce simp: multi_first_read_def split: if_splits)
  with echo_chain.unable_bytes_kept [OF c] show ?thesis by simp
qed

end
