(* ===== verification/Event_Loop.thy ===== *)
theory Event_Loop
  imports Tcp_Session "HOL-Library.Multiset"
begin

text \<open>
  The handlers of a session as Asio runs them. A connection is the session object and the
  operations it has started; a step completes one of them, in any order, with an error or
  with data, and calls its handler. The calls of the derived class that the handlers of the
  library make are resolved by the functions of that class.

  Two locales are the contracts the properties of connections rest on: sessions that never
  have more than one operation pending, and sessions whose handlers can only run a bounded
  number of times.
\<close>

section \<open>Calls of the derived class\<close>

text \<open>
  The member functions of the derived class that the base classes call through
  \<^verbatim>\<open>cast_up()\<close>; \<open>None\<close> where an assertion fails.
\<close>

record ('h, 'm, 's) derived =
  call_on_read :: "'m \<Rightarrow> 's \<Rightarrow> ('h, 'm, 's) step_of option"
  call_on_success :: "'s \<Rightarrow> ('h, 'm, 's) step_of option"

definition and_after ::
  "('h, 'm, 's) step_of option \<Rightarrow> ('s \<Rightarrow> ('h, 'm, 's) step_of option) \<Rightarrow> ('h, 'm, 's) step_of option" where
  "and_after r f =
     (case r of
        None \<Rightarrow> None
      | Some (s, es) \<Rightarrow> (case f s of None \<Rightarrow> None | Some (s', es') \<Rightarrow> Some (s', es @ es')))"

text \<open>The effects of a base handler with its calls of the derived class carried out.\<close>

fun resolve ::
  "('h, 'm, 's) derived \<Rightarrow> 's \<Rightarrow> ('h, 'm) effect_of list \<Rightarrow> ('h, 'm, 's) step_of option" where
  "resolve d s [] = Some (s, [])"
| "resolve d s (On_read m # es) = and_after (call_on_read d m s) (\<lambda>s'. resolve d s' es)"
| "resolve d s (On_handshake_success # es) = and_after (call_on_success d s) (\<lambda>s'. resolve d s' es)"
| "resolve d s (e # es) = and_after (Some (s, [e])) (\<lambda>s'. resolve d s' es)"

definition resolved ::
  "('h, 'm, 's) derived \<Rightarrow> ('h, 'm, 's) step_of \<Rightarrow> ('h, 'm, 's) step_of option" where
  "resolved d r = resolve d (fst r) (snd r)"

lemma and_after_simps [simp]:
  "and_after None f = None"
  "and_after (Some (s, es)) f = (case f s of None \<Rightarrow> None | Some (s', es') \<Rightarrow> Some (s', es @ es'))"
  by (simp_all add: and_after_def)

section \<open>Connections\<close>

text \<open>Operations are the effects that Asio completes later.\<close>

fun operation :: "('h, 'm) effect_of \<Rightarrow> bool" where
  "operation (Async_read_some h) = True"
| "operation (Async_write msg h) = True"
| "operation e = False"

definition operations :: "('h, 'm) effect_of list \<Rightarrow> ('h, 'm) effect_of multiset" where
  "operations es = mset (filter operation es)"

lemma operations_simps [simp]:
  "operations [] = {#}"
  "operations (e # es) = (if operation e then add_mset e (operations es) else operations es)"
  "operations (es @ es') = operations es + operations es'"
  by (simp_all add: operations_def)

lemma operations_shutdown [simp]: "operations (snd (shutdown os s)) = {#}"
  by (simp add: shutdown_def)

text \<open>What was read, in order, and what was written, with the results.\<close>

record ('h, 'm, 's) connection =
  obj :: 's
  pending :: "('h, 'm) effect_of multiset"
  received :: "string list"
  written :: "(string \<times> error_code) list"

type_synonym ('h, 'm, 's) handling = "'h \<Rightarrow> error_code \<Rightarrow> string \<Rightarrow> 's \<Rightarrow> ('h, 'm, 's) step_of option"

text \<open>A shutdown makes no call that changes the connection.\<close>

lemma resolved_shutdown [simp]: "resolved d (shutdown os s) = Some (shutdown os s)"
  by (simp add: resolved_def shutdown_def)

lemma and_after_nothing [simp]: "and_after r (\<lambda>s'. Some (s', [])) = r"
  by (simp add: and_after_def split: option.splits)

lemma resolved_calls [simp]:
  "resolved d (s, [On_handshake_success]) = call_on_success d s"
  "resolved d (s, [On_read m]) = call_on_read d m s"
  by (simp_all add: resolved_def)

lemma resolved_operations [simp]:
  "resolved d (s, []) = Some (s, [])"
  "resolved d (s, [Async_read_some h]) = Some (s, [Async_read_some h])"
  "resolved d (s, [Async_write msg h]) = Some (s, [Async_write msg h])"
  "resolved d (s, [Handshake_fail data]) = Some (s, [Handshake_fail data])"
  by (simp_all add: resolved_def)

definition open_connection :: "('h, 'm, 's) step_of \<Rightarrow> ('h, 'm, 's) connection" where
  "open_connection r = \<lparr>obj = fst r, pending = operations (snd r), received = [], written = []\<rparr>"

text \<open>After the completion of \<open>p\<close>, whose handler gave \<open>r\<close>.\<close>

definition completed ::
  "('h, 'm) effect_of \<Rightarrow> ('h, 'm, 's) step_of \<Rightarrow> ('h, 'm, 's) connection \<Rightarrow> ('h, 'm, 's) connection" where
  "completed p r c = c\<lparr>obj := fst r, pending := pending c - {#p#} + operations (snd r)\<rparr>"

text \<open>
  The handlers hold the session: when the last one is done, it is destroyed, unless something
  else holds it, and its destructor closes the socket if it is still open.
\<close>

definition released ::
  "error_code \<times> error_code \<Rightarrow> ('h, 'm, 'a tcp_session_scheme) connection \<Rightarrow> ('h, 'm, 'a tcp_session_scheme) step_of" where
  "released os c = (if pending c = {#} then destructor os (obj c) else (obj c, []))"

lemma released_open [simp]: "is_open (fst (released os c)) \<longleftrightarrow> is_open (obj c) \<and> pending c \<noteq> {#}"
  by (simp add: released_def tcp_defs)

text \<open>
  The event loop. \<open>fits h bs\<close> says which data the read with handler \<open>h\<close> can bring: some bytes,
  no more than its buffer holds, or exactly as many as asked for. A handler that fails has no
  step; \<open>loop_fails\<close> is that case.
\<close>

inductive loop_step ::
  "('h \<Rightarrow> string \<Rightarrow> bool) \<Rightarrow> ('h, 'm, 's) handling \<Rightarrow> ('h, 'm, 's) connection \<Rightarrow> ('h, 'm, 's) connection \<Rightarrow> bool"
  for fits handle where
  Read_done: "\<lbrakk>Async_read_some h \<in># pending c; fits h bs; handle h No_error bs (obj c) = Some r\<rbrakk> \<Longrightarrow>
     loop_step fits handle c (completed (Async_read_some h) r (c\<lparr>received := received c @ [bs]\<rparr>))"
| Read_failed: "\<lbrakk>Async_read_some h \<in># pending c; ec \<noteq> No_error; handle h ec [] (obj c) = Some r\<rbrakk> \<Longrightarrow>
     loop_step fits handle c (completed (Async_read_some h) r c)"
| Write_done: "\<lbrakk>Async_write msg h \<in># pending c; handle h ec [] (obj c) = Some r\<rbrakk> \<Longrightarrow>
     loop_step fits handle c (completed (Async_write msg h) r (c\<lparr>written := written c @ [(msg, ec)]\<rparr>))"

inductive loop_fails ::
  "('h \<Rightarrow> string \<Rightarrow> bool) \<Rightarrow> ('h, 'm, 's) handling \<Rightarrow> ('h, 'm, 's) connection \<Rightarrow> bool"
  for fits handle where
  "\<lbrakk>Async_read_some h \<in># pending c; fits h bs; handle h No_error bs (obj c) = None\<rbrakk> \<Longrightarrow> loop_fails fits handle c"
| "\<lbrakk>Async_read_some h \<in># pending c; ec \<noteq> No_error; handle h ec [] (obj c) = None\<rbrakk> \<Longrightarrow> loop_fails fits handle c"
| "\<lbrakk>Async_write msg h \<in># pending c; handle h ec [] (obj c) = None\<rbrakk> \<Longrightarrow> loop_fails fits handle c"

abbreviation loop_steps ::
  "('h \<Rightarrow> string \<Rightarrow> bool) \<Rightarrow> ('h, 'm, 's) handling \<Rightarrow> ('h, 'm, 's) connection \<Rightarrow> ('h, 'm, 's) connection \<Rightarrow> bool" where
  "loop_steps fits handle \<equiv> (loop_step fits handle)\<^sup>*\<^sup>*"

text \<open>One read of \<^verbatim>\<open>async_read_some\<close> into the buffer of the library.\<close>

definition fits_buffer :: "'h \<Rightarrow> string \<Rightarrow> bool" where
  "fits_buffer h bs \<longleftrightarrow> bs \<noteq> [] \<and> length bs \<le> buffer_size"

text \<open>A step in the form the proofs use: which operation was completed, and with which result.\<close>

lemma loop_step_elim:
  assumes "loop_step fits handle c c'"
  obtains p h ec bs r where "p \<in># pending c" "p = Async_read_some h \<or> (\<exists>msg. p = Async_write msg h)"
    "handle h ec bs (obj c) = Some r" "obj c' = fst r"
    "pending c' = pending c - {#p#} + operations (snd r)"
    "p = Async_read_some h \<and> ec = No_error \<longrightarrow> fits h bs"
  using assms by cases (auto simp: completed_def intro: that)

text \<open>An invariant of the steps holds in every reachable state.\<close>

lemma loop_steps_inv:
  assumes "loop_steps fits handle c c'" "P c"
    and "\<And>c c'. \<lbrakk>P c; loop_step fits handle c c'\<rbrakk> \<Longrightarrow> P c'"
  shows "P c'"
  using assms(1,2) by (induction rule: rtranclp_induct) (auto intro: assms(3))

section \<open>Sessions with one operation at a time\<close>

text \<open>
  The contract of a session that keeps one operation pending: each handler starts at most
  one. Such a session never runs two writes at once, which Asio forbids on one socket.
\<close>

locale one_operation =
  fixes handle :: "('h, 'm, 's) handling"
  assumes starts_one: "handle h ec bs s = Some r \<Longrightarrow> size (operations (snd r)) \<le> 1"
begin

lemma step_size: "loop_step fits handle c c' \<Longrightarrow> size (pending c') \<le> size (pending c)"
  by (elim loop_step_elim)
     (auto simp: size_Diff_singleton dest!: starts_one multi_member_split)

lemma reachable_size: "loop_steps fits handle c c' \<Longrightarrow> size (pending c') \<le> size (pending c)"
  by (induction rule: rtranclp_induct) (auto dest: step_size)

end

section \<open>Sessions that come to an end\<close>

text \<open>
  The contract of a session whose handlers run a bounded number of times: what a handler of
  some rank starts has, all together, less weight than the rank.
\<close>

fun op_weight :: "('h \<Rightarrow> nat) \<Rightarrow> ('h, 'm) effect_of \<Rightarrow> nat" where
  "op_weight rank (Async_read_some h) = Suc (rank h)"
| "op_weight rank (Async_write msg h) = Suc (rank h)"
| "op_weight rank e = 0"

definition weight :: "('h \<Rightarrow> nat) \<Rightarrow> ('h, 'm) effect_of multiset \<Rightarrow> nat" where
  "weight rank ops = sum_mset (image_mset (op_weight rank) ops)"

text \<open>What is pending are operations, each of which counts.\<close>

lemma operation_in_operations: "p \<in># operations es \<Longrightarrow> operation p"
  by (auto simp: operations_def)

lemma loop_step_operations:
  "\<lbrakk>loop_step fits handle c c'; \<forall>p\<in>#pending c. operation p\<rbrakk> \<Longrightarrow> \<forall>p\<in>#pending c'. operation p"
  by (elim loop_step_elim) (auto dest: operation_in_operations dest!: in_diffD)

lemma loop_run_operations:
  "\<lbrakk>(loop_step fits handle ^^ n) c c'; \<forall>p\<in>#pending c. operation p\<rbrakk> \<Longrightarrow> \<forall>p\<in>#pending c'. operation p"
proof (induction n arbitrary: c')
  case (Suc n)
  then obtain d where d: "(loop_step fits handle ^^ n) c d" "loop_step fits handle d c'" by auto
  from loop_step_operations [OF d(2) Suc.IH [OF d(1) Suc.prems(2)]] show ?case .
qed simp

lemma size_le_weight: "\<forall>p\<in>#ops. operation p \<Longrightarrow> size ops \<le> weight rank ops"
proof (induction ops)
  case (add p ops)
  then have "1 \<le> op_weight rank p" by (cases p) auto
  with add show ?case by (simp add: weight_def)
qed simp

locale bounded_handlers =
  fixes handle :: "('h, 'm, 's) handling" and rank :: "'h \<Rightarrow> nat"
  assumes decreases: "handle h ec bs s = Some r \<Longrightarrow> weight rank (operations (snd r)) \<le> rank h"
begin

lemma step_weight: "loop_step fits handle c c' \<Longrightarrow> weight rank (pending c') < weight rank (pending c)"
  by (elim loop_step_elim)
     (auto simp: weight_def le_imp_less_Suc dest!: decreases multi_member_split)

lemma run_weight:
  "(loop_step fits handle ^^ n) c c' \<Longrightarrow> n + weight rank (pending c') \<le> weight rank (pending c)"
proof (induction n arbitrary: c')
  case (Suc n)
  then obtain d where "(loop_step fits handle ^^ n) c d" "loop_step fits handle d c'" by auto
  with Suc.IH [of d] step_weight [of fits d c'] show ?case by simp
qed simp

lemma run_bounded:
  assumes "(loop_step fits handle ^^ n) c c'" "\<forall>p\<in>#pending c. operation p"
  shows "n + size (pending c') \<le> weight rank (pending c)"
  using run_weight [OF assms(1)] size_le_weight [OF loop_run_operations [OF assms], of rank] by simp

lemma terminates: "wfp (\<lambda>c' c. loop_step fits handle c c')"
  by (rule wfp_if_convertible_to_nat [of _ "\<lambda>c. weight rank (pending c)"]) (rule step_weight)

end

end
