(* ===== verification/Ws_Echo.thy ===== *)
theory Ws_Echo
  imports Ws_Session Event_Loop
begin

text \<open>
  \<^verbatim>\<open>examples/mono_protocol_echo/echo_ws_server\<close>: a mono protocol server of WebSocket sessions
  that write every message back. A connection is run by the event loop from its first read,
  through the handshake, to the frames: no handler can fail, there is never more than one
  read pending, but nothing bounds the number of writes.
\<close>

section \<open>The sessions\<close>

text \<open>\<^verbatim>\<open>on_socket_connected\<close> of the base class, and \<^verbatim>\<open>on_read\<close> of \<^verbatim>\<open>my_session\<close>.\<close>

definition ws_on_socket_connected :: "'a tcp_session_scheme \<Rightarrow> (ws_handler, 'a tcp_session_scheme) step" where
  "ws_on_socket_connected s = (s, [Async_read_some On_mono_first_read])"

definition ws_echo_on_read ::
  "byte_order \<Rightarrow> 8 word list \<Rightarrow> string \<Rightarrow> 'a tcp_session_scheme \<Rightarrow> (ws_handler, 'a tcp_session_scheme) step" where
  "ws_echo_on_read ord raw df s = ws_async_write ord raw df s"

text \<open>
  The handlers of a session of a mono protocol server, for any derived class. \<open>mem\<close> and \<open>raw\<close>
  are the memory the handler finds in its request and in its frame, new ones in each call.
\<close>

record ws_env =
  ws_sha1 :: sha1_digest
  ws_b64 :: base64_iterators
  ws_order :: byte_order
  ws_os :: "error_code \<times> error_code"

type_synonym 'a ws_derived = "(ws_handler, string, 'a tcp_session_scheme) derived"

definition ws_mono_handle ::
  "ws_env \<Rightarrow> 32 word \<times> 32 word \<Rightarrow> 8 word list \<Rightarrow> 'a ws_derived
     \<Rightarrow> (ws_handler, string, 'a tcp_session_scheme) handling" where
  "ws_mono_handle env mem raw d h ec bs s =
     (case h of
        On_mono_first_read \<Rightarrow>
          Option.bind (mono_first_read (ws_sha1 env) (ws_b64 env) mem (ws_os env) ec bs s) (resolved d)
      | On_mono_second_read reply \<Rightarrow> resolved d (mono_second_read (ws_os env) reply ec s)
      | On_read_dataframe st \<Rightarrow>
          resolved d (on_read_dataframe (ws_order env) raw (ws_os env) st ec bs s)
      | On_write_dataframe df \<Rightarrow> resolved d (on_write_dataframe (ws_os env) ec s)
      | On_multi_first_read \<Rightarrow> None
      | On_multi_second_read reply \<Rightarrow> None
      | On_guid_read st \<Rightarrow> None)"

text \<open>The steps of a connection, and the states in which a handler can fail.\<close>

definition ws_step ::
  "ws_env \<Rightarrow> (8 word list \<Rightarrow> 'a ws_derived) \<Rightarrow> (ws_handler, string, 'a tcp_session_scheme) connection
     \<Rightarrow> (ws_handler, string, 'a tcp_session_scheme) connection \<Rightarrow> bool" where
  "ws_step env d c c' \<longleftrightarrow>
     (\<exists>mem raw. length raw = 4 \<and> loop_step fits_buffer (ws_mono_handle env mem raw (d raw)) c c')"

definition ws_fails ::
  "ws_env \<Rightarrow> (8 word list \<Rightarrow> 'a ws_derived) \<Rightarrow> (ws_handler, string, 'a tcp_session_scheme) connection \<Rightarrow> bool" where
  "ws_fails env d c \<longleftrightarrow>
     (\<exists>mem raw. length raw = 4 \<and> loop_fails fits_buffer (ws_mono_handle env mem raw (d raw)) c)"

definition ws_start :: "'a tcp_session_scheme \<Rightarrow> (ws_handler, string, 'a tcp_session_scheme) connection" where
  "ws_start s = open_connection (ws_on_socket_connected s)"

text \<open>\<^verbatim>\<open>my_session\<close> overrides only \<^verbatim>\<open>on_read\<close>.\<close>

definition ws_echo_derived :: "byte_order \<Rightarrow> 8 word list \<Rightarrow> 'a ws_derived" where
  "ws_echo_derived ord raw =
     \<lparr>call_on_read = \<lambda>m s. Some (ws_echo_on_read ord raw m s),
      call_on_success = \<lambda>s. Some (ws_on_handshake_success s)\<rparr>"

section \<open>The handlers together\<close>

text \<open>The handlers of a mono protocol session, and its operations: one read or one reply at a time.\<close>

fun mono_op :: "(ws_handler, 'm) effect_of \<Rightarrow> bool" where
  "mono_op (Async_read_some On_mono_first_read) = True"
| "mono_op (Async_read_some (On_read_dataframe st)) = True"
| "mono_op (Async_write msg (On_mono_second_read reply)) = True"
| "mono_op (Async_write msg (On_write_dataframe df)) = True"
| "mono_op e = False"

fun reading_op :: "(ws_handler, 'm) effect_of \<Rightarrow> bool" where
  "reading_op (Async_read_some h) = True"
| "reading_op (Async_write msg (On_mono_second_read reply)) = True"
| "reading_op e = False"

lemma read_next_frame_op [simp]:
  "operation read_next_frame" "mono_op read_next_frame" "reading_op read_next_frame"
  by (simp_all add: read_next_frame_def)

abbreviation reads_of :: "(ws_handler, 'm) effect_of multiset \<Rightarrow> nat" where
  "reads_of ops \<equiv> size (filter_mset reading_op ops)"

text \<open>The invariant of all connections: only these operations, and one of them that reads.\<close>

definition connection_inv :: "(ws_handler, string, 'a tcp_session_scheme) connection \<Rightarrow> bool" where
  "connection_inv c \<longleftrightarrow> (\<forall>p\<in>#pending c. mono_op p) \<and> reads_of (pending c) \<le> 1"

text \<open>
  The contract of a derived class: what it does with a message starts nothing but writes of
  frames, and when the handshake is done it starts at most one read.
\<close>

locale ws_application =
  fixes d :: "8 word list \<Rightarrow> 'a ws_derived"
  assumes on_read_writes: "\<lbrakk>call_on_read (d raw) m s = Some r; p \<in># operations (snd r)\<rbrakk>
      \<Longrightarrow> \<exists>msg df. p = Async_write msg (On_write_dataframe df)"
    and on_success_reads: "call_on_success (d raw) s = Some r
      \<Longrightarrow> (\<forall>p\<in>#operations (snd r). mono_op p) \<and> reads_of (operations (snd r)) \<le> 1"
begin

lemma resolved_next [simp]: "resolved (d raw) (s, [read_next_frame]) = Some (s, [read_next_frame])"
  by (simp add: read_next_frame_def)

lemma resolved_read:
  assumes "resolved (d raw) (s, [On_read m, read_next_frame]) = Some r"
  shows "(\<forall>p\<in>#operations (snd r). mono_op p) \<and> reads_of (operations (snd r)) = 1"
proof -
  obtain s' es where m: "call_on_read (d raw) m s = Some (s', es)" "snd r = es @ [read_next_frame]"
    using assms by (cases "call_on_read (d raw) m s") (auto simp: resolved_def read_next_frame_def)
  have w: "\<exists>msg df. p = Async_write msg (On_write_dataframe df)" if "p \<in># operations es" for p
    using on_read_writes [OF m(1)] that by auto
  then have "filter_mset reading_op (operations es) = {#}"
    by (fastforce simp: filter_mset_eq_mempty_iff)
  moreover have "\<forall>p\<in>#operations es. mono_op p" using w by fastforce
  ultimately show ?thesis by (simp add: m(2) read_next_frame_def)
qed

lemma handler_operations:
  assumes "ws_mono_handle env mem raw (d raw) h ec bs s = Some r"
  shows "(\<forall>p\<in>#operations (snd r). mono_op p) \<and>
     reads_of (operations (snd r)) \<le> (case h of On_write_dataframe df \<Rightarrow> 0 | _ \<Rightarrow> 1)"
proof (cases h)
  case On_mono_first_read
  with assms show ?thesis
    by (auto simp: ws_mono_handle_def mono_first_read_def mono_first_write_def Let_def
        on_error_code_def on_error_def
        split: if_splits prod.splits ws_status.splits bind_splits)
next
  case (On_read_dataframe st)
  from On_read_dataframe assms resolved_read show ?thesis
    by (auto simp: ws_mono_handle_def on_read_dataframe_def on_read_data_frame_def
        on_error_code_def on_error_def
        split: if_splits prod.splits tribool.splits operation_code.splits)
qed (use assms on_success_reads in \<open>auto simp: ws_mono_handle_def mono_second_read_def
      on_write_dataframe_def on_error_code_def on_error_def on_bad_request_def
      split: if_splits ws_status.splits\<close>)

lemma connection_inv_step:
  assumes "connection_inv c" "ws_step env d c c'"
  shows "connection_inv c'"
proof -
  obtain mem raw where "loop_step fits_buffer (ws_mono_handle env mem raw (d raw)) c c'"
    using assms(2) by (auto simp: ws_step_def)
  then show ?thesis
  proof (elim loop_step_elim)
    fix p h ec bs r
    assume p: "p \<in># pending c" "p = Async_read_some h \<or> (\<exists>msg. p = Async_write msg h)"
      and r: "ws_mono_handle env mem raw (d raw) h ec bs (obj c) = Some r"
      and c': "pending c' = pending c - {#p#} + operations (snd r)"
    obtain rest where rest: "pending c = add_mset p rest" using p(1) by (auto dest: multi_member_split)
    note ops = handler_operations [OF r]
    have le: "reads_of (operations (snd r)) \<le> 1" using ops by (cases h) (auto simp del: filter_mset_eq_mempty_iff)
    have "mono_op p" "reads_of (pending c) \<le> 1" "\<forall>p\<in>#rest. mono_op p"
      using assms(1) rest by (auto simp: connection_inv_def)
    moreover have "reading_op p \<or> (\<exists>df. h = On_write_dataframe df)"
      using p(2) \<open>mono_op p\<close> by (cases h) auto
    ultimately have "reads_of rest + reads_of (operations (snd r)) \<le> 1"
      using ops le by (cases "reading_op p") (auto simp: rest simp del: filter_mset_eq_mempty_iff)
    with ops \<open>\<forall>p\<in>#rest. mono_op p\<close> show ?thesis by (auto simp: connection_inv_def c' rest)
  qed
qed

lemma connection_inv_reachable:
  assumes "(ws_step env d)\<^sup>*\<^sup>* c c'" "connection_inv c"
  shows "connection_inv c'"
  using assms by (induction rule: rtranclp_induct) (auto intro: connection_inv_step)

lemma connection_inv_start: "connection_inv (ws_start s)"
  by (simp add: connection_inv_def ws_start_def open_connection_def ws_on_socket_connected_def)

text \<open>A handler of these connections fails only where a function of the derived class does.\<close>

lemma resolve_total:
  assumes "\<And>m s. call_on_read (d raw) m s \<noteq> None" "\<And>s. call_on_success (d raw) s \<noteq> None"
  shows "resolve (d raw) s es \<noteq> None"
proof (induction es arbitrary: s)
  case (Cons e es)
  then show ?case
    using assms
    by (cases e; simp add: and_after_def split: option.splits) (metis option.distinct(1) surj_pair)+
qed simp

lemma never_fails_if:
  assumes "connection_inv c"
    and "\<And>raw m s. call_on_read (d raw) m s \<noteq> None" "\<And>raw s. call_on_success (d raw) s \<noteq> None"
  shows "\<not> ws_fails env d c"
proof
  have resolve: "resolve (d raw) s es \<noteq> None" for raw s es
    using assms(2,3) by (intro resolve_total) simp_all
  have total: "ws_mono_handle env mem raw (d raw) h ec bs s \<noteq> None"
    if "p = Async_read_some h \<or> (\<exists>msg. p = Async_write msg h)" "mono_op p" for p mem raw h ec bs s
  proof (cases h)
    case On_mono_first_read
    obtain r' where "mono_first_read (ws_sha1 env) (ws_b64 env) mem (ws_os env) ec bs s = Some r'"
      using mono_first_read_not_None by blast
    with resolve show ?thesis by (simp add: On_mono_first_read ws_mono_handle_def resolved_def)
  qed (use that resolve in \<open>auto simp: ws_mono_handle_def resolved_def simp del: not_None_eq\<close>)
  assume "ws_fails env d c"
  then obtain mem raw where "loop_fails fits_buffer (ws_mono_handle env mem raw (d raw)) c"
    by (auto simp: ws_fails_def)
  moreover have "ws_mono_handle env mem raw (d raw) h ec bs s \<noteq> None"
    if "Async_read_some h \<in># pending c" for h ec bs s
    using that assms(1) total unfolding connection_inv_def by blast
  moreover have "ws_mono_handle env mem raw (d raw) h ec bs s \<noteq> None"
    if "Async_write msg h \<in># pending c" for h ec bs s msg
    using that assms(1) total unfolding connection_inv_def by blast
  ultimately show False by (blast elim!: loop_fails.cases)
qed

end

text \<open>A derived class whose functions never fail, as opposed to one that asserts something.\<close>

locale total_ws_application = ws_application +
  assumes on_read_total: "call_on_read (d raw) m s \<noteq> None"
    and on_success_total: "call_on_success (d raw) s \<noteq> None"
begin

lemma never_fails: "connection_inv c \<Longrightarrow> \<not> ws_fails env d c"
  by (rule never_fails_if) (use on_read_total on_success_total in simp_all)

end

interpretation ws_echo: total_ws_application "ws_echo_derived ord"
  by unfold_locales
     (auto simp: ws_echo_derived_def ws_echo_on_read_def ws_async_write_def
        ws_on_handshake_success_def read_next_frame_def split: prod.splits)

section \<open>Steps of the echo\<close>

lemma ws_echo_read:
  assumes "ok_message m" "length (cm_text m) \<noteq> 65536" "ws_order env = Little"
  shows "ws_mono_handle env mem (cm_raw m) (ws_echo_derived Little (cm_raw m))
      (On_read_dataframe frame_parser_init) No_error (snd (message_read m)) s =
    Some (s, [Async_write (text_frame (cm_text m)) (On_write_dataframe (sent_frame Little (cm_raw m) (cm_text m))),
      read_next_frame])"
  using on_read_message [OF assms(1), of "ws_os env" s] assms(2,3)
  by (simp add: ws_mono_handle_def resolved_def ws_echo_derived_def ws_echo_on_read_def
      ws_async_write_text read_next_frame_def del: rfc_frame.simps)

text \<open>The answers that are on their way after some messages.\<close>

definition answers :: "client_message list \<Rightarrow> (ws_handler, string) effect_of multiset" where
  "answers ms = mset (map (\<lambda>m. Async_write (text_frame (cm_text m))
     (On_write_dataframe (sent_frame Little (cm_raw m) (cm_text m)))) ms)"

lemma ws_echo_reads:
  assumes "ws_order env = Little" "pending c = add_mset read_next_frame ops"
    and "\<forall>m\<in>set ms. ok_message m \<and> length (snd (message_read m)) \<le> buffer_size"
  shows "\<exists>c'. (ws_step env (ws_echo_derived Little))\<^sup>*\<^sup>* c c' \<and> obj c' = obj c \<and> written c' = written c \<and>
     received c' = received c @ map (snd \<circ> message_read) ms \<and>
     pending c' = add_mset read_next_frame (ops + answers ms)"
  using assms(2,3)
proof (induction ms arbitrary: c ops)
  case Nil
  then show ?case by (auto simp: answers_def)
next
  case (Cons m ms)
  let ?w = "Async_write (text_frame (cm_text m)) (On_write_dataframe (sent_frame Little (cm_raw m) (cm_text m)))"
  let ?c = "completed read_next_frame (obj c, [?w, read_next_frame])
      (c\<lparr>received := received c @ [snd (message_read m)]\<rparr>)"
  have m: "ok_message m" "length (snd (message_read m)) \<le> buffer_size" using Cons.prems(2) by auto
  have short: "length (cm_text m) \<noteq> 65536" using m(2) by (simp add: message_read_def buffer_size_def)
  have raw: "length (cm_raw m) = 4" using m(1) by (simp add: ok_message_def)
  have fits: "fits_buffer h (snd (message_read m))" for h :: ws_handler
    using m(2) by (simp add: fits_buffer_def message_read_def)
  have "loop_step fits_buffer (ws_mono_handle env mem (cm_raw m) (ws_echo_derived Little (cm_raw m))) c ?c"
    for mem
    using Read_done [where h = "On_read_dataframe frame_parser_init" and fits = fits_buffer and c = c
        and bs = "snd (message_read m)" and r = "(obj c, [?w, read_next_frame])"
        and handle = "ws_mono_handle env mem (cm_raw m) (ws_echo_derived Little (cm_raw m))"]
      fits ws_echo_read [OF m(1) short assms(1), of mem "obj c"]
    by (simp add: Cons.prems(1) read_next_frame_def del: rfc_frame.simps)
  then have "ws_step env (ws_echo_derived Little) c ?c"
    using raw unfolding ws_step_def by blast
  moreover have "pending ?c = add_mset read_next_frame (add_mset ?w ops)"
    by (simp add: completed_def Cons.prems(1))
  from Cons.IH [OF this] Cons.prems(2) obtain c' where
    "(ws_step env (ws_echo_derived Little))\<^sup>*\<^sup>* ?c c'" "obj c' = obj ?c" "written c' = written ?c"
    "received c' = received ?c @ map (snd \<circ> message_read) ms"
    "pending c' = add_mset read_next_frame (add_mset ?w ops + answers ms)" by auto
  ultimately show ?case
    by (intro exI [of _ c']) (auto simp: completed_def answers_def intro: converse_rtranclp_into_rtranclp)
qed

text \<open>The handshake of a mono protocol server, up to the first read of a frame.\<close>

lemma ws_mono_handshake:
  assumes "wf_request r" "h \<in> set (req_headers r)" "hname h = ''Sec-WebSocket-Key''"
    and "length (print_request r) \<le> buffer_size"
    and success: "\<And>raw s. call_on_success (d raw) s = Some (ws_on_handshake_success s)"
  shows "\<exists>c. (ws_step env d)\<^sup>*\<^sup>* (ws_start s) c \<and> obj c = s \<and>
     received c = [print_request r] \<and> pending c = {#read_next_frame#} \<and>
     written c = [(concat (the (ws_to_buffers (ws_handle_request (ws_sha1 env) (ws_b64 env) r))), No_error)]"
proof -
  let ?reply = "ws_handle_request (ws_sha1 env) (ws_b64 env) r"
  let ?w = "concat (the (ws_to_buffers ?reply))"
  let ?handle = "ws_mono_handle env (0, 0) [0, 0, 0, 0] (d [0, 0, 0, 0])"
  let ?c0 = "ws_start s :: (ws_handler, string, 'a tcp_session_scheme) connection"
  let ?c1 = "completed (Async_read_some On_mono_first_read) (s, [Async_write ?w (On_mono_second_read ?reply)])
      (?c0\<lparr>received := received ?c0 @ [print_request r]\<rparr>)"
  let ?c2 = "completed (Async_write ?w (On_mono_second_read ?reply)) (s, [read_next_frame])
      (?c1\<lparr>written := written ?c1 @ [(?w, No_error)]\<rparr>)"
  have c0: "pending ?c0 = {#Async_read_some On_mono_first_read#}" "obj ?c0 = s" "received ?c0 = []"
    "written ?c0 = []"
    by (simp_all add: ws_start_def open_connection_def ws_on_socket_connected_def)
  have status: "ws_status ?reply = Switching_protocols"
    using assms(2,3) by (auto simp: ws_handle_request_status)
  then obtain bufs where bufs: "ws_to_buffers ?reply = Some bufs"
    using ws_handle_request_buffers [of "ws_sha1 env" "ws_b64 env" r] by blast
  have "print_request r \<noteq> []" by (simp add: print_request_def)
  then have s1: "loop_step fits_buffer ?handle ?c0 ?c1"
    using assms(4) parse_upgrade_whole [OF assms(1), of "(0, 0)"] status bufs
    by (intro Read_done) (simp_all add: c0 fits_buffer_def ws_mono_handle_def mono_first_read_def
        mono_first_write_def Let_def)
  have s2: "loop_step fits_buffer ?handle ?c1 ?c2"
    using status
    by (intro Write_done) (simp_all add: c0 completed_def ws_mono_handle_def mono_second_read_def
        success ws_on_handshake_success_def)
  have lift: "ws_step env d c c'" if "loop_step fits_buffer ?handle c c'" for c c'
    unfolding ws_step_def using that by (intro exI [of _ "(0, 0)"] exI [of _ "[0, 0, 0, 0]"] conjI) simp_all
  have "(ws_step env d)\<^sup>*\<^sup>* ?c0 ?c2"
    using lift [OF s1] lift [OF s2] by (rule converse_rtranclp_into_rtranclp [OF _ r_into_rtranclp])
  then show ?thesis by (intro exI [of _ ?c2]) (simp add: completed_def c0)
qed

text \<open>For instance with a request whose key is one character.\<close>

lemma sample_upgrade:
  "\<lparr>hname = ''Sec-WebSocket-Key'', hvalue = ''x''\<rparr> \<in> set (req_headers upgrade_request)"
  "length (print_request upgrade_request) \<le> buffer_size"
  by (simp add: upgrade_request_def) (simp add: print_upgrade_request buffer_size_def crlf_def)

lemma upgrade_handshake:
  assumes "\<And>raw s. call_on_success (d raw) s = Some (ws_on_handshake_success s)"
  shows "\<exists>c. (ws_step env d)\<^sup>*\<^sup>* (ws_start s) c \<and> obj c = s \<and> pending c = {#read_next_frame#}"
  using ws_mono_handshake [OF wf_upgrade_request sample_upgrade(1) _ sample_upgrade(2) assms] by fastforce

section \<open>Properties\<close>

text \<open>
  C20. The WebSocket echo server answers every message with a frame of the same text, but it
  does not wait for one answer to be sent before it starts the next: after the upgrade
  and any number of messages, each in its own read, all the answers can be pending at the
  same time, in a multiset without order. Asio allows only one write at a time on a socket.
\<close>

theorem ws_echo_overlapping_writes:
  assumes "wf_request r" "h \<in> set (req_headers r)" "hname h = ''Sec-WebSocket-Key''"
    and "length (print_request r) \<le> buffer_size" "ws_order env = Little"
    and "\<forall>m\<in>set ms. ok_message m \<and> length (snd (message_read m)) \<le> buffer_size"
  shows "\<exists>c. (ws_step env (ws_echo_derived Little))\<^sup>*\<^sup>* (ws_start s) c \<and>
     received c = print_request r # map (snd \<circ> message_read) ms \<and>
     pending c = add_mset read_next_frame (answers ms) \<and> size (answers ms) = length ms"
proof -
  obtain c where c: "(ws_step env (ws_echo_derived Little))\<^sup>*\<^sup>* (ws_start s) c"
    "received c = [print_request r]" "pending c = add_mset read_next_frame {#}"
    using ws_mono_handshake [where d = "ws_echo_derived Little", OF assms(1-4)] by (auto simp: ws_echo_derived_def)
  obtain c' where "(ws_step env (ws_echo_derived Little))\<^sup>*\<^sup>* c c'"
    "received c' = received c @ map (snd \<circ> message_read) ms"
    "pending c' = add_mset read_next_frame ({#} + answers ms)"
    using ws_echo_reads [OF assms(5) c(3) assms(6)] by blast
  with c show ?thesis by (intro exI [of _ c']) (auto simp: answers_def intro: rtranclp_trans)
qed

theorem ws_echo_overlapping_writes_witness:
  "\<exists>c. (ws_step \<lparr>ws_sha1 = \<lambda>_. [], ws_b64 = sample_b64, ws_order = Little, ws_os = (No_error, No_error)\<rparr>
       (ws_echo_derived Little))\<^sup>*\<^sup>* (ws_start \<lparr>is_open = True\<rparr>) c \<and> size (pending c) = 3"
proof -
  let ?m = "\<lparr>cm_raw = [1, 1, 1, 1], cm_fin = True, cm_key = [1, 2, 3, 4], cm_text = ''hi'', cm_later = []\<rparr>"
  have ms: "\<forall>m\<in>set [?m, ?m]. ok_message m \<and> length (snd (message_read m)) \<le> buffer_size"
    by (simp add: ok_message_def message_read_def buffer_size_def rfc_length_def)
  from ws_echo_overlapping_writes [OF wf_upgrade_request sample_upgrade(1) _ sample_upgrade(2) _ ms, where s = "\<lparr>is_open = True\<rparr>"
      and env = "\<lparr>ws_sha1 = \<lambda>_. [], ws_b64 = sample_b64, ws_order = Little, ws_os = (No_error, No_error)\<rparr>"]
  show ?thesis by auto
qed

end
