(* ===== verification/Property_Tree.thy ===== *)
theory Property_Tree
  imports Main "HOL-Library.Word"
begin

text \<open>
  What the JSON messages of the examples use of \<^verbatim>\<open>boost::property_tree\<close>. A tree that was
  read is known by the answers to its \<^verbatim>\<open>get<T>(key)\<close> calls, \<open>None\<close> where they throw; a tree
  that is written is the list of the fields that were added, in their order. The functions
  \<^verbatim>\<open>read_json\<close> and \<^verbatim>\<open>write_json\<close> themselves are parameters of the model.
\<close>

record ptree =
  get_uint8 :: "string \<Rightarrow> 8 word option"
  get_int8 :: "string \<Rightarrow> 8 word option"
  get_int64 :: "string \<Rightarrow> 64 word option"
  get_uint32 :: "string \<Rightarrow> 32 word option"
  get_string :: "string \<Rightarrow> string option"

datatype field =
    Int8 "8 word"
  | Int64 "64 word"
  | Text string
  | Texts "string list"

type_synonym fields = "(string \<times> field) list"

text \<open>
  How the handling of a message can end: with a value, with one of the exceptions, with a
  failed assertion, or outside the string an iterator belongs to.
\<close>

datatype json_error = Ptree_error | Assertion_error | Out_of_string | Filesystem_error

type_synonym 'a attempt = "json_error + 'a"

fun and_then :: "'a attempt \<Rightarrow> ('a \<Rightarrow> 'b attempt) \<Rightarrow> 'b attempt" where
  "and_then (Inl e) f = Inl e"
| "and_then (Inr x) f = f x"

text \<open>A call of \<^verbatim>\<open>get\<close> or of \<^verbatim>\<open>read_json\<close>: without a value it throws a \<^verbatim>\<open>ptree_error\<close>.\<close>

fun fetch :: "'a option \<Rightarrow> 'a attempt" where
  "fetch None = Inl Ptree_error"
| "fetch (Some x) = Inr x"

text \<open>\<^verbatim>\<open>BOOST_ASSERT\<close>, when it is compiled in.\<close>

definition boost_assert :: "bool \<Rightarrow> bool attempt \<Rightarrow> unit attempt" where
  "boost_assert checked condition =
     (if checked then and_then condition (\<lambda>b. if b then Inr () else Inl Assertion_error) else Inr ())"

lemma and_then_Inr_iff: "and_then r f = Inr y \<longleftrightarrow> (\<exists>x. r = Inr x \<and> f x = Inr y)"
  by (cases r) auto

lemma and_then_Inl_iff: "and_then r f = Inl e \<longleftrightarrow> r = Inl e \<or> (\<exists>x. r = Inr x \<and> f x = Inl e)"
  by (cases r) auto

lemma fetch_Inr_iff [simp]: "fetch r = Inr x \<longleftrightarrow> r = Some x"
  by (cases r) auto

lemma fetch_Inl_iff [simp]: "fetch r = Inl e \<longleftrightarrow> r = None \<and> e = Ptree_error"
  by (cases r) auto

text \<open>A failure that a \<^verbatim>\<open>catch(ptree_error&)\<close> does not stop.\<close>

definition uncaught :: "'a attempt \<Rightarrow> bool" where
  "uncaught r \<longleftrightarrow> (case r of Inl e \<Rightarrow> e \<noteq> Ptree_error | Inr x \<Rightarrow> False)"

lemma uncaught_simps [simp]:
  "uncaught (Inl e) \<longleftrightarrow> e \<noteq> Ptree_error"
  "\<not> uncaught (Inr x)"
  "\<not> uncaught (fetch t)"
  "uncaught (and_then r f) \<longleftrightarrow> uncaught r \<or> (\<exists>x. r = Inr x \<and> uncaught (f x))"
  by (simp_all add: uncaught_def split: sum.splits)

lemma uncaught_boost_assert [simp]:
  "uncaught (boost_assert checked (and_then (fetch t) (\<lambda>n. Inr (P n)))) \<longleftrightarrow> checked \<and> (\<exists>n. t = Some n \<and> \<not> P n)"
  by (cases t) (simp_all add: boost_assert_def)

lemma boost_assert_passed:
  "boost_assert checked (and_then (fetch t) (\<lambda>n. Inr (P n))) = Inr u \<longleftrightarrow> checked \<longrightarrow> (\<exists>n. t = Some n \<and> P n)"
  by (cases t) (simp_all add: boost_assert_def)

text \<open>The first failure of a list of attempts, or all their values.\<close>

fun all_attempts :: "'a attempt list \<Rightarrow> 'a list attempt" where
  "all_attempts [] = Inr []"
| "all_attempts (r # rs) = and_then r (\<lambda>x. and_then (all_attempts rs) (\<lambda>xs. Inr (x # xs)))"

lemma all_attempts_map_Inr: "(\<And>x. x \<in> set xs \<Longrightarrow> f x = Inr (g x)) \<Longrightarrow> all_attempts (map f xs) = Inr (map g xs)"
  by (induction xs) auto

lemma all_attempts_fails:
  "\<lbrakk>\<And>x. x \<in> set as \<Longrightarrow> f x = Inr (g x); f e = Inl err\<rbrakk> \<Longrightarrow> all_attempts (map f (as @ e # bs)) = Inl err"
  by (induction as) auto

end
