(* ===== verification/Multi_Sessions.thy ===== *)
theory Multi_Sessions
  imports Multi_Echo Ws_Echo Property_Tree
begin

text \<open>
  The sessions of the multi protocol server after the chain has given them a connection, as
  the event loop runs them: \<^verbatim>\<open>my_tcp_session\<close>, which answers a single read, \<^verbatim>\<open>my_ws_session\<close>,
  which answers JSON echo messages, and \<^verbatim>\<open>my_log_session\<close>, which signals its connection and
  its shutdown to the set of log sessions.
\<close>

section \<open>The TCP session\<close>

definition tcp_on_handshake_success :: "'a tcp_session_scheme \<Rightarrow> (tcp_handler, 'a tcp_session_scheme) step" where
  "tcp_on_handshake_success s = async_read_string s"

definition my_tcp_derived :: "(tcp_handler, string, 'a tcp_session_scheme) derived" where
  "my_tcp_derived = \<lparr>call_on_read = \<lambda>m s. Some (tcp_on_read_string m s),
     call_on_success = \<lambda>s. Some (tcp_on_handshake_success s)\<rparr>"

definition my_tcp_handle :: "error_code \<times> error_code \<Rightarrow> (tcp_handler, string, 'a tcp_session_scheme) handling" where
  "my_tcp_handle os h ec bs s =
     (case h of
        On_first_read \<Rightarrow> None
      | On_async_read_string \<Rightarrow> resolved my_tcp_derived (on_async_read_string os ec bs s)
      | On_write \<Rightarrow> Some (on_write os ec s))"

definition my_tcp_start :: "(tcp_handler, string, tcp_session) connection" where
  "my_tcp_start = open_connection (tcp_on_handshake_success connected)"

lemma my_tcp_handle_simps [simp]:
  "my_tcp_handle os On_first_read ec bs s = None"
  "my_tcp_handle os On_async_read_string No_error bs s = Some (s, [Async_write bs On_write])"
  "ec \<noteq> No_error \<Longrightarrow> my_tcp_handle os On_async_read_string ec bs s = Some (shutdown os s)"
  "my_tcp_handle os On_write No_error bs s = Some (s, [])"
  "ec \<noteq> No_error \<Longrightarrow> my_tcp_handle os On_write ec bs s = Some (shutdown os s)"
  by (simp_all add: my_tcp_handle_def my_tcp_derived_def tcp_on_read_string_def tcp_defs
      resolved_def)

fun tcp_rank :: "tcp_handler \<Rightarrow> nat" where
  "tcp_rank On_async_read_string = 1"
| "tcp_rank h = 0"

interpretation my_tcp: bounded_handlers "my_tcp_handle os" tcp_rank
proof
  fix h ec bs s and r :: "(tcp_handler, string, 'a tcp_session_scheme) step_of"
  assume "my_tcp_handle os h ec bs s = Some r"
  then show "weight tcp_rank (operations (snd r)) \<le> tcp_rank h"
    by (cases h; cases "ec = No_error") (auto simp: weight_def)
qed

interpretation my_tcp: one_operation "my_tcp_handle os"
proof
  fix h ec bs s and r :: "(tcp_handler, string, 'a tcp_session_scheme) step_of"
  assume "my_tcp_handle os h ec bs s = Some r"
  then show "size (operations (snd r)) \<le> 1"
    by (cases h; cases "ec = No_error") auto
qed

text \<open>Its states: before the read, while writing the answer, and at the end.\<close>

definition my_tcp_inv :: "(tcp_handler, string, tcp_session) connection \<Rightarrow> bool" where
  "my_tcp_inv c \<longleftrightarrow>
     (pending c = {#Async_read_some On_async_read_string#} \<and> is_open (obj c) \<and> received c = [] \<and> written c = []) \<or>
     (\<exists>m. pending c = {#Async_write m On_write#} \<and> is_open (obj c) \<and> received c = [m] \<and> written c = []) \<or>
     (pending c = {#} \<and> received c = [] \<and> written c = []) \<or>
     (\<exists>m ec. pending c = {#} \<and> received c = [m] \<and> written c = [(m, ec)])"

lemma my_tcp_inv_start: "my_tcp_inv my_tcp_start"
  by (simp add: my_tcp_inv_def my_tcp_start_def open_connection_def tcp_on_handshake_success_def
      async_read_string_def)

lemma my_tcp_inv_step: "\<lbrakk>my_tcp_inv c; loop_step fits (my_tcp_handle os) c c'\<rbrakk> \<Longrightarrow> my_tcp_inv c'"
proof (erule loop_step.cases)
  fix msg h c0 ec r
  assume "my_tcp_inv c" "c = c0" "Async_write msg h \<in># pending c0" "my_tcp_handle os h ec [] (obj c0) = Some r"
    and "c' = completed (Async_write msg h) r (c0\<lparr>written := written c0 @ [(msg, ec)]\<rparr>)"
  then show ?thesis
    by (cases "ec = No_error") (auto simp: my_tcp_inv_def completed_def)
qed (auto simp: my_tcp_inv_def completed_def shutdown_def split: if_splits)

lemma my_tcp_inv_reachable: "loop_steps fits (my_tcp_handle os) my_tcp_start c \<Longrightarrow> my_tcp_inv c"
  by (erule loop_steps_inv [where P = my_tcp_inv, OF _ my_tcp_inv_start]) (rule my_tcp_inv_step)

section \<open>The serialization session\<close>

text \<open>
  \<^verbatim>\<open>my_serialization_session\<close>: the handlers of the base class with its \<^verbatim>\<open>on_read\<close>. Every
  outcome but that the handler returns ends the program, or leaves open what it does.
\<close>

definition my_ser_derived ::
  "bool \<Rightarrow> (msg_ptr \<Rightarrow> string) \<Rightarrow> error_code \<times> error_code \<Rightarrow> 64 word
     \<Rightarrow> (msg_ptr ser_handler, msg_ptr, 'a tcp_session_scheme) derived" where
  "my_ser_derived checked save os now =
     \<lparr>call_on_read = \<lambda>m s. outcome_option (echo_on_read checked save os now m s),
      call_on_success = \<lambda>s. Some (ser_on_handshake_success s)\<rparr>"

definition my_ser_handle ::
  "bool \<Rightarrow> (nat \<Rightarrow> bool) \<Rightarrow> (msg_ptr \<Rightarrow> string) \<Rightarrow> (string \<Rightarrow> msg_ptr option) \<Rightarrow> error_code \<times> error_code
     \<Rightarrow> 64 word \<Rightarrow> (msg_ptr ser_handler, msg_ptr, 'a tcp_session_scheme) handling" where
  "my_ser_handle checked alloc save load os now h ec bs s =
     (let derived = my_ser_derived checked save os now
      in case h of
           On_read_header \<Rightarrow>
             Option.bind (outcome_option (on_read_header checked alloc os ec bs s)) (resolved derived)
         | On_read_data sz \<Rightarrow>
             Option.bind (outcome_option (on_read_data checked load os sz ec bs s)) (resolved derived)
         | On_ser_write m \<Rightarrow> resolved derived (ser_on_write os ec m s))"

text \<open>Its reads ask for an exact number of bytes.\<close>

fun ser_fits :: "'m ser_handler \<Rightarrow> string \<Rightarrow> bool" where
  "ser_fits On_read_header bs = (length bs = header_length)"
| "ser_fits (On_read_data sz) bs = (length bs = sz)"
| "ser_fits (On_ser_write m) bs = False"

section \<open>JSON messages on the WebSocket session\<close>

text \<open>
  \<^verbatim>\<open>client_server_protocol::get_id\<close> of a tree: the enumerators lie between \<^verbatim>\<open>first\<close> and
  \<^verbatim>\<open>last\<close>, exclusively, compared as signed bytes.
\<close>

definition json_get_id :: "bool \<Rightarrow> ptree \<Rightarrow> 8 word attempt" where
  "json_get_id checked pt =
     and_then (fetch (get_int8 pt ''id'')) (\<lambda>tmp.
     and_then (boost_assert checked (Inr (int (message_code First) < sint tmp \<and> sint tmp < int (message_code Last))))
       (\<lambda>_. Inr tmp))"

definition client_echo_of_json :: "ptree \<Rightarrow> (string \<times> 64 word) attempt" where
  "client_echo_of_json pt =
     and_then (fetch (get_string pt ''msg_'')) (\<lambda>msg.
     and_then (fetch (get_int64 pt ''sent_'')) (\<lambda>sent. Inr (msg, sent)))"

definition server_echo_json :: "(fields \<Rightarrow> string) \<Rightarrow> string \<Rightarrow> 64 word \<Rightarrow> 64 word \<Rightarrow> string" where
  "server_echo_json write msg client_sent server_sent =
     write
       [(''id'', Int8 (of_nat (message_code (message_id (Server_echo_timed msg client_sent server_sent))))),
        (''client_sent_'', Int64 client_sent), (''msg_'', Text msg), (''server_sent_'', Int64 server_sent)]"

record multi_json_env =
  assertions :: bool
  read_tree :: "string \<Rightarrow> ptree option"
  write_tree :: "fields \<Rightarrow> string"
  utc_now :: "64 word"

definition multi_json_answer :: "multi_json_env \<Rightarrow> string \<Rightarrow> string option attempt" where
  "multi_json_answer env json_msg =
     and_then (fetch (read_tree env json_msg)) (\<lambda>pt.
     and_then (json_get_id (assertions env) pt) (\<lambda>i.
       if i = of_nat (message_code Client_echo_timed_id) then
         and_then (client_echo_of_json pt) (\<lambda>(msg, sent).
           Inr (Some (server_echo_json (write_tree env) msg sent (utc_now env))))
       else Inr None))"

text \<open>\<^verbatim>\<open>my_ws_session::on_read\<close>: again only \<^verbatim>\<open>ptree_error\<close> is caught.\<close>

definition my_ws_on_read ::
  "multi_json_env \<Rightarrow> byte_order \<Rightarrow> 8 word list \<Rightarrow> string \<Rightarrow> 'a tcp_session_scheme
     \<Rightarrow> (ws_handler, 'a tcp_session_scheme) step option" where
  "my_ws_on_read env ord raw json_msg s =
     (case multi_json_answer env json_msg of
        Inr (Some answer) \<Rightarrow> Some (ws_async_write ord raw answer s)
      | Inr None \<Rightarrow> Some (s, [])
      | Inl Ptree_error \<Rightarrow> Some (s, [])
      | Inl _ \<Rightarrow> None)"

definition my_ws_derived :: "multi_json_env \<Rightarrow> byte_order \<Rightarrow> 8 word list \<Rightarrow> 'a ws_derived" where
  "my_ws_derived env ord raw =
     \<lparr>call_on_read = my_ws_on_read env ord raw,
      call_on_success = \<lambda>s. Some (ws_on_handshake_success s)\<rparr>"

lemmas multi_json_defs [handler_defs] =
  json_get_id_def client_echo_of_json_def server_echo_json_def
  multi_json_answer_def my_ws_on_read_def

interpretation my_ws: ws_application "my_ws_derived env ord"
  by unfold_locales
     (auto simp: my_ws_derived_def my_ws_on_read_def ws_async_write_def ws_on_handshake_success_def
        split: prod.splits sum.splits option.splits json_error.splits)

lemma json_id_range:
  fixes i :: "8 word"
  shows "0 < sint i \<and> sint i < 3 \<longleftrightarrow> i = 1 \<or> i = 2"
proof
  assume "0 < sint i \<and> sint i < 3"
  then have "sint i = sint (1 :: 8 word) \<or> sint i = sint (2 :: 8 word)" by simp presburger
  then show "i = 1 \<or> i = 2" by (metis signed_word_eqI)
qed auto

lemma multi_json_answer_read:
  assumes "read_tree env text = Some pt" "get_int8 pt ''id'' = Some i"
  shows "multi_json_answer env text =
      (if assertions env \<and> i \<noteq> 1 \<and> i \<noteq> 2 then Inl Assertion_error
       else if i = 1 then
         (case (get_string pt ''msg_'', get_int64 pt ''sent_'') of
            (Some msg, Some sent) \<Rightarrow> Inr (Some (server_echo_json (write_tree env) msg sent (utc_now env)))
          | _ \<Rightarrow> Inl Ptree_error)
       else Inr None)"
  using assms json_id_range [of i]
  by (auto simp: multi_json_defs boost_assert_def split: option.splits)

section \<open>The signals of the log sessions\<close>

text \<open>
  \<^verbatim>\<open>my_log_session\<close> calls the function it was given when it is built, which inserts it into
  the set or removes it. Calling an empty function throws, also without the assertion
  (\<open>None\<close>). On success it installs no read. On shutdown the base class first logs its lines,
  whose texts are \<open>line 0\<close>, \<open>line 1\<close>: the socket is closed by then, but the session is still in
  the set, so they are posted to it too.
\<close>

definition log_on_handshake_success :: "nat \<Rightarrow> 'a log_session_scheme \<Rightarrow> log_state \<Rightarrow> log_state option" where
  "log_on_handshake_success self s L =
     (if has_signal s then Some (on_connect self True (fst L), snd L) else None)"

definition log_on_shutdown ::
  "nat \<Rightarrow> 'a log_session_scheme \<Rightarrow> (nat \<Rightarrow> string) \<Rightarrow> error_code \<Rightarrow> error_code \<Rightarrow> log_state \<Rightarrow> log_state option" where
  "log_on_shutdown self s line shut_down_ec close_ec L =
     (let L' = log_lines (map line [0..<length (on_shutdown_log shut_down_ec close_ec)]) L
      in if has_signal s then Some (on_connect self False (fst L'), snd L') else None)"

section \<open>Properties\<close>

text \<open>
  C24. The JSON echo of the WebSocket session, from frame to frame, for every text a client can
  send in a frame that arrives in one read: an echo message is answered by one text frame that repeats the text and the
  time stamp and adds the time of the server; a text that is no JSON, has no identifier, is an
  echo message without its fields or an echo of a server message is ignored; any other
  identifier is ignored without assertions, and makes the handler fail with them. After all but
  that the next frame is read. Only an answer of 65536 bytes, which no frame carries, is left out.
\<close>

theorem my_ws_session_json:
  assumes "ok_message m" "ws_order wenv = Little"
    and "\<And>pt msg sent. \<lbrakk>read_tree env (cm_text m) = Some pt; get_string pt ''msg_'' = Some msg;
      get_int64 pt ''sent_'' = Some sent\<rbrakk> \<Longrightarrow> length (server_echo_json (write_tree env) msg sent (utc_now env)) \<noteq> 65536"
  shows "ws_mono_handle wenv mem (cm_raw m) (my_ws_derived env Little (cm_raw m))
       (On_read_dataframe frame_parser_init) No_error (snd (message_read m)) s =
     (case read_tree env (cm_text m) of
        None \<Rightarrow> Some (s, [read_next_frame])
      | Some pt \<Rightarrow>
          (case get_int8 pt ''id'' of
             None \<Rightarrow> Some (s, [read_next_frame])
           | Some i \<Rightarrow>
               if i = 1 then
                 (case (get_string pt ''msg_'', get_int64 pt ''sent_'') of
                    (Some msg, Some sent) \<Rightarrow>
                      let answer = write_tree env [(''id'', Int8 2), (''client_sent_'', Int64 sent),
                            (''msg_'', Text msg), (''server_sent_'', Int64 (utc_now env))]
                      in Some (s, [Async_write (text_frame answer)
                                     (On_write_dataframe (sent_frame Little (cm_raw m) answer)), read_next_frame])
                  | _ \<Rightarrow> Some (s, [read_next_frame]))
               else if i = 2 \<or> \<not> assertions env then Some (s, [read_next_frame])
               else None))"
proof -
  have handle: "ws_mono_handle wenv mem (cm_raw m) (my_ws_derived env Little (cm_raw m))
       (On_read_dataframe frame_parser_init) No_error (snd (message_read m)) s =
     and_after (my_ws_on_read env Little (cm_raw m) (cm_text m) s) (\<lambda>s'. Some (s', [read_next_frame]))"
    using on_read_message [OF assms(1), of "ws_os wenv" s] assms(2)
    by (simp add: ws_mono_handle_def resolved_def my_ws_derived_def read_next_frame_def)
  have sent: "ws_async_write Little (cm_raw m) (server_echo_json (write_tree env) msg sent (utc_now env)) s =
      (s, [Async_write (text_frame (server_echo_json (write_tree env) msg sent (utc_now env)))
        (On_write_dataframe (sent_frame Little (cm_raw m)
           (server_echo_json (write_tree env) msg sent (utc_now env))))])"
    if "read_tree env (cm_text m) = Some pt" "get_string pt ''msg_'' = Some msg" "get_int64 pt ''sent_'' = Some sent"
    for pt msg sent
    using assms(3) [OF that] by (intro ws_async_write_text) blast
  show ?thesis
  proof (cases "read_tree env (cm_text m)")
    case None
    then show ?thesis by (simp add: handle my_ws_on_read_def multi_json_answer_def)
  next
    case pt: (Some pt)
    show ?thesis
    proof (cases "get_int8 pt ''id''")
      case None
      with pt show ?thesis by (simp add: handle my_ws_on_read_def multi_json_answer_def json_get_id_def)
    next
      case (Some i)
      with pt show ?thesis
        using sent [OF pt, unfolded server_echo_json_def]
        by (auto simp: handle my_ws_on_read_def multi_json_answer_read server_echo_json_def Let_def
            simp del: rfc_frame.simps split: option.splits)
    qed
  qed
qed

text \<open>An echo message, read and answered with its fields written one after the other.\<close>

theorem my_ws_session_json_witness:
  "ws_mono_handle \<lparr>ws_sha1 = \<lambda>_. [], ws_b64 = sample_b64, ws_order = Little, ws_os = (No_error, No_error)\<rparr>
     (0, 0) [1, 1, 1, 1]
     (my_ws_derived \<lparr>assertions = True, read_tree = \<lambda>_. Some \<lparr>get_uint8 = \<lambda>_. None, get_int8 = \<lambda>_. Some 1,
        get_int64 = \<lambda>_. Some 5, get_uint32 = \<lambda>_. None, get_string = \<lambda>_. Some ''hi''\<rparr>,
        write_tree = \<lambda>fs. concat (map fst fs), utc_now = 9\<rparr> Little [1, 1, 1, 1])
     (On_read_dataframe frame_parser_init) No_error
     (snd (message_read \<lparr>cm_raw = [1, 1, 1, 1], cm_fin = True, cm_key = [1, 2, 3, 4], cm_text = ''{'', cm_later = []\<rparr>))
     \<lparr>is_open = True\<rparr> =
   Some (\<lparr>is_open = True\<rparr>, [Async_write (text_frame ''idclient_sent_msg_server_sent_'')
     (On_write_dataframe (sent_frame Little [1, 1, 1, 1] ''idclient_sent_msg_server_sent_'')), read_next_frame])"
  using my_ws_session_json [where m = "\<lparr>cm_raw = [1, 1, 1, 1], cm_fin = True, cm_key = [1, 2, 3, 4],
        cm_text = ''{'', cm_later = []\<rparr>"
      and wenv = "\<lparr>ws_sha1 = \<lambda>_. [], ws_b64 = sample_b64, ws_order = Little, ws_os = (No_error, No_error)\<rparr>"
      and env = "\<lparr>assertions = True, read_tree = \<lambda>_. Some \<lparr>get_uint8 = \<lambda>_. None, get_int8 = \<lambda>_. Some 1,
        get_int64 = \<lambda>_. Some 5, get_uint32 = \<lambda>_. None, get_string = \<lambda>_. Some ''hi''\<rparr>,
        write_tree = \<lambda>fs. concat (map fst fs), utc_now = 9\<rparr>"
      and mem = "(0, 0)" and s = "\<lparr>is_open = True\<rparr>"]
  by (simp add: ok_message_def server_echo_json_def del: rfc_frame.simps)

end
