(* ===== verification/Mono_Echo.thy ===== *)
theory Mono_Echo
  imports Event_Loop
begin

text \<open>
  \<^verbatim>\<open>examples/mono_protocol_echo/echo_server\<close> and \<^verbatim>\<open>echo_client\<close>: a server of plain TCP sessions
  that writes back every string it reads, and a client that writes one line. The sessions are
  run by the event loop: the server answers everything in order with one operation at a time,
  the client's loop ends.
\<close>

section \<open>The echo server\<close>

text \<open>
  \<^verbatim>\<open>my_session\<close> of the server: it overrides the start of a connection, the delivery of a
  string and the completion of a write, which ignores its error.
\<close>

definition echo_on_socket_connected :: "'a tcp_session_scheme \<Rightarrow> (tcp_handler, 'a tcp_session_scheme) step" where
  "echo_on_socket_connected s = async_read_string s"

definition echo_on_read_string :: "string \<Rightarrow> 'a tcp_session_scheme \<Rightarrow> (tcp_handler, 'a tcp_session_scheme) step" where
  "echo_on_read_string df s = async_write df s"

definition echo_on_write :: "error_code \<Rightarrow> 'a tcp_session_scheme \<Rightarrow> (tcp_handler, 'a tcp_session_scheme) step" where
  "echo_on_write error s = async_read_string s"

lemmas echo_server_defs [handler_defs] =
  echo_on_socket_connected_def echo_on_read_string_def echo_on_write_def

text \<open>A session without handshake: \<^verbatim>\<open>on_first_read\<close> and \<^verbatim>\<open>on_handshake_success\<close> do not compile.\<close>

definition echo_derived :: "(tcp_handler, string, 'a tcp_session_scheme) derived" where
  "echo_derived = \<lparr>call_on_read = \<lambda>m s. Some (echo_on_read_string m s), call_on_success = \<lambda>s. None\<rparr>"

definition echo_handle :: "error_code \<times> error_code \<Rightarrow> (tcp_handler, string, 'a tcp_session_scheme) handling" where
  "echo_handle os h ec bs s =
     (case h of
        On_first_read \<Rightarrow> None
      | On_async_read_string \<Rightarrow> resolved echo_derived (on_async_read_string os ec bs s)
      | On_write \<Rightarrow> Some (echo_on_write ec s))"

definition echo_start :: "(tcp_handler, string, tcp_session) connection" where
  "echo_start = open_connection (echo_on_socket_connected \<lparr>is_open = True\<rparr>)"

lemma echo_handle_simps [simp]:
  "echo_handle os On_first_read ec bs s = None"
  "echo_handle os On_async_read_string No_error bs s = Some (s, [Async_write bs On_write])"
  "ec \<noteq> No_error \<Longrightarrow> echo_handle os On_async_read_string ec bs s = Some (shutdown os s)"
  "echo_handle os On_write ec bs s = Some (s, [Async_read_some On_async_read_string])"
  by (simp_all add: echo_handle_def resolved_def echo_derived_def echo_server_defs
      on_async_read_string_def on_error_code_def async_write_def async_read_string_def shutdown_def)

interpretation echo_server: one_operation "echo_handle os"
proof
  fix h ec bs s and r :: "(tcp_handler, string, 'a tcp_session_scheme) step_of"
  assume "echo_handle os h ec bs s = Some r"
  then show "size (operations (snd r)) \<le> 1"
    by (cases h; cases "ec = No_error") (auto simp: shutdown_def)
qed

text \<open>
  The states of the echo loop: waiting for a string with everything answered, writing the
  last string, or closed.
\<close>

definition echo_inv :: "(tcp_handler, string, tcp_session) connection \<Rightarrow> bool" where
  "echo_inv c \<longleftrightarrow>
     (is_open (obj c) \<and> pending c = {#Async_read_some On_async_read_string#} \<and>
        received c = map fst (written c)) \<or>
     (\<exists>m. is_open (obj c) \<and> pending c = {#Async_write m On_write#} \<and>
        received c = map fst (written c) @ [m]) \<or>
     (\<not> is_open (obj c) \<and> pending c = {#} \<and> received c = map fst (written c))"

lemma echo_inv_start: "echo_inv echo_start"
  by (simp add: echo_inv_def echo_start_def open_connection_def echo_on_socket_connected_def
      async_read_string_def)

lemma echo_inv_step: "\<lbrakk>echo_inv c; loop_step fits (echo_handle os) c c'\<rbrakk> \<Longrightarrow> echo_inv c'"
  by (erule loop_step.cases)
     (auto simp: echo_inv_def completed_def shutdown_def)

lemma echo_inv_reachable: "loop_steps fits (echo_handle os) echo_start c \<Longrightarrow> echo_inv c"
  by (erule loop_steps_inv [where P = echo_inv, OF _ echo_inv_start]) (rule echo_inv_step)

text \<open>A waiting session reads a string and writes it back.\<close>

lemma echo_read_written:
  assumes "pending c = {#Async_read_some On_async_read_string#}" "fits On_async_read_string bs"
  shows "\<exists>c'. loop_steps fits (echo_handle os) c c' \<and> obj c' = obj c \<and> pending c' = pending c \<and>
     received c' = received c @ [bs] \<and> written c' = written c @ [(bs, No_error)]"
proof -
  let ?d1 = "completed (Async_read_some On_async_read_string) (obj c, [Async_write bs On_write])
      (c\<lparr>received := received c @ [bs]\<rparr>)"
  let ?d2 = "completed (Async_write bs On_write) (obj ?d1, [Async_read_some On_async_read_string])
      (?d1\<lparr>written := written ?d1 @ [(bs, No_error)]\<rparr>)"
  have "loop_step fits (echo_handle os) c ?d1"
    using assms by (intro Read_done) simp_all
  moreover have "loop_step fits (echo_handle os) ?d1 ?d2"
    using assms(1) by (intro Write_done) (simp_all add: completed_def)
  ultimately have "loop_steps fits (echo_handle os) c ?d2"
    by (rule converse_rtranclp_into_rtranclp [OF _ r_into_rtranclp])
  with assms(1) show ?thesis by (intro exI [of _ ?d2]) (simp add: completed_def)
qed

text \<open>
  One connection is answered in order: the strings read are the strings written back, and at
  most one is being written; while the socket is open exactly one operation is pending.
\<close>

lemma echo_in_order:
  assumes "loop_steps fits (echo_handle os) echo_start c"
  shows "\<exists>rest. received c = map fst (written c) @ rest \<and>
     (rest = [] \<or> (\<exists>m. rest = [m] \<and> pending c = {#Async_write m On_write#})) \<and>
     size (pending c) = (if is_open (obj c) then 1 else 0) \<and>
     \<not> loop_fails fits (echo_handle os) c"
proof -
  have inv: "echo_inv c" by (rule echo_inv_reachable [OF assms])
  have "\<not> loop_fails fits (echo_handle os) c"
    using inv by (auto simp: echo_inv_def elim!: loop_fails.cases)
  with inv show ?thesis by (auto simp: echo_inv_def)
qed

text \<open>
  The echo server stays alive: from every state its event loop can reach with an open
  socket, also after writes that failed, it can finish what it is writing, read any further
  string and write it back.
\<close>

lemma echo_answers:
  assumes "loop_steps fits (echo_handle os) echo_start c" "is_open (obj c)"
    and "fits On_async_read_string bs"
  shows "\<exists>c'. loop_steps fits (echo_handle os) c c' \<and> is_open (obj c') \<and>
     received c' = received c @ [bs] \<and> map fst (written c') = received c @ [bs]"
proof -
  have idle: "\<exists>d. loop_steps fits (echo_handle os) c d \<and> is_open (obj d) \<and> received d = received c \<and>
      pending d = {#Async_read_some On_async_read_string#} \<and> map fst (written d) = received c"
    using echo_inv_reachable [OF assms(1)] assms(2) unfolding echo_inv_def
  proof (elim disjE exE conjE)
    fix m assume m: "pending c = {#Async_write m On_write#}" "received c = map fst (written c) @ [m]"
    then have "loop_step fits (echo_handle os) c (completed (Async_write m On_write)
        (obj c, [Async_read_some On_async_read_string]) (c\<lparr>written := written c @ [(m, No_error)]\<rparr>))"
      by (intro Write_done) simp_all
    with m assms(2) show ?thesis
      by (intro exI [of _ "completed (Async_write m On_write) (obj c, [Async_read_some On_async_read_string])
          (c\<lparr>written := written c @ [(m, No_error)]\<rparr>)"]) (auto simp: completed_def)
  qed auto
  then obtain d where d: "loop_steps fits (echo_handle os) c d" "is_open (obj d)"
    "received d = received c" "pending d = {#Async_read_some On_async_read_string#}"
    "map fst (written d) = received c" by blast
  from echo_read_written [of d fits bs os] d(4) assms(3) obtain c' where
    "loop_steps fits (echo_handle os) d c'" "obj c' = obj d"
    "received c' = received d @ [bs]" "written c' = written d @ [(bs, No_error)]" by auto
  with d show ?thesis by (intro exI [of _ c']) (auto intro: rtranclp_trans)
qed

section \<open>The client\<close>

text \<open>
  \<^verbatim>\<open>type_in\<close>: one line of the console, at most 1023 characters of it, up to a NUL; it is
  the only handler that is posted.
\<close>

definition max_length :: nat where
  "max_length = 1024"

definition getline :: "nat \<Rightarrow> string \<Rightarrow> string" where
  "getline n input = take (n - 1) (takeWhile (\<lambda>c. c \<noteq> CHR 0x0A) input)"

definition type_in :: "string \<Rightarrow> 'a tcp_session_scheme \<Rightarrow> (tcp_handler, 'a tcp_session_scheme) step" where
  "type_in input s = async_write (c_str (getline max_length input)) s"

text \<open>\<^verbatim>\<open>on_write\<close> reports the result on the console.\<close>

record client_session = tcp_session +
  console :: "error_code list"

definition client_on_write ::
  "error_code \<Rightarrow> 'a client_session_scheme \<Rightarrow> (tcp_handler, 'a client_session_scheme) step" where
  "client_on_write error s = (s\<lparr>console := console s @ [error]\<rparr>, [])"

definition client_handle :: "(tcp_handler, string, client_session) handling" where
  "client_handle h ec bs s = (case h of On_write \<Rightarrow> Some (client_on_write ec s) | _ \<Rightarrow> None)"

definition client_start :: "string \<Rightarrow> (tcp_handler, string, client_session) connection" where
  "client_start input = open_connection (type_in input \<lparr>is_open = True, console = []\<rparr>)"

text \<open>
  \<^verbatim>\<open>run\<close>: resolving and connecting can fail, then nothing is posted and 0 is returned;
  otherwise the event loop runs from the posted handler.
\<close>

definition client_run ::
  "error_code \<Rightarrow> error_code \<Rightarrow> string \<Rightarrow> error_code + (tcp_handler, string, client_session) connection" where
  "client_run resolver_ec connect_ec input =
     (if resolver_ec \<noteq> No_error then Inl resolver_ec
      else if connect_ec \<noteq> No_error then Inl connect_ec
      else Inr (client_start input))"

interpretation echo_client: bounded_handlers client_handle "\<lambda>h. 0"
  by unfold_locales
     (auto simp: client_handle_def client_on_write_def weight_def split: tcp_handler.splits)

interpretation echo_client: one_operation client_handle
  by unfold_locales
     (auto simp: client_handle_def client_on_write_def split: tcp_handler.splits)

section \<open>Properties\<close>

text \<open>
  C25. The client's loop ends as its comment says: the write completes with some result, which
  is reported, and then no handler is left, so \<^verbatim>\<open>run\<close> returns after two handlers, the posted
  one and this. What is written is the line typed, of at most 1023 characters.
\<close>

theorem echo_client_terminates:
  assumes "(loop_step fits client_handle ^^ n) (client_start input) c"
  shows "n \<le> 1 \<and> (pending c = {#} \<longleftrightarrow> n = 1) \<and> \<not> loop_fails fits client_handle c \<and>
     (n = 1 \<longrightarrow> (\<exists>ec. written c = [(c_str (getline max_length input), ec)] \<and> console (obj c) = [ec])) \<and>
     length (c_str (getline max_length input)) \<le> 1023"
proof -
  let ?line = "c_str (getline max_length input)"
  have start: "pending (client_start input) = {#Async_write ?line On_write#}"
    "written (client_start input) = []" "console (obj (client_start input)) = []"
    by (simp_all add: client_start_def open_connection_def type_in_def async_write_def)
  have n: "n \<le> 1" using echo_client.run_weight [OF assms] by (simp add: start weight_def)
  have one: "pending c = {#} \<and> (\<exists>ec. written c = [(?line, ec)] \<and> console (obj c) = [ec])" if "n = 1"
  proof -
    have "loop_step fits client_handle (client_start input) c"
      using assms that by (simp add: eq_OO)
    then show ?thesis
      by cases (auto simp: start completed_def client_handle_def client_on_write_def)
  qed
  have zero: "c = client_start input" if "n = 0" using assms that by simp
  have "\<not> loop_fails fits client_handle c"
    using n one zero
    by (cases "n = 0") (auto simp: start client_handle_def elim!: loop_fails.cases)
  moreover have "length ?line \<le> 1023"
    using c_str_prefix [of "getline max_length input"]
    by (auto simp: getline_def max_length_def dest: arg_cong [of _ _ length])
  ultimately show ?thesis using n one zero start by (cases "n = 0") auto
qed

theorem echo_client_terminates_witness:
  "\<exists>c. (loop_step fits_buffer client_handle ^^ 1) (client_start ''hello'') c \<and> pending c = {#}"
proof -
  have "loop_step fits_buffer client_handle (client_start ''hello'')
      (completed (Async_write ''hello'' On_write) (\<lparr>is_open = True, console = [No_error]\<rparr>, [])
        ((client_start ''hello'')\<lparr>written := written (client_start ''hello'') @ [(''hello'', No_error)]\<rparr>))"
    by (rule Write_done)
       (simp_all add: client_start_def open_connection_def type_in_def async_write_def getline_def
        max_length_def c_str_def client_handle_def client_on_write_def)
  then have run: "(loop_step fits_buffer client_handle ^^ 1) (client_start ''hello'')
      (completed (Async_write ''hello'' On_write) (\<lparr>is_open = True, console = [No_error]\<rparr>, [])
        ((client_start ''hello'')\<lparr>written := written (client_start ''hello'') @ [(''hello'', No_error)]\<rparr>))"
    by (simp add: eq_OO)
  from echo_client_terminates [OF run] run show ?thesis by blast
qed

end
