(* ===== verification/Clients.thy ===== *)
theory Clients
  imports Multi_Sessions Mono_Echo
begin

text \<open>
  The console clients of the multi protocol example, \<^verbatim>\<open>raw_client\<close> and \<^verbatim>\<open>serialize_client\<close>,
  and what becomes of them when they talk to the server. Both send a GUID first and do not
  wait for the server before they send their message.
\<close>

section \<open>The raw client\<close>

text \<open>
  It uses the socket synchronously: the calls of \<^verbatim>\<open>main\<close> in their order, when none of them
  throws, for a line of the console. The last one waits until as many bytes have arrived as
  were sent, and throws when the connection ends before.
\<close>

datatype socket_call = Connect | Send string | Receive nat

definition raw_client :: "string \<Rightarrow> socket_call list" where
  "raw_client input =
     (let request = c_str (getline max_length input)
      in [Connect, Send tcp_guid, Send request, Receive (length request)])"

text \<open>What such a client sends, and how much it waits for.\<close>

fun bytes_sent :: "socket_call list \<Rightarrow> string" where
  "bytes_sent [] = []"
| "bytes_sent (Send bs # calls) = bs @ bytes_sent calls"
| "bytes_sent (c # calls) = bytes_sent calls"

fun bytes_awaited :: "socket_call list \<Rightarrow> nat" where
  "bytes_awaited [] = 0"
| "bytes_awaited (Receive n # calls) = n + bytes_awaited calls"
| "bytes_awaited (c # calls) = bytes_awaited calls"

text \<open>
  \<^verbatim>\<open>boost::asio::read\<close> of \<open>n\<close> bytes, when \<open>bytes\<close> have arrived and the other side is still
  connected (\<open>open_end\<close>) or not.
\<close>

datatype reception = Received string | Waiting | End_of_file

definition receive :: "nat \<Rightarrow> bool \<Rightarrow> string \<Rightarrow> reception" where
  "receive n open_end bytes =
     (if n \<le> length bytes then Received (take n bytes) else if open_end then Waiting else End_of_file)"

text \<open>The bytes of all completed writes of a connection that did not fail.\<close>

definition sent_bytes :: "('h, 'm, 's) connection \<Rightarrow> string" where
  "sent_bytes c = concat (map fst (filter (\<lambda>w. snd w = No_error) (written c)))"

section \<open>The serialization client\<close>

text \<open>Its handlers: that of the GUID, and those of the serialization session.\<close>

datatype client_handler = On_write_guid string | Session "msg_ptr ser_handler"

record serialize_client = tcp_session +
  replies :: "(string \<times> 64 word) list"

type_synonym client_step = "(client_handler, msg_ptr, serialize_client) step_of"

definition in_session :: "(msg_ptr ser_handler, msg_ptr, serialize_client) step_of \<Rightarrow> client_step" where
  "in_session r = (fst r, map (map_effect_of Session id) (snd r))"

fun returned :: "(msg_ptr ser_handler, msg_ptr, serialize_client) step_of outcome \<Rightarrow> client_step option" where
  "returned (Returns r) = Some (in_session r)"
| "returned _ = None"

text \<open>The clock: when the message is made and when its answer is read.\<close>

record client_env =
  client_checked :: bool
  client_alloc :: "nat \<Rightarrow> bool"
  client_save :: "msg_ptr \<Rightarrow> string"
  client_load :: "string \<Rightarrow> msg_ptr option"
  client_os :: "error_code \<times> error_code"
  cin :: string
  made_at :: "64 word"
  read_at :: "64 word"

definition guid_on_socket_connected :: "serialize_client \<Rightarrow> client_step" where
  "guid_on_socket_connected s = (s, [Async_write serialization_guid (On_write_guid serialization_guid)])"

definition ser_type_in :: "client_env \<Rightarrow> serialize_client \<Rightarrow> client_step" where
  "ser_type_in env s =
     in_session (ser_async_write (client_save env) (client_os env)
       (Some (Client_echo_timed (c_str (getline max_length (cin env))) (made_at env))) s)"

definition on_write_guid :: "client_env \<Rightarrow> error_code \<Rightarrow> string \<Rightarrow> serialize_client \<Rightarrow> client_step option" where
  "on_write_guid env ec msg s =
     (if ec \<noteq> No_error then Some (on_error_code (client_os env) ec s)
      else if client_checked env \<and> msg \<noteq> serialization_guid then None
      else Some (ser_type_in env s))"

definition client_on_write_msg :: "client_env \<Rightarrow> error_code \<Rightarrow> serialize_client \<Rightarrow> client_step" where
  "client_on_write_msg env ec s =
     (if ec \<noteq> No_error then on_error_code (client_os env) ec s else in_session (ser_async_read s))"

text \<open>
  The reply with the time it took, which \<^verbatim>\<open>on_read\<close> prints. Like the server it does not test the
  pointer.
\<close>

definition client_on_read :: "client_env \<Rightarrow> msg_ptr \<Rightarrow> serialize_client \<Rightarrow> client_step option" where
  "client_on_read env msg s =
     (case msg of
        None \<Rightarrow> outcome_option (null_dereferenced (client_checked env))
      | Some (Server_echo_timed text sent server_sent) \<Rightarrow>
          Some (s\<lparr>replies := replies s @ [(text, read_at env - sent)]\<rparr>, [])
      | Some (Client_echo_timed text sent) \<Rightarrow> if client_checked env then None else Some (s, []))"

definition client_derived :: "client_env \<Rightarrow> (client_handler, msg_ptr, serialize_client) derived" where
  "client_derived env = \<lparr>call_on_read = client_on_read env, call_on_success = \<lambda>s. None\<rparr>"

definition serialize_handle :: "client_env \<Rightarrow> (client_handler, msg_ptr, serialize_client) handling" where
  "serialize_handle env h ec bs s =
     (case h of
        On_write_guid msg \<Rightarrow> on_write_guid env ec msg s
      | Session (On_ser_write m) \<Rightarrow> Some (client_on_write_msg env ec s)
      | Session On_read_header \<Rightarrow>
          Option.bind (returned (on_read_header (client_checked env) (client_alloc env) (client_os env) ec bs s))
            (resolved (client_derived env))
      | Session (On_read_data sz) \<Rightarrow>
          Option.bind (returned (on_read_data (client_checked env) (client_load env) (client_os env) sz ec bs s))
            (resolved (client_derived env)))"

definition serialize_start :: "(client_handler, msg_ptr, serialize_client) connection" where
  "serialize_start = open_connection (guid_on_socket_connected \<lparr>is_open = True, replies = []\<rparr>)"

text \<open>
  \<^verbatim>\<open>run\<close>, as in the echo client. The reads of this session ask for an exact number of bytes.
\<close>

definition serialize_run ::
  "error_code \<Rightarrow> error_code \<Rightarrow> error_code + (client_handler, msg_ptr, serialize_client) connection" where
  "serialize_run resolver_ec connect_ec =
     (if resolver_ec \<noteq> No_error then Inl resolver_ec
      else if connect_ec \<noteq> No_error then Inl connect_ec
      else Inr serialize_start)"

fun fits_exactly :: "client_handler \<Rightarrow> string \<Rightarrow> bool" where
  "fits_exactly (Session On_read_header) bs = (length bs = header_length)"
| "fits_exactly (Session (On_read_data sz)) bs = (length bs = sz)"
| "fits_exactly h bs = False"

lemmas client_defs [handler_defs] =
  guid_on_socket_connected_def ser_type_in_def on_write_guid_def client_on_write_msg_def
  client_on_read_def

text \<open>How often a handler can still be called after one of the given kind.\<close>

fun client_rank :: "client_handler \<Rightarrow> nat" where
  "client_rank (On_write_guid msg) = 3"
| "client_rank (Session (On_ser_write m)) = 2"
| "client_rank (Session On_read_header) = 1"
| "client_rank (Session (On_read_data sz)) = 0"

lemma in_session_shutdown [simp]: "in_session (shutdown os s) = shutdown os s"
  by (simp add: in_session_def shutdown_def)

lemma in_session_effects [simp]:
  "in_session (s, []) = (s, [])"
  "in_session (s, [Async_write w h]) = (s, [Async_write w (Session h)])"
  "in_session (s, [Async_read_some h]) = (s, [Async_read_some (Session h)])"
  "in_session (s, [On_read m]) = (s, [On_read m])"
  by (simp_all add: in_session_def)

lemma serialize_handle_cases:
  assumes "serialize_handle env h ec bs s = Some r"
  shows "operations (snd r) =
      {#} \<or> (\<exists>w m msg. h = On_write_guid msg \<and> operations (snd r) = {#Async_write w (Session (On_ser_write m))#}) \<or>
     (\<exists>m. h = Session (On_ser_write m) \<and> operations (snd r) = {#Async_read_some (Session On_read_header)#}) \<or>
     (\<exists>sz. h = Session On_read_header \<and> operations (snd r) = {#Async_read_some (Session (On_read_data sz))#})"
proof (cases h)
  case (On_write_guid msg)
  with assms show ?thesis
    by (auto simp: serialize_handle_def client_defs ser_defs Let_def on_error_code_def
        split: if_splits option.splits)
next
  case (Session h')
  with assms show ?thesis
    by (cases h')
       (auto simp: serialize_handle_def client_defs ser_defs Let_def on_error_code_def client_derived_def
         null_dereferenced_def split: if_splits option.splits message.splits)
qed

interpretation serialize_client: bounded_handlers "serialize_handle env" client_rank
  by unfold_locales (auto simp: weight_def dest!: serialize_handle_cases)

interpretation serialize_client: one_operation "serialize_handle env"
  by unfold_locales (auto dest!: serialize_handle_cases)

section \<open>The connections of the server\<close>

text \<open>A connection is only taken by the TCP session for its GUID.\<close>

lemma first_bytes_tcp:
  assumes "first_bytes env g = (Taken 0 t :: 'm taken chain_result)"
  shows "g = tcp_guid \<and> t = Tcp_took (connected, [Async_read_some On_async_read_string])"
proof -
  let ?r = "multi_first_read (env_sha1 env) (env_b64 env) (env_mem env) (env_os env) No_error g connected"
  obtain s es d0 where r: "?r = Some (s, es)" "handed_on es = Some d0"
    and c: "on_handshake_fail (do_next_handshake env) (protocol_count - 1) d0 = Taken 0 t"
    using assms by (auto simp: first_bytes_def protocol_count_def split: option.splits prod.splits)
  obtain d where "hs_bytes d = hs_bytes d0" "do_next_handshake env 0 d = Inl t"
    using echo_chain.taken_bytes [OF c] by blast
  moreover have "hs_bytes d0 = g"
    using r multi_first_write_hands_on_bytes by (fastforce simp: multi_first_read_def split: if_splits)
  ultimately show ?thesis by (auto simp: next_tcp split: if_splits)
qed

section \<open>Properties\<close>

text \<open>
  C18. When the raw client gets its answer: once the server has taken the connection, the
  client's last call returns, then with the line it sent, exactly when the server found the
  whole line in its second read and wrote it back. In every other state the server's event
  loop can reach, the client waits as long as the server has something pending, and otherwise
  its call throws, for the session without a handler is destroyed: so it does after a line
  that came in two pieces, of which only the first is echoed.
\<close>

theorem raw_client_answered:
  assumes "first_bytes env g = (Taken 0 (Tcp_took r) :: message taken chain_result)"
    and "loop_steps fits_buffer (my_tcp_handle os) (open_connection r) c"
    and "bytes_sent (raw_client input) = g @ concat (received c) @ unread"
    and "request = c_str (getline max_length input)" "request \<noteq> []"
  shows "receive (bytes_awaited (raw_client input)) (is_open (fst (released os c))) (sent_bytes c) =
     (if received c = [request] \<and> written c = [(request, No_error)] then Received request
      else if pending c = {#} then End_of_file else Waiting)"
proof -
  have g: "g = tcp_guid" "r = (connected, [Async_read_some On_async_read_string])"
    using first_bytes_tcp [OF assms(1)] by simp_all
  have bytes: "concat (received c) @ unread = request"
    using assms(3,4) g(1) by (simp add: raw_client_def Let_def)
  have "my_tcp_inv c"
    using assms(2) by (intro my_tcp_inv_reachable [of fits_buffer os])
      (simp add: my_tcp_start_def tcp_on_handshake_success_def async_read_string_def g(2))
  moreover have "m = request" if "received c = [m]" "length request \<le> length m" for m
    using bytes that by (auto dest: arg_cong [of _ _ length])
  ultimately show ?thesis
    using assms(4,5) by (auto simp: my_tcp_inv_def sent_bytes_def receive_def raw_client_def Let_def
        split: if_splits)
qed

theorem raw_client_answered_witness:
  "receive (bytes_awaited (raw_client ''hello'')) (is_open (fst (released (No_error, No_error) my_tcp_start)))
     (sent_bytes my_tcp_start) = Waiting"
proof -
  let ?env = "\<lparr>env_doc_root = ''/www'', env_fs = sample_fs, env_sha1 = (\<lambda>_. []), env_b64 = sample_b64,
     env_mem = (0, 0), env_os = (No_error, No_error)\<rparr>"
  have "tcp_guid = CHR ''{'' # tl tcp_guid" by (simp add: tcp_guid_def)
  moreover have "str_find ws_key_text tcp_guid = None" by (simp add: tcp_guid_def ws_key_text_def)
  ultimately have taken: "first_bytes ?env tcp_guid =
      (Taken 0 (Tcp_took (connected, [Async_read_some On_async_read_string])) :: message taken chain_result)"
    using first_bytes_brace [of "tl tcp_guid" ?env] by (metis guids_differ(1))
  have run: "loop_steps fits_buffer (my_tcp_handle (No_error, No_error))
      (open_connection (connected, [Async_read_some On_async_read_string])) my_tcp_start"
    by (simp add: my_tcp_start_def tcp_on_handshake_success_def async_read_string_def)
  have "c_str (getline max_length ''hello'') = ''hello''"
    by (simp add: c_str_def getline_def max_length_def)
  moreover have "received my_tcp_start = []" "pending my_tcp_start \<noteq> {#}"
    by (simp_all add: my_tcp_start_def open_connection_def tcp_on_handshake_success_def async_read_string_def)
  ultimately show ?thesis
    using raw_client_answered [OF taken run, of "''hello''" "''hello''" "''hello''"]
    by (simp add: raw_client_def)
qed

text \<open>
  C26. The event loop of the serialization client ends: whatever the server sends and whichever
  operations fail, at most four handlers run after the posted one, those that are pending
  included, and no two operations are ever pending at once.
\<close>

theorem serialize_client_terminates:
  assumes "(loop_step fits_exactly (serialize_handle env) ^^ n) serialize_start c"
  shows "n + size (pending c) \<le> 4 \<and> size (pending c) \<le> 1"
proof -
  have start: "pending serialize_start = {#Async_write serialization_guid (On_write_guid serialization_guid)#}"
    by (simp add: serialize_start_def open_connection_def guid_on_socket_connected_def)
  have "n + size (pending c) \<le> 4"
    using serialize_client.run_bounded [OF assms] by (simp add: start weight_def)
  moreover have "loop_steps fits_exactly (serialize_handle env) serialize_start c"
    using assms by (rule relpowp_imp_rtranclp)
  then have "size (pending c) \<le> 1"
    using serialize_client.reachable_size by (fastforce simp: start)
  ultimately show ?thesis ..
qed

theorem serialize_client_terminates_witness:
  "size (pending serialize_start) \<le> 1"
  using serialize_client_terminates [of 0 "\<lparr>client_checked = True, client_alloc = \<lambda>_. True, client_save = \<lambda>_. [],
      client_load = \<lambda>_. None, client_os = (No_error, No_error), cin = [], made_at = 0, read_at = 0\<rparr>"
      serialize_start] by simp

text \<open>The client's own run, from its start to its end, on the bytes of the answer.\<close>

lemma serialize_run_answered:
  assumes "q = Some (Client_echo_timed (c_str (getline max_length (cin env))) (made_at env))"
    and "a = Some (Server_echo_timed (c_str (getline max_length (cin env))) (made_at env) utc)"
    and "client_load env (client_save env a) = Some a"
    and "length (client_save env q) < 16 ^ 8" "length (client_save env a) < 16 ^ 8"
    and "client_alloc env (length (client_save env a))"
  shows "\<exists>c. loop_steps fits_exactly (serialize_handle env) serialize_start c \<and>
     written c = [(serialization_guid, No_error), (wire (client_save env q), No_error)] \<and>
     received c = [take header_length (wire (client_save env a)), drop header_length (wire (client_save env a))] \<and>
     pending c = {#} \<and> replies (obj c) = [(c_str (getline max_length (cin env)), read_at env - made_at env)]"
proof -
  let ?wq = "wire (client_save env q)" and ?wa = "wire (client_save env a)"
  let ?s = "\<lparr>is_open = True, replies = []\<rparr>"
  let ?c0 = serialize_start
  let ?c1 = "completed (Async_write serialization_guid (On_write_guid serialization_guid))
      (?s, [Async_write ?wq (Session (On_ser_write q))])
      (?c0\<lparr>written := written ?c0 @ [(serialization_guid, No_error)]\<rparr>)"
  let ?c2 = "completed (Async_write ?wq (Session (On_ser_write q))) (?s, [Async_read_some (Session On_read_header)])
      (?c1\<lparr>written := written ?c1 @ [(?wq, No_error)]\<rparr>)"
  let ?c3 = "completed (Async_read_some (Session On_read_header))
      (?s, [Async_read_some (Session (On_read_data (length (client_save env a))))])
      (?c2\<lparr>received := received ?c2 @ [take header_length ?wa]\<rparr>)"
  let ?c4 = "completed (Async_read_some (Session (On_read_data (length (client_save env a)))))
      (?s\<lparr>replies := [(c_str (getline max_length (cin env)), read_at env - made_at env)]\<rparr>, [])
      (?c3\<lparr>received := received ?c3 @ [drop header_length ?wa]\<rparr>)"
  have c0: "pending ?c0 = {#Async_write serialization_guid (On_write_guid serialization_guid)#}"
    "obj ?c0 = ?s" "received ?c0 = []" "written ?c0 = []"
    by (simp_all add: serialize_start_def open_connection_def guid_on_socket_connected_def)
  have "loop_step fits_exactly (serialize_handle env) ?c0 ?c1"
    by (intro Write_done)
       (simp_all add: c0 serialize_handle_def client_defs message_written assms(1)
         message_written [where save = "client_save env" and msg = q, OF assms(4), unfolded assms(1)])
  moreover have "loop_step fits_exactly (serialize_handle env) ?c1 ?c2"
    by (intro Write_done) (simp_all add: c0 completed_def serialize_handle_def client_defs ser_async_read_def)
  moreover have "loop_step fits_exactly (serialize_handle env) ?c2 ?c3"
    by (intro Read_done)
       (simp_all add: c0 completed_def serialize_handle_def length_wire [OF assms(5)]
         message_header_read [where d = "client_save env a" and alloc = "client_alloc env", OF assms(5,6)])
  moreover have "loop_step fits_exactly (serialize_handle env) ?c3 ?c4"
    by (intro Read_done)
       (simp_all add: c0 completed_def serialize_handle_def length_wire [OF assms(5)]
         message_data_read [where save = "client_save env" and load = "client_load env" and msg = a,
           OF assms(3,5)]
         client_derived_def client_on_read_def, simp add: assms(2))
  ultimately have run: "loop_steps fits_exactly (serialize_handle env) ?c0 ?c4"
    by (meson rtranclp.rtrancl_refl rtranclp.rtrancl_into_rtrancl)
  then show ?thesis by (intro exI [of _ ?c4]) (simp add: c0 completed_def)
qed

text \<open>
  C15. The whole exchange of the serialization client with the server: the server takes the
  connection for the GUID; it reads the client's message from the bytes the client wrote,
  header first, and answers; and the client's event loop, given the bytes of the answer, runs
  to its end with one reply, the line that was typed and the time between making the message
  and reading its answer. The archives are only assumed to load what they saved, and the
  allocations to succeed.
\<close>

theorem serialize_exchange:
  assumes "q = Some (Client_echo_timed (c_str (getline max_length (cin env))) (made_at env))"
    and "a = Some (Server_echo_timed (c_str (getline max_length (cin env))) (made_at env) utc)"
    and "client_load env (client_save env q) = Some q" "client_load env (client_save env a) = Some a"
    and "length (client_save env q) < 16 ^ 8" "length (client_save env a) < 16 ^ 8"
    and "alloc (length (client_save env q))" "client_alloc env (length (client_save env a))"
  shows "first_bytes eenv serialization_guid =
       (Taken 1 (Serialization_took (connected, [Async_read_some On_read_header])) :: message taken chain_result) \<and>
     (\<exists>wq wa c.
        on_read_header checked alloc os No_error (take header_length wq) s =
          Returns (s, [Async_read_some (On_read_data (length wq - header_length))]) \<and>
        on_read_data checked (client_load env) os (length wq - header_length) No_error (drop header_length wq) s =
          Returns (s, [On_read q]) \<and>
        echo_on_read checked (client_save env) os utc q s = Returns (s, [Async_write wa (On_ser_write a)]) \<and>
        loop_steps fits_exactly (serialize_handle env) serialize_start c \<and>
        written c = [(serialization_guid, No_error), (wq, No_error)] \<and>
        received c = [take header_length wa, drop header_length wa] \<and> pending c = {#} \<and>
        replies (obj c) = [(c_str (getline max_length (cin env)), read_at env - made_at env)])"
proof (intro conjI)
  have "serialization_guid = CHR ''{'' # tl serialization_guid" by (simp add: serialization_guid_def)
  moreover have "str_find ws_key_text serialization_guid = None"
    by (simp add: serialization_guid_def ws_key_text_def)
  ultimately show "first_bytes eenv serialization_guid =
      (Taken 1 (Serialization_took (connected, [Async_read_some On_read_header])) :: message taken chain_result)"
    using first_bytes_brace [of "tl serialization_guid" eenv] by metis
next
  let ?wq = "wire (client_save env q)" and ?wa = "wire (client_save env a)"
  have answer: "echo_on_read checked (client_save env) os utc q s = Returns (s, [Async_write ?wa (On_ser_write a)])"
    by (simp add: echo_on_read_def assms(1)
        message_written [where save = "client_save env" and msg = a, OF assms(6), unfolded assms(2)])
       (simp add: assms(2))
  have "length ?wq - header_length = length (client_save env q)" using length_wire [OF assms(5)] by simp
  then show "\<exists>wq wa c.
      on_read_header checked alloc os No_error (take header_length wq) s =
        Returns (s, [Async_read_some (On_read_data (length wq - header_length))]) \<and>
      on_read_data checked (client_load env) os (length wq - header_length) No_error (drop header_length wq) s =
        Returns (s, [On_read q]) \<and>
      echo_on_read checked (client_save env) os utc q s = Returns (s, [Async_write wa (On_ser_write a)]) \<and>
      loop_steps fits_exactly (serialize_handle env) serialize_start c \<and>
      written c = [(serialization_guid, No_error), (wq, No_error)] \<and>
      received c = [take header_length wa, drop header_length wa] \<and> pending c = {#} \<and>
      replies (obj c) = [(c_str (getline max_length (cin env)), read_at env - made_at env)]"
    using serialize_run_answered [OF assms(1,2,4,5,6,8)]
    by (intro exI [of _ ?wq] exI [of _ ?wa])
       (simp add: answer message_header_read [where d = "client_save env q" and alloc = alloc, OF assms(5,7)]
         message_data_read [where save = "client_save env" and load = "client_load env" and msg = q,
           OF assms(3,5)])
qed

theorem serialize_exchange_witness:
  "\<exists>c. loop_steps fits_exactly (serialize_handle \<lparr>client_checked = True, client_alloc = \<lambda>_. True,
       client_save = \<lambda>m. (case m of Some (Client_echo_timed _ _) \<Rightarrow> ''q'' | _ \<Rightarrow> ''a''),
       client_load = \<lambda>d. Some (Some (if d = ''q'' then Client_echo_timed ''hi'' 5 else Server_echo_timed ''hi'' 5 7)),
       client_os = (No_error, No_error), cin = ''hi'', made_at = 5, read_at = 9\<rparr>) serialize_start c \<and>
     replies (obj c) = [(''hi'', 4)]"
proof -
  have "c_str (getline max_length ''hi'') = ''hi''" by (simp add: c_str_def getline_def max_length_def)
  then show ?thesis
    using serialize_exchange [where q = "Some (Client_echo_timed ''hi'' 5)" and a = "Some (Server_echo_timed ''hi'' 5 7)"
        and utc = 7 and alloc = "\<lambda>_. True" and checked = True and os = "(No_error, No_error)"
        and s = "\<lparr>is_open = True\<rparr>"
        and eenv = "\<lparr>env_doc_root = ''/www'', env_fs = sample_fs, env_sha1 = (\<lambda>_. []), env_b64 = sample_b64,
          env_mem = (0, 0), env_os = (No_error, No_error)\<rparr>"
        and env = "\<lparr>client_checked = True, client_alloc = \<lambda>_. True,
          client_save = \<lambda>m. (case m of Some (Client_echo_timed _ _) \<Rightarrow> ''q'' | _ \<Rightarrow> ''a''),
          client_load = \<lambda>d. Some (Some (if d = ''q'' then Client_echo_timed ''hi'' 5 else Server_echo_timed ''hi'' 5 7)),
          client_os = (No_error, No_error), cin = ''hi'', made_at = 5, read_at = 9\<rparr>"]
    by fastforce
qed

end
