(* ===== verification/Mono_Server.thy ===== *)
theory Mono_Server
  imports Server Event_Loop
begin

text \<open>
  A mono protocol server as its event loop runs it: the acceptor with the accept operations it
  has pending, and any number of connections. The accept loop of \<open>Server\<close> starts the
  connections, and each of them takes the steps of its session. The locale \<open>mono_server\<close> is the
  contract of a session class, from which the behaviour of the server follows: connections do
  not disturb each other, and the server never stops accepting.
\<close>

section \<open>The server\<close>

text \<open>
  The constructor of every \<^verbatim>\<open>my_server\<close>: the base class sets the acceptor up, whatever comes of
  it, then the first accept is started.
\<close>

definition my_server :: "setup_results \<Rightarrow> (server \<times> server_effect list) option" where
  "my_server r = map_option (\<lambda>(sv, es). (sv, es @ start_accept sv)) (ez_server r)"

text \<open>
  The connections by the address of their session; \<open>reported\<close> are the errors the server
  reports.
\<close>

record ('h, 'm, 's) mono_state =
  base :: server
  accepting :: nat
  sessions :: "nat \<Rightarrow> ('h, 'm, 's) connection option"
  reported :: "error_code list"

text \<open>
  What the effects of the server's functions do to its state. \<open>start\<close> is the connection after
  \<^verbatim>\<open>on_socket_connected\<close>, \<open>k\<close> the address of the session that was constructed for the accept
  that completes.
\<close>

fun performs ::
  "('h, 'm, 's) connection \<Rightarrow> nat \<Rightarrow> server_effect list \<Rightarrow> ('h, 'm, 's) mono_state \<Rightarrow> ('h, 'm, 's) mono_state" where
  "performs start k [] sv = sv"
| "performs start k (Async_accept # es) sv = performs start k es (sv\<lparr>accepting := Suc (accepting sv)\<rparr>)"
| "performs start k (Session_connected i # es) sv =
     performs start k es (sv\<lparr>sessions := (sessions sv)(k \<mapsto> start)\<rparr>)"
| "performs start k (Server_on_error ec # es) sv = performs start k es (sv\<lparr>reported := reported sv @ [ec]\<rparr>)"
| "performs start k (e # es) sv = performs start k es sv"

definition mono_begin ::
  "('h, 'm, 's) connection \<Rightarrow> setup_results \<Rightarrow> ('h, 'm, 's) mono_state option" where
  "mono_begin start r =
     map_option (\<lambda>(sv, es). performs start 0 es
         \<lparr>base = sv, accepting = 0, sessions = \<lambda>k. None, reported = []\<rparr>)
       (my_server r)"

text \<open>
  The steps: an accept completes, with any result; a connection takes a step of its session;
  and a session with nothing pending is destroyed.
\<close>

inductive mono_step ::
  "(('h, 'm, 's) connection \<Rightarrow> ('h, 'm, 's) connection \<Rightarrow> bool) \<Rightarrow> ('h, 'm, 's) connection
     \<Rightarrow> ('h, 'm, 's) mono_state \<Rightarrow> ('h, 'm, 's) mono_state \<Rightarrow> bool" for step start where
  Accept_done: "\<lbrakk>0 < accepting sv; sessions sv k = None\<rbrakk> \<Longrightarrow>
     mono_step step start sv
       (performs start k (mono_on_accept ec (base sv)) (sv\<lparr>accepting := accepting sv - 1\<rparr>))"
| Session_step: "\<lbrakk>sessions sv k = Some c; step c c'\<rbrakk> \<Longrightarrow>
     mono_step step start sv (sv\<lparr>sessions := (sessions sv)(k \<mapsto> c')\<rparr>)"
| Session_gone: "\<lbrakk>sessions sv k = Some c; pending c = {#}\<rbrakk> \<Longrightarrow>
     mono_step step start sv (sv\<lparr>sessions := (sessions sv)(k := None)\<rparr>)"

abbreviation mono_steps ::
  "(('h, 'm, 's) connection \<Rightarrow> ('h, 'm, 's) connection \<Rightarrow> bool) \<Rightarrow> ('h, 'm, 's) connection
     \<Rightarrow> ('h, 'm, 's) mono_state \<Rightarrow> ('h, 'm, 's) mono_state \<Rightarrow> bool" where
  "mono_steps step start \<equiv> (mono_step step start)\<^sup>*\<^sup>*"

text \<open>An accept that completes starts the next, and connects its session or reports the error.\<close>

lemma mono_accept_done:
  "performs start k (mono_on_accept ec (base sv)) sv =
     (if \<not> acceptor_open (base sv) then sv
      else if ec = No_error then
        sv\<lparr>accepting := Suc (accepting sv), sessions := (sessions sv)(k \<mapsto> start)\<rparr>
      else sv\<lparr>accepting := Suc (accepting sv), reported := reported sv @ [ec]\<rparr>)"
  by (simp add: mono_on_accept_def start_accept_def)

lemma mono_begin_result:
  assumes "mono_begin start r = Some sv"
  shows "base sv = fst (the (ez_server r)) \<and> accepting sv = (if acceptor_open (base sv) then 1 else 0) \<and>
     sessions sv = (\<lambda>k. None)"
  using assms
  by (auto simp: mono_begin_def my_server_def ez_server_def start_accept_def split: if_splits)

section \<open>The contract of a session class\<close>

text \<open>
  An invariant \<open>good\<close> of the connections, which holds at their start and is kept by their steps.
\<close>

locale mono_server =
  fixes step :: "('h, 'm, 's) connection \<Rightarrow> ('h, 'm, 's) connection \<Rightarrow> bool"
    and start :: "('h, 'm, 's) connection"
    and good :: "('h, 'm, 's) connection \<Rightarrow> bool"
  assumes good_start: "good start"
    and good_step: "\<lbrakk>good c; step c c'\<rbrakk> \<Longrightarrow> good c'"
begin

text \<open>What the server keeps, whatever its clients do.\<close>

lemma kept_by_step:
  assumes "mono_step step start sv sv'"
    and "accepting sv = (if acceptor_open (base sv) then 1 else 0)"
    and "\<And>k c. sessions sv k = Some c \<Longrightarrow> step\<^sup>*\<^sup>* start c"
  shows "base sv' = base sv \<and> accepting sv' = accepting sv \<and>
     (\<forall>k c. sessions sv' k = Some c \<longrightarrow> step\<^sup>*\<^sup>* start c)"
  using assms
proof cases
  case (Accept_done k ec)
  from Accept_done(2) assms(2) have "acceptor_open (base sv)" by (simp split: if_splits)
  with Accept_done(1,2) assms(3) show ?thesis
    by (auto simp: mono_accept_done [where sv = "sv\<lparr>accepting := _\<rparr>", simplified])
next
  case (Session_step k c c')
  then have "step\<^sup>*\<^sup>* start c'" using assms(3) by (meson rtranclp.rtrancl_into_rtrancl)
  with Session_step(1) assms(3) show ?thesis by auto
qed (use assms(3) in auto)

lemma reachable_server:
  assumes "mono_steps step start sv sv'" "mono_begin start r = Some sv"
  shows "base sv' = base sv \<and> accepting sv' = (if acceptor_open (base sv) then 1 else 0) \<and>
     (\<forall>k c. sessions sv' k = Some c \<longrightarrow> step\<^sup>*\<^sup>* start c)"
  using assms(1)
proof (induction rule: rtranclp_induct)
  case base
  then show ?case using mono_begin_result [OF assms(2)] by auto
next
  case (step sv1 sv2)
  with kept_by_step [OF step.hyps(2)] show ?case by auto
qed

lemma reachable_good:
  assumes "mono_steps step start sv sv'" "mono_begin start r = Some sv" "sessions sv' k = Some c"
  shows "good c"
proof -
  have "step\<^sup>*\<^sup>* start c" using reachable_server [OF assms(1,2)] assms(3) by blast
  then show ?thesis
    by (induction rule: rtranclp_induct) (auto intro: good_start good_step)
qed

text \<open>Every run of one connection is a run of the server, and nothing else of it changes.\<close>

lemma run_of_one:
  assumes "step\<^sup>*\<^sup>* c c'" "sessions sv k = Some c"
  shows "mono_steps step start sv (sv\<lparr>sessions := (sessions sv)(k \<mapsto> c')\<rparr>)"
  using assms(1)
proof (induction rule: rtranclp_induct)
  case base
  have "(sessions sv)(k \<mapsto> c) = sessions sv" using assms(2) by auto
  then show ?case by simp
next
  case (step c1 c2)
  have "mono_step step start (sv\<lparr>sessions := (sessions sv)(k \<mapsto> c1)\<rparr>)
      ((sv\<lparr>sessions := (sessions sv)(k \<mapsto> c1)\<rparr>)
         \<lparr>sessions := (sessions (sv\<lparr>sessions := (sessions sv)(k \<mapsto> c1)\<rparr>))(k \<mapsto> c2)\<rparr>)"
    using step.hyps(2) by (intro Session_step) simp_all
  with step.IH show ?case by (simp add: rtranclp.rtrancl_into_rtrancl del: fun_upd_apply)
qed

text \<open>The server takes a new client at any time, and can serve it.\<close>

lemma serves_next:
  assumes "mono_steps step start sv sv'" "mono_begin start r = Some sv" "acceptor_open (base sv)"
    and "sessions sv' k = None" "step\<^sup>*\<^sup>* start c"
  shows "mono_steps step start sv' (sv'\<lparr>sessions := (sessions sv')(k \<mapsto> c)\<rparr>)"
proof -
  from reachable_server [OF assms(1,2)] assms(3)
  have sv': "accepting sv' = 1" "acceptor_open (base sv')" by simp_all
  from Accept_done [where ec = No_error and sv = sv', OF _ assms(4)] sv'
  have "mono_step step start sv' (sv'\<lparr>sessions := (sessions sv')(k \<mapsto> start)\<rparr>)"
    by (cases sv') (simp add: mono_on_accept_def start_accept_def)
  also from run_of_one [OF assms(5), of "sv'\<lparr>sessions := (sessions sv')(k \<mapsto> start)\<rparr>" k]
  have "mono_steps step start (sv'\<lparr>sessions := (sessions sv')(k \<mapsto> start)\<rparr>)
      (sv'\<lparr>sessions := (sessions sv')(k \<mapsto> c)\<rparr>)" by simp
  finally show ?thesis .
qed

end

end
