(* ===== verification/Json_Server.thy ===== *)
theory Json_Server
  imports Ws_Echo Property_Tree
begin

text \<open>
  \<^verbatim>\<open>examples/json_server\<close>: a mono protocol server of WebSocket sessions that answers two JSON
  questions, an echo with time stamps and the regular files of the current directory with
  their paths shortened to a length the client asks for.

  The JSON library, the clock and the directory are the fields of \<open>json_env\<close>.
\<close>

section \<open>The messages\<close>

text \<open>\<^verbatim>\<open>protocol_messages.hpp\<close>: the message identifiers with their values.\<close>

datatype json_id =
    Question_echo_timed
  | Response_echo_timed
  | Question_files_current_directory
  | Response_files_current_directory

fun json_id_code :: "json_id \<Rightarrow> 8 word" where
  "json_id_code Question_echo_timed = 1"
| "json_id_code Response_echo_timed = 2"
| "json_id_code Question_files_current_directory = 3"
| "json_id_code Response_files_current_directory = 4"

text \<open>
  The constructor from a tree asserts the identifier, reading it again; the member function
  \<^verbatim>\<open>json\<close> adds it.
\<close>

definition message_protocol :: "bool \<Rightarrow> json_id \<Rightarrow> ptree \<Rightarrow> unit attempt" where
  "message_protocol checked i pt =
     boost_assert checked (and_then (fetch (get_int8 pt ''id'')) (\<lambda>n. Inr (n = json_id_code i)))"

definition message_protocol_json :: "json_id \<Rightarrow> fields" where
  "message_protocol_json i = [(''id'', Int8 (json_id_code i))]"

record question_echo =
  client_sent :: "64 word"
  message_text :: string

definition msg_question_echo_timed :: "bool \<Rightarrow> ptree \<Rightarrow> question_echo attempt" where
  "msg_question_echo_timed checked pt =
     and_then (message_protocol checked Question_echo_timed pt) (\<lambda>_.
     and_then (fetch (get_int64 pt ''client_sent'')) (\<lambda>sent.
     and_then (fetch (get_string pt ''message'')) (\<lambda>msg.
       Inr \<lparr>client_sent = sent, message_text = msg\<rparr>)))"

record response_echo =
  client_to_server :: question_echo
  server_received :: "64 word"

definition response_echo_json :: "response_echo \<Rightarrow> fields" where
  "response_echo_json r =
     message_protocol_json Response_echo_timed @
     [(''client_sent'', Int64 (client_sent (client_to_server r))),
      (''message'', Text (message_text (client_to_server r))),
      (''server_received'', Int64 (server_received r))]"

definition msg_question_files :: "bool \<Rightarrow> ptree \<Rightarrow> 32 word attempt" where
  "msg_question_files checked pt =
     and_then (message_protocol checked Question_files_current_directory pt) (\<lambda>_.
       fetch (get_uint32 pt ''max_length''))"

definition response_files_json :: "string list \<Rightarrow> fields" where
  "response_files_json files =
     message_protocol_json Response_files_current_directory @ [(''files'', Texts files)]"

section \<open>The session\<close>

text \<open>
  \<open>directory\<close> lists the entries of the current directory, each with the result of
  \<^verbatim>\<open>is_regular_file\<close> and its path as a string; \<open>None\<close> when listing them throws.
\<close>

record json_env =
  checked :: bool
  read_json :: "string \<Rightarrow> ptree option"
  write_json :: "fields \<Rightarrow> string"
  now :: "64 word"
  directory :: "(bool \<times> string) list option"

definition on_message_echo :: "json_env \<Rightarrow> question_echo \<Rightarrow> string" where
  "on_message_echo env msg =
     write_json env (response_echo_json \<lparr>client_to_server = msg, server_received = now env\<rparr>)"

text \<open>
  Shortening a path: \<^verbatim>\<open>midLeft\<close> and \<^verbatim>\<open>midRight\<close> are iterators, here their distance to the
  beginning; both are moved by signed differences. The half of the maximal length is an
  unsigned 32 bit number, converted to the 64 bits of a difference.
\<close>

definition shorten_path :: "32 word \<Rightarrow> string \<Rightarrow> string attempt" where
  "shorten_path max_length path =
     (if length path > unat max_length then
        let half = int (unat (max_length div 2));
            mid = int (length path div 2);
            mid_left = mid + (half - mid - 2);
            mid_right = mid + ((int (length path) - mid) - half + 1)
        in if mid_left < 0 \<or> mid_left > int (length path) \<or>
              mid_right < 0 \<or> mid_right > int (length path) then Inl Out_of_string
           else Inr (take (nat mid_left) path @ ''...'' @ drop (nat mid_right) path)
      else Inr path)"

definition on_message_files :: "json_env \<Rightarrow> 32 word \<Rightarrow> string attempt" where
  "on_message_files env max_length =
     (case directory env of
        None \<Rightarrow> Inl Filesystem_error
      | Some entries \<Rightarrow>
          and_then (all_attempts (map (shorten_path max_length \<circ> snd) (filter fst entries)))
            (\<lambda>files. Inr (write_json env (response_files_json files))))"

text \<open>The answer to a message; no answer for an identifier the server does not know.\<close>

definition json_answer :: "json_env \<Rightarrow> string \<Rightarrow> string option attempt" where
  "json_answer env json_msg =
     and_then (fetch (read_json env json_msg)) (\<lambda>pt.
     and_then (fetch (get_uint8 pt ''id'')) (\<lambda>msgId.
       if msgId = json_id_code Question_echo_timed then
         and_then (msg_question_echo_timed (checked env) pt) (\<lambda>q. Inr (Some (on_message_echo env q)))
       else if msgId = json_id_code Question_files_current_directory then
         and_then (msg_question_files (checked env) pt) (\<lambda>n.
           and_then (on_message_files env n) (\<lambda>a. Inr (Some a)))
       else Inr None))"

text \<open>
  \<^verbatim>\<open>on_read\<close> catches \<^verbatim>\<open>ptree_error\<close> and nothing else: every other failure leaves the handler
  (\<open>None\<close>).
\<close>

definition json_on_read ::
  "json_env \<Rightarrow> byte_order \<Rightarrow> 8 word list \<Rightarrow> string \<Rightarrow> 'a tcp_session_scheme
     \<Rightarrow> (ws_handler, 'a tcp_session_scheme) step option" where
  "json_on_read env ord raw json_msg s =
     (case json_answer env json_msg of
        Inr (Some answer) \<Rightarrow> Some (ws_async_write ord raw answer s)
      | Inr None \<Rightarrow> Some (s, [])
      | Inl Ptree_error \<Rightarrow> Some (s, [])
      | Inl _ \<Rightarrow> None)"

definition json_derived :: "json_env \<Rightarrow> byte_order \<Rightarrow> 8 word list \<Rightarrow> 'a ws_derived" where
  "json_derived env ord raw =
     \<lparr>call_on_read = json_on_read env ord raw,
      call_on_success = \<lambda>s. Some (ws_on_handshake_success s)\<rparr>"

lemmas json_defs [handler_defs] =
  message_protocol_def message_protocol_json_def msg_question_echo_timed_def response_echo_json_def
  msg_question_files_def response_files_json_def on_message_echo_def on_message_files_def
  json_answer_def json_on_read_def

text \<open>A session of the JSON server keeps the contract of a WebSocket application.\<close>

interpretation json_server: ws_application "json_derived env ord"
  by unfold_locales
     (auto simp: json_derived_def json_on_read_def ws_async_write_def ws_on_handshake_success_def
        split: prod.splits sum.splits option.splits json_error.splits if_splits)

section \<open>Shortened paths\<close>

lemma shorten_path_eq:
  "shorten_path n path =
     (if length path \<le> unat n then Inr path
      else if unat n < 4 then Inl Out_of_string
      else Inr (take (unat n div 2 - 2) path @ ''...'' @ drop (length path - (unat n div 2 - 1)) path))"
proof (cases "length path \<le> unat n")
  case False
  have half: "unat (n div 2) = unat n div 2" by (simp add: unat_div)
  show ?thesis
  proof (cases "unat n < 4")
    case True
    then have "unat n div 2 < 2" by simp
    with False True show ?thesis by (auto simp: shorten_path_def half Let_def)
  next
    case big: False
    then have "2 \<le> unat n div 2" "unat n div 2 \<le> unat n" by simp_all
    moreover have "nat (int (length path div 2) + (int (length path) - int (length path div 2) -
        int (unat n div 2) + 1)) = length path - (unat n div 2 - 1)"
      using calculation False by (simp add: nat_diff_distrib)
    ultimately show ?thesis
      using False big by (auto simp: shorten_path_def half Let_def nat_diff_distrib)
  qed
qed (simp add: shorten_path_def)

section \<open>Properties\<close>

text \<open>
  C16. The paths the server answers with: a shortened path is never longer than the client
  asked for, has exactly that length made even, and keeps the beginning and the end of the
  path around three dots; a path that fits is left as it is. The only failure is a maximal
  length below 4, for which the iterators leave the string.
\<close>

theorem shorten_path_bounds:
  "case shorten_path n path of
     Inr short \<Rightarrow>
       length short \<le> unat n \<and>
       (if length path \<le> unat n then short = path
        else \<exists>front gone back. path = front @ gone @ back \<and> short = front @ ''...'' @ back \<and>
               length short = 2 * (unat n div 2) \<and> length back = Suc (length front))
   | Inl e \<Rightarrow> e = Out_of_string \<and> unat n < length path \<and> unat n < 4"
proof (cases "length path \<le> unat n \<or> unat n < 4")
  case True
  then show ?thesis by (auto simp: shorten_path_eq)
next
  case False
  define h where "h = unat n div 2"
  have h: "2 \<le> h" "2 * h \<le> unat n" "unat n < length path" using False by (auto simp: h_def)
  have len: "length (take (h - 2) path @ ''...'' @ drop (length path - (h - 1)) path) = 2 * h"
    using h by simp
  have "h - 2 \<le> length path - (h - 1)" using h by simp
  note split = take_middle_drop [OF this, of path]
  have short: "shorten_path n path =
      Inr (take (h - 2) path @ ''...'' @ drop (length path - (h - 1)) path)"
    using False by (simp add: shorten_path_eq h_def)
  have tail: "length (drop (length path - (h - 1)) path) = Suc (length (take (h - 2) path))"
    using h by simp
  have "\<exists>front gone back. path = front @ gone @ back \<and>
      take (h - 2) path @ ''...'' @ drop (length path - (h - 1)) path = front @ ''...'' @ back \<and>
      length (take (h - 2) path @ ''...'' @ drop (length path - (h - 1)) path) = 2 * h \<and>
      length back = Suc (length front)"
    by (rule exI, rule exI, rule exI, intro conjI, rule split, rule refl, rule len, rule tail)
  then show ?thesis
    using h unfolding short sum.case len by (simp add: h_def [symmetric])
qed

theorem shorten_path_bounds_instance:
  "shorten_path 10 ''/home/me/a.txt'' = Inr ''/ho....txt''"
  by (simp add: shorten_path_eq)

text \<open>
  C21. The question for the files is answered with the paths of the regular files of the
  directory, in its order, none longer than asked; but a client that asks for a length below
  4, when some path is longer, makes the handler fail outside the string, which nothing
  catches.
\<close>

theorem json_files_answer:
  assumes "read_json env text = Some pt" "get_uint8 pt ''id'' = Some 3" "get_int8 pt ''id'' = Some 3"
    and "get_uint32 pt ''max_length'' = Some n" "directory env = Some entries"
  shows "json_on_read env ord raw text s =
     (if \<exists>e\<in>set entries. fst e \<and> unat n < length (snd e) \<and> unat n < 4 then None
      else Some (ws_async_write ord raw
        (write_json env [(''id'', Int8 4),
           (''files'', Texts (map (\<lambda>e. projr (shorten_path n (snd e))) (filter fst entries)))]) s))"
proof -
  let ?f = "shorten_path n \<circ> snd"
  have answer: "json_answer env text =
      and_then (all_attempts (map ?f (filter fst entries)))
        (\<lambda>files. Inr (Some (write_json env [(''id'', Int8 4), (''files'', Texts files)])))"
    using assms by (cases "all_attempts (map ?f (filter fst entries))")
      (auto simp: json_defs boost_assert_def)
  show ?thesis
  proof (cases "\<exists>e\<in>set entries. fst e \<and> unat n < length (snd e) \<and> unat n < 4")
    case True
    then have ex: "\<exists>e\<in>set (filter fst entries). unat n < length (snd e)" and four: "unat n < 4"
      by fastforce+
    obtain as e bs where split: "filter fst entries = as @ e # bs"
      and e: "unat n < length (snd e)" and "\<forall>x\<in>set as. \<not> unat n < length (snd x)"
      by (rule split_list_first_propE [OF ex])
    then have "all_attempts (map ?f (filter fst entries)) = Inl Out_of_string"
      unfolding split using four by (intro all_attempts_fails [where g = snd]) (auto simp: shorten_path_eq)
    with True show ?thesis by (simp add: json_on_read_def answer)
  next
    case False
    then have "all_attempts (map ?f (filter fst entries)) =
        Inr (map (\<lambda>e. projr (shorten_path n (snd e))) (filter fst entries))"
      by (intro all_attempts_map_Inr) (auto simp: shorten_path_eq)
    with False show ?thesis by (simp add: json_on_read_def answer)
  qed
qed

theorem json_files_answer_witness:
  "json_on_read \<lparr>checked = True, read_json = \<lambda>_. Some \<lparr>get_uint8 = \<lambda>_. Some 3, get_int8 = \<lambda>_. Some 3,
       get_int64 = \<lambda>_. None, get_uint32 = \<lambda>_. Some 2, get_string = \<lambda>_. None\<rparr>,
       write_json = \<lambda>_. [], now = 0, directory = Some [(True, ''/a/b'')]\<rparr>
     Little [0, 0, 0, 0] ''q'' \<lparr>is_open = True\<rparr> = None"
  by (subst json_files_answer [where n = 2 and entries = "[(True, ''/a/b'')]" and pt = "\<lparr>get_uint8 = \<lambda>_. Some 3,
        get_int8 = \<lambda>_. Some 3, get_int64 = \<lambda>_. None, get_uint32 = \<lambda>_. Some 2, get_string = \<lambda>_. None\<rparr>"])
     simp_all

text \<open>
  C23. The echo question from frame to frame: a client frame with the question, read in one
  piece, makes the server write one unmasked text frame with the answer, which repeats the
  client's time stamp and text and adds the time of the server, and wait for the next frame.
\<close>

theorem json_echo_answer:
  assumes "ok_message m" "ws_order wenv = Little"
    and "read_json env (cm_text m) = Some pt" "get_uint8 pt ''id'' = Some 1" "get_int8 pt ''id'' = Some 1"
    and "get_int64 pt ''client_sent'' = Some sent" "get_string pt ''message'' = Some msg"
    and "answer = write_json env [(''id'', Int8 2), (''client_sent'', Int64 sent),
           (''message'', Text msg), (''server_received'', Int64 (now env))]" "length answer \<noteq> 65536"
  shows "ws_mono_handle wenv mem (cm_raw m) (json_derived env Little (cm_raw m))
       (On_read_dataframe frame_parser_init) No_error (snd (message_read m)) s =
     Some (s, [Async_write (text_frame answer) (On_write_dataframe (sent_frame Little (cm_raw m) answer)),
               read_next_frame])"
proof -
  have "json_answer env (cm_text m) = Inr (Some answer)"
    using assms(3-8) by (simp add: json_defs boost_assert_def)
  then have "call_on_read (json_derived env Little (cm_raw m)) (cm_text m) s =
      Some (s, [Async_write (text_frame answer) (On_write_dataframe (sent_frame Little (cm_raw m) answer))])"
    using ws_async_write_text [OF assms(9), of Little "cm_raw m" s]
    by (simp add: json_derived_def json_on_read_def del: rfc_frame.simps)
  then show ?thesis
    using on_read_message [OF assms(1), of "ws_os wenv" s] assms(2)
    by (simp add: ws_mono_handle_def resolved_def read_next_frame_def del: rfc_frame.simps)
qed

theorem json_echo_answer_witness:
  "\<exists>df. ws_mono_handle \<lparr>ws_sha1 = \<lambda>_. [], ws_b64 = sample_b64, ws_order = Little, ws_os = (No_error, No_error)\<rparr>
     (0, 0) [1, 1, 1, 1]
     (json_derived \<lparr>checked = True, read_json = \<lambda>_. Some \<lparr>get_uint8 = \<lambda>_. Some 1, get_int8 = \<lambda>_. Some 1,
       get_int64 = \<lambda>_. Some 5, get_uint32 = \<lambda>_. None, get_string = \<lambda>_. Some ''hi''\<rparr>,
       write_json = \<lambda>_. ''answer'', now = 9, directory = None\<rparr> Little [1, 1, 1, 1])
     (On_read_dataframe frame_parser_init) No_error
     (snd (message_read \<lparr>cm_raw = [1, 1, 1, 1], cm_fin = True, cm_key = [1, 2, 3, 4], cm_text = ''q'', cm_later = []\<rparr>))
     \<lparr>is_open = True\<rparr> =
   Some (\<lparr>is_open = True\<rparr>, [Async_write (text_frame ''answer'') (On_write_dataframe df), read_next_frame])"
  using json_echo_answer [where m = "\<lparr>cm_raw = [1, 1, 1, 1], cm_fin = True, cm_key = [1, 2, 3, 4],
        cm_text = ''q'', cm_later = []\<rparr>" and answer = "''answer''" and sent = 5 and msg = "''hi''"
      and wenv = "\<lparr>ws_sha1 = \<lambda>_. [], ws_b64 = sample_b64, ws_order = Little, ws_os = (No_error, No_error)\<rparr>"
      and env = "\<lparr>checked = True, read_json = \<lambda>_. Some \<lparr>get_uint8 = \<lambda>_. Some 1, get_int8 = \<lambda>_. Some 1,
        get_int64 = \<lambda>_. Some 5, get_uint32 = \<lambda>_. None, get_string = \<lambda>_. Some ''hi''\<rparr>,
        write_json = \<lambda>_. ''answer'', now = 9, directory = None\<rparr>"
      and pt = "\<lparr>get_uint8 = \<lambda>_. Some 1, get_int8 = \<lambda>_. Some 1,
        get_int64 = \<lambda>_. Some 5, get_uint32 = \<lambda>_. None, get_string = \<lambda>_. Some ''hi''\<rparr>"
      and mem = "(0, 0)" and s = "\<lparr>is_open = True\<rparr>"]
  by (intro exI [of _ "sent_frame Little [1, 1, 1, 1] ''answer''"])
     (simp add: ok_message_def del: rfc_frame.simps)

text \<open>
  Wrong messages do not end the connection: text that is no JSON, a message without an
  identifier, one with an unknown identifier, and a question without its fields get no
  answer, and the session waits for the next frame.
\<close>

lemma json_wrong_message_ignored:
  assumes "ok_message m" "ws_order wenv = Little"
    and "case read_json env (cm_text m) of
           None \<Rightarrow> True
         | Some pt \<Rightarrow>
             (case get_uint8 pt ''id'' of
                None \<Rightarrow> True
              | Some i \<Rightarrow>
                  i \<notin> {1, 3} \<or>
                  get_int8 pt ''id'' = Some i \<and>
                  (if i = 1 then get_int64 pt ''client_sent'' = None \<or> get_string pt ''message'' = None
                   else get_uint32 pt ''max_length'' = None))"
  shows "ws_mono_handle wenv mem (cm_raw m) (json_derived env Little (cm_raw m))
       (On_read_dataframe frame_parser_init) No_error (snd (message_read m)) s =
     Some (s, [read_next_frame])"
proof -
  have "json_answer env (cm_text m) \<in> {Inr None, Inl Ptree_error}"
    using assms(3)
    by (cases "get_int64 (the (read_json env (cm_text m))) ''client_sent''")
       (auto simp: json_defs boost_assert_def split: option.splits if_splits)
  then have "call_on_read (json_derived env Little (cm_raw m)) (cm_text m) s = Some (s, [])"
    by (auto simp: json_derived_def json_on_read_def)
  then show ?thesis
    using on_read_message [OF assms(1), of "ws_os wenv" s] assms(2)
    by (simp add: ws_mono_handle_def resolved_def read_next_frame_def)
qed

end
