(* ===== verification/Mono_Servers.thy ===== *)
theory Mono_Servers
  imports Mono_Server Mono_Echo Json_Server
begin

text \<open>
  The three mono protocol servers of \<^verbatim>\<open>src/examples\<close> with all their clients: the echo server,
  the WebSocket echo server and the JSON server are instances of \<open>mono_server\<close>. What holds of one
  connection holds of all of them at once, the servers never stop accepting, and for the JSON
  server it is known with which messages a client ends the program.
\<close>

section \<open>The session classes keep the contract\<close>

interpretation echo: mono_server "loop_step fits (echo_handle os)" echo_start echo_inv
  by unfold_locales (rule echo_inv_start, rule echo_inv_step)

text \<open>Every WebSocket application is a session class, for any environment.\<close>

sublocale ws_application \<subseteq> mono: mono_server "ws_step env d" "ws_start s" connection_inv for env s
  by unfold_locales (rule connection_inv_start, rule connection_inv_step)

text \<open>
  The sessions of the JSON server find another clock and another directory in each call:
  \<open>envs\<close> is what they can find.
\<close>

definition json_step ::
  "ws_env \<Rightarrow> json_env set \<Rightarrow> (ws_handler, string, 'a tcp_session_scheme) connection
     \<Rightarrow> (ws_handler, string, 'a tcp_session_scheme) connection \<Rightarrow> bool" where
  "json_step wenv envs c c' \<longleftrightarrow> (\<exists>env\<in>envs. ws_step wenv (json_derived env (ws_order wenv)) c c')"

definition json_fails ::
  "ws_env \<Rightarrow> json_env set \<Rightarrow> (ws_handler, string, 'a tcp_session_scheme) connection \<Rightarrow> bool" where
  "json_fails wenv envs c \<longleftrightarrow> (\<exists>env\<in>envs. ws_fails wenv (json_derived env (ws_order wenv)) c)"

interpretation json: mono_server "json_step wenv envs" "ws_start s" connection_inv
  by unfold_locales
     (auto simp: json_step_def intro: json_server.connection_inv_start json_server.connection_inv_step)

section \<open>Runs of the echo\<close>

lemma echo_served:
  assumes "\<forall>m\<in>set msgs. fits On_async_read_string m"
  shows "\<exists>c. loop_steps fits (echo_handle os) echo_start c \<and> is_open (obj c) \<and>
     pending c = {#Async_read_some On_async_read_string#} \<and>
     received c = msgs \<and> written c = map (\<lambda>m. (m, No_error)) msgs"
  using assms
proof (induction msgs rule: rev_induct)
  case Nil
  show ?case
    by (intro exI [of _ echo_start])
       (simp add: echo_start_def open_connection_def echo_server_defs async_read_string_def)
next
  case (snoc m msgs)
  then obtain c where c: "loop_steps fits (echo_handle os) echo_start c" "is_open (obj c)"
    "pending c = {#Async_read_some On_async_read_string#}" "received c = msgs"
    "written c = map (\<lambda>m. (m, No_error)) msgs" by auto
  from echo_read_written [OF c(3), of fits m os] snoc.prems obtain c' where
    "loop_steps fits (echo_handle os) c c'" "obj c' = obj c" "pending c' = pending c"
    "received c' = received c @ [m]" "written c' = written c @ [(m, No_error)]" by auto
  with c show ?case by (intro exI [of _ c']) auto
qed

section \<open>What ends the JSON server\<close>

text \<open>
  The messages that end the program: with assertions a question whose identifier reads
  differently as a signed number, and the question for the files when they cannot be listed or
  when one of their paths is longer than the length asked for, which is below 4.
\<close>

definition fatal_text :: "json_env \<Rightarrow> string \<Rightarrow> bool" where
  "fatal_text env text =
     (case read_json env text of
        None \<Rightarrow> False
      | Some pt \<Rightarrow>
          (case get_uint8 pt ''id'' of
             None \<Rightarrow> False
           | Some i \<Rightarrow>
               (i = 1 \<or> i = 3) \<and>
               (if checked env \<and> get_int8 pt ''id'' \<noteq> Some i then get_int8 pt ''id'' \<noteq> None
                else i = 3 \<and>
                  (case get_uint32 pt ''max_length'' of
                     None \<Rightarrow> False
                   | Some n \<Rightarrow>
                       (case directory env of
                          None \<Rightarrow> True
                        | Some entries \<Rightarrow>
                            unat n < 4 \<and> list_ex (\<lambda>e. fst e \<and> unat n < length (snd e)) entries)))))"

lemma shorten_path_uncaught [simp]: "uncaught (shorten_path n path) \<longleftrightarrow> unat n < 4 \<and> unat n < length path"
  by (simp add: shorten_path_eq)

lemma uncaught_all_attempts:
  "(\<And>e. \<lbrakk>e \<in> set es; f e = Inl Ptree_error\<rbrakk> \<Longrightarrow> False) \<Longrightarrow>
     uncaught (all_attempts (map f es)) \<longleftrightarrow> list_ex (\<lambda>e. uncaught (f e)) es"
proof (induction es)
  case (Cons e es)
  then show ?case
    by (cases "f e"; cases "all_attempts (map f es)") auto
qed simp

lemma on_message_files_uncaught [simp]:
  "uncaught (on_message_files env n) \<longleftrightarrow>
     (case directory env of
        None \<Rightarrow> True
      | Some entries \<Rightarrow> unat n < 4 \<and> list_ex (\<lambda>e. fst e \<and> unat n < length (snd e)) entries)"
proof (cases "directory env")
  case (Some entries)
  have "uncaught (all_attempts (map (shorten_path n \<circ> snd) (filter fst entries))) \<longleftrightarrow>
      list_ex (\<lambda>e. uncaught ((shorten_path n \<circ> snd) e)) (filter fst entries)"
    by (intro uncaught_all_attempts) (auto simp: shorten_path_eq split: if_splits)
  also have "\<dots> \<longleftrightarrow> unat n < 4 \<and> list_ex (\<lambda>e. fst e \<and> unat n < length (snd e)) entries"
    by (induction entries) auto
  finally show ?thesis by (simp add: on_message_files_def Some)
qed (simp add: on_message_files_def)

lemma json_on_read_None_iff: "json_on_read env ord raw text s = None \<longleftrightarrow> fatal_text env text"
proof -
  have "json_on_read env ord raw text s = None \<longleftrightarrow> uncaught (json_answer env text)"
    by (auto simp: json_on_read_def uncaught_def split: sum.splits option.splits json_error.splits)
  also have "\<dots> \<longleftrightarrow> fatal_text env text"
    by (auto simp: json_answer_def fatal_text_def msg_question_echo_timed_def msg_question_files_def
        message_protocol_def and_then_Inr_iff boost_assert_passed split: option.splits if_splits)
  finally show ?thesis .
qed

section \<open>Properties\<close>

text \<open>
  C14. The echo server answers every client in order: in every state the server can reach, with
  any number of clients that connect, send and fail as they like, exactly one accept is
  pending, and of each connection the strings read are the strings written back, in the same
  order, and at most one that is being written; while its socket is open exactly one operation
  is pending, so it neither stalls nor runs two at once, and afterwards none; and no handler
  fails.
\<close>

theorem echo_server_all_in_order:
  assumes "mono_begin echo_start r = Some sv0" "acceptor_open (base sv0)"
    and "mono_steps (loop_step fits (echo_handle os)) echo_start sv0 sv" "sessions sv k = Some c"
  shows "accepting sv = 1 \<and>
     (\<exists>rest. received c = map fst (written c) @ rest \<and>
        (rest = [] \<or> (\<exists>m. rest = [m] \<and> pending c = {#Async_write m On_write#}))) \<and>
     size (pending c) = (if is_open (obj c) then 1 else 0) \<and>
     \<not> loop_fails fits (echo_handle os) c"
proof -
  have "accepting sv = 1" using echo.reachable_server [OF assms(3,1)] assms(2) by simp
  moreover have "loop_steps fits (echo_handle os) echo_start c"
    using echo.reachable_server [OF assms(3,1)] assms(4) by blast
  from echo_in_order [OF this] show ?thesis using calculation by blast
qed

text \<open>
  C39. The echo server never stops serving: from every state it can reach, whatever state its
  other clients are in, it can accept one more client, read any strings from it and write
  them back in order, without touching the other connections.
\<close>

theorem echo_server_serves_next:
  assumes "mono_begin echo_start r = Some sv0" "acceptor_open (base sv0)"
    and "mono_steps (loop_step fits (echo_handle os)) echo_start sv0 sv" "sessions sv k = None"
    and "\<forall>m\<in>set msgs. fits On_async_read_string m"
  shows "\<exists>c. mono_steps (loop_step fits (echo_handle os)) echo_start sv (sv\<lparr>sessions := (sessions sv)(k \<mapsto> c)\<rparr>) \<and>
     is_open (obj c) \<and> received c = msgs \<and> written c = map (\<lambda>m. (m, No_error)) msgs"
proof -
  obtain c where "loop_steps fits (echo_handle os) echo_start c" "is_open (obj c)"
    "received c = msgs" "written c = map (\<lambda>m. (m, No_error)) msgs"
    using echo_served [where msgs = msgs and fits = fits and os = os] assms(5) by blast
  with echo.serves_next [OF assms(3,1,2,4)] show ?thesis by blast
qed

text \<open>
  C17. In every state the WebSocket echo server can reach, with any number of clients, whatever
  they send, whichever operations fail and whatever the uninitialised memory holds, each
  connection is sound: only handlers of this kind of server are pending on it, none of them
  can fail an assertion, and at most one of them waits for input or for the answer of the
  handshake. Exactly one accept is pending.
\<close>

theorem ws_echo_server_all_safe:
  assumes "mono_begin (ws_start s) r = Some sv0" "acceptor_open (base sv0)"
    and "mono_steps (ws_step env (ws_echo_derived (ws_order env))) (ws_start s) sv0 sv"
    and "sessions sv k = Some c"
  shows "accepting sv = 1 \<and> \<not> ws_fails env (ws_echo_derived (ws_order env)) c \<and>
     (\<forall>p\<in>#pending c. mono_op p) \<and> reads_of (pending c) \<le> 1"
  using ws_echo.mono.reachable_server [OF assms(3,1)] ws_echo.mono.reachable_good [OF assms(3,1,4)]
    ws_echo.never_fails assms(2)
  by (auto simp: connection_inv_def)

text \<open>
  C22. The JSON server fails only for messages that are known to end it: in every state it can
  reach, with any number of clients and any environment of its handlers, each connection is
  sound as those of the WebSocket echo server are, and a handler of it can fail only if, in
  some environment, there is a message that ends the program.
\<close>

theorem json_server_safe:
  assumes "mono_begin (ws_start s) r = Some sv0" "acceptor_open (base sv0)"
    and "mono_steps (json_step wenv envs) (ws_start s) sv0 sv" "sessions sv k = Some c"
  shows "accepting sv = 1 \<and> (\<forall>p\<in>#pending c. mono_op p) \<and> reads_of (pending c) \<le> 1 \<and>
     (json_fails wenv envs c \<longrightarrow> (\<exists>env\<in>envs. \<exists>text. fatal_text env text))"
proof -
  have inv: "connection_inv c" by (rule json.reachable_good [OF assms(3,1,4)])
  have "\<exists>env\<in>envs. \<exists>text. fatal_text env text" if fails: "json_fails wenv envs c"
  proof (rule ccontr)
    assume none: "\<not> (\<exists>env\<in>envs. \<exists>text. fatal_text env text)"
    obtain env where env: "env \<in> envs" "ws_fails wenv (json_derived env (ws_order wenv)) c"
      using fails by (auto simp: json_fails_def)
    with none have "\<not> fatal_text env m" for m by blast
    then have "call_on_read (json_derived env (ws_order wenv) raw) m s \<noteq> None" for raw m and s :: "'a tcp_session_scheme"
      by (simp add: json_derived_def json_on_read_None_iff del: not_None_eq)
    from json_server.never_fails_if [OF inv this] env(2) show False
      by (simp add: json_derived_def)
  qed
  with inv json.reachable_server [OF assms(3,1)] assms(2) show ?thesis
    by (simp add: connection_inv_def)
qed

text \<open>
  C32. And every such message that fits one read does, which is a message of at most 8184 bytes
  with the 8 bytes that frame it: from every state the JSON server can reach, one more client
  can connect, upgrade and, by sending the message in one frame that arrives in one read, make
  the handler fail, which ends the program for all clients. For the files question a maximal
  length of 0 suffices, as soon as there is a file. Longer messages, which take several reads,
  are no part of this: they are lost, as every frame that arrives in pieces.
\<close>

theorem json_server_ended:
  assumes "mono_begin (ws_start s) r = Some sv0" "acceptor_open (base sv0)"
    and "mono_steps (json_step wenv envs) (ws_start s) sv0 sv" "sessions sv k = None"
    and "ws_order wenv = Little" "env \<in> envs" "fatal_text env msg" "length msg \<le> 8184"
  shows "\<exists>c. mono_steps (json_step wenv envs) (ws_start s) sv (sv\<lparr>sessions := (sessions sv)(k \<mapsto> c)\<rparr>) \<and>
     json_fails wenv envs c"
proof -
  let ?m = "\<lparr>cm_raw = [0, 0, 0, 0], cm_fin = True, cm_key = [0, 0, 0, 0], cm_text = msg, cm_later = []\<rparr>"
  let ?d = "json_derived env (ws_order wenv)"
  obtain c where c: "(ws_step wenv ?d)\<^sup>*\<^sup>* (ws_start s) c" "pending c = {#read_next_frame#}"
    using upgrade_handshake [where d = ?d and env = wenv and s = s] by (auto simp: json_derived_def)
  have "(json_step wenv envs)\<^sup>*\<^sup>* (ws_start s) c"
    using c(1) by (rule rtranclp_mono [THEN predicate2D, rotated]) (use assms(6) in \<open>auto simp: json_step_def\<close>)
  with json.serves_next [OF assms(3,1,2,4)]
  have run: "mono_steps (json_step wenv envs) (ws_start s) sv (sv\<lparr>sessions := (sessions sv)(k \<mapsto> c)\<rparr>)" .
  have len: "length (rfc_length True (length msg)) + length msg \<le> 8187"
    using assms(8) by (simp add: rfc_length_def Let_def)
  have "ok_message ?m" using assms(8) by (simp add: ok_message_def)
  from on_read_message [OF this, of "ws_os wenv" "obj c"] assms(5,7)
  have "ws_mono_handle wenv (0, 0) [0, 0, 0, 0] (?d [0, 0, 0, 0]) (On_read_dataframe frame_parser_init)
      No_error (snd (message_read ?m)) (obj c) = None"
    by (simp add: ws_mono_handle_def resolved_def json_derived_def json_on_read_None_iff [THEN iffD2])
  then have "loop_fails fits_buffer (ws_mono_handle wenv (0, 0) [0, 0, 0, 0] (?d [0, 0, 0, 0])) c"
    by (rule loop_fails.intros(1) [rotated 2])
       (use c(2) len in \<open>simp_all add: read_next_frame_def fits_buffer_def message_read_def buffer_size_def\<close>)
  then have "json_fails wenv envs c"
    using assms(6) unfolding json_fails_def ws_fails_def by (intro bexI exI conjI) simp_all
  with run show ?thesis by blast
qed

section \<open>Servers with clients\<close>

text \<open>A server whose setup succeeds, and its state after one client has connected.\<close>

definition good_setup :: setup_results where
  "good_setup = \<lparr>resolve_ec = No_error, open_ec = No_error, option_ec = No_error, bind_ec = No_error, listen_ec = No_error\<rparr>"

definition idle_server :: "('h, 'm, 's) mono_state" where
  "idle_server = \<lparr>base = \<lparr>acceptor_open = True\<rparr>, accepting = 1, sessions = \<lambda>k. None, reported = []\<rparr>"

lemma idle_server [simp]:
  "mono_begin start good_setup = Some idle_server" "acceptor_open (base idle_server)" "sessions idle_server k = None"
  by (simp_all add: mono_begin_def my_server_def ez_server_def good_setup_def idle_server_def start_accept_def)

theorem echo_server_serves_next_witness:
  "\<exists>c. mono_steps (loop_step fits_buffer (echo_handle (No_error, No_error))) echo_start idle_server
       (idle_server\<lparr>sessions := (sessions idle_server)(3 \<mapsto> c)\<rparr>) \<and>
     received c = [''hello'', ''world'']"
  using echo_server_serves_next [where r = good_setup and ?sv0.0 = idle_server and sv = idle_server and k = 3
      and msgs = "[''hello'', ''world'']" and fits = fits_buffer and os = "(No_error, No_error)"]
  by (fastforce simp: fits_buffer_def buffer_size_def)

theorem echo_server_all_in_order_witness:
  "\<exists>sv c. mono_steps (loop_step fits_buffer (echo_handle (No_error, No_error))) echo_start idle_server sv \<and>
     sessions sv 3 = Some c \<and> accepting sv = 1 \<and> size (pending c) = 1"
proof -
  have "\<forall>m\<in>set [''hello'']. fits_buffer On_async_read_string m" by (simp add: fits_buffer_def buffer_size_def)
  with echo_served [where msgs = "[''hello'']" and fits = fits_buffer and os = "(No_error, No_error)"] obtain c where
    c: "loop_steps fits_buffer (echo_handle (No_error, No_error)) echo_start c" "is_open (obj c)" by blast
  have run: "mono_steps (loop_step fits_buffer (echo_handle (No_error, No_error))) echo_start idle_server
      (idle_server\<lparr>sessions := (sessions idle_server)(3 \<mapsto> c)\<rparr>)"
    by (rule echo.serves_next [OF rtranclp.rtrancl_refl idle_server(1-3) c(1)])
  moreover have "sessions (idle_server\<lparr>sessions := (sessions idle_server)(3 \<mapsto> c)\<rparr>) 3 = Some c" by simp
  ultimately show ?thesis
    using echo_server_all_in_order [OF idle_server(1,2) run, of 3 c] c(2) by (intro exI conjI) auto
qed

text \<open>Any WebSocket application: a client that has just connected.\<close>

lemma one_ws_client:
  fixes start :: "('h, 'm, 's) connection"
  shows "mono_steps step start idle_server (idle_server\<lparr>sessions := (sessions idle_server)(3 \<mapsto> start)\<rparr>)"
proof -
  let ?sv = "idle_server :: ('h, 'm, 's) mono_state"
  have "mono_step step start ?sv (performs start 3 (mono_on_accept No_error (base ?sv)) (?sv\<lparr>accepting := accepting ?sv - 1\<rparr>))"
    by (intro Accept_done) (simp_all add: idle_server_def)
  then show ?thesis by (simp add: mono_on_accept_def start_accept_def idle_server_def r_into_rtranclp)
qed

abbreviation sample_ws_env :: ws_env where
  "sample_ws_env \<equiv> \<lparr>ws_sha1 = \<lambda>_. [], ws_b64 = sample_b64, ws_order = Little, ws_os = (No_error, No_error)\<rparr>"

theorem ws_echo_server_all_safe_witness:
  "\<not> ws_fails sample_ws_env (ws_echo_derived Little) (ws_start \<lparr>is_open = True\<rparr>)"
  using ws_echo_server_all_safe [OF idle_server(1,2), where env = sample_ws_env and k = 3
      and s = "\<lparr>is_open = True\<rparr>" and c = "ws_start \<lparr>is_open = True\<rparr>", OF one_ws_client]
  by simp

text \<open>An environment of the JSON server with one file, in which one message is read.\<close>

definition sample_json_env :: json_env where
  "sample_json_env = \<lparr>checked = False, read_json = \<lambda>t. if t = ''q'' then Some \<lparr>get_uint8 = \<lambda>_. Some 3,
       get_int8 = \<lambda>_. Some 3, get_int64 = \<lambda>_. None, get_uint32 = \<lambda>_. Some 0, get_string = \<lambda>_. None\<rparr> else None,
     write_json = \<lambda>_. [], now = 0, directory = Some [(True, ''/a/b'')]\<rparr>"

theorem json_server_safe_witness:
  "\<not> json_fails sample_ws_env {sample_json_env\<lparr>directory := Some []\<rparr>} (ws_start \<lparr>is_open = True\<rparr>)"
proof -
  let ?env = "sample_json_env\<lparr>directory := Some []\<rparr>"
  have "\<not> fatal_text ?env t" for t by (simp add: fatal_text_def sample_json_env_def)
  with json_server_safe [OF idle_server(1,2), where wenv = sample_ws_env and envs = "{?env}" and k = 3
      and s = "\<lparr>is_open = True\<rparr>" and c = "ws_start \<lparr>is_open = True\<rparr>", OF one_ws_client]
  show ?thesis by simp
qed

theorem json_server_ended_witness:
  "\<exists>c. mono_steps (json_step sample_ws_env {sample_json_env}) (ws_start \<lparr>is_open = True\<rparr>) idle_server
       (idle_server\<lparr>sessions := (sessions idle_server)(3 \<mapsto> c)\<rparr>) \<and> json_fails sample_ws_env {sample_json_env} c"
proof -
  have "fatal_text sample_json_env ''q''" by (simp add: fatal_text_def sample_json_env_def)
  with json_server_ended [OF idle_server(1,2) rtranclp.rtrancl_refl idle_server(3), where wenv = sample_ws_env
      and envs = "{sample_json_env}" and env = sample_json_env and msg = "''q''" and s = "\<lparr>is_open = True\<rparr>"]
  show ?thesis by simp
qed

end
