(* ===== verification/Html_Setup.thy ===== *)
theory Html_Setup
  imports Multi_Echo
begin

text \<open>
  \<^verbatim>\<open>my_http_session::html_preprocess\<close> of the multi protocol server: the HTML files are copied
  to the directory the server serves, with the host name and the port filled in. A file is a
  directory and a name; the answers of the file system to the queries, and the errors of its
  calls, are parameters, the contents are the state.
\<close>

type_synonym file_name = "string \<times> string"
type_synonym contents = "file_name \<Rightarrow> string option"

text \<open>
  How the reading or writing of a file stream goes. The code looks at neither, so a stream that
  could not be opened, or broke off, goes unnoticed.
\<close>

datatype stream_result = Not_opened | Breaks_after nat | Complete

text \<open>
  The buffer after reading a file into a string of its size, which was filled with zeros, and the
  file after writing a string over its old content. Opening a stream for writing empties the file.
\<close>

fun read_in :: "stream_result \<Rightarrow> string \<Rightarrow> string" where
  "read_in Not_opened file = replicate (length file) CHR 0x00"
| "read_in (Breaks_after n) file = take n file @ replicate (length file - n) CHR 0x00"
| "read_in Complete file = file"

fun written_out :: "stream_result \<Rightarrow> string \<Rightarrow> string \<Rightarrow> string" where
  "written_out Not_opened old buffer = old"
| "written_out (Breaks_after n) old buffer = take n buffer"
| "written_out Complete old buffer = buffer"

record fs_answers =
  exists_dir :: "string \<Rightarrow> bool \<times> error_code"
  is_dir :: "string \<Rightarrow> bool \<times> error_code"
  equivalent_dirs :: "string \<Rightarrow> string \<Rightarrow> bool \<times> error_code"
  is_regular :: "file_name \<Rightarrow> bool \<times> error_code"
  copy_ec :: "file_name \<Rightarrow> error_code"
  size_ec :: "file_name \<Rightarrow> error_code"
  reading :: "file_name \<Rightarrow> stream_result"
  writing :: "file_name \<Rightarrow> stream_result"

text \<open>The required files, in the order of a \<^verbatim>\<open>std::set\<close> of their paths.\<close>

definition required :: "string list" where
  "required = [''admin_dashboard.html'', ''index.html'', ''json_client_multiprotocol.html'',
     ''splice_top_horz.png'']"

definition is_html :: "string \<Rightarrow> bool" where
  "is_html name \<longleftrightarrow>
     (case find_last CHR ''.'' name of None \<Rightarrow> False | Some i \<Rightarrow> drop i name = ''.html'')"

text \<open>
  One file: copied, and if it is HTML read, changed and written again. The copy stays when a
  placeholder is missing, for which there is no error code.
\<close>

definition preprocess_file ::
  "fs_answers \<Rightarrow> string \<Rightarrow> string \<Rightarrow> string \<Rightarrow> string \<Rightarrow> string \<Rightarrow> contents \<Rightarrow> contents \<times> error_code \<times> bool" where
  "preprocess_file fs src dest host port name st =
     (if copy_ec fs (src, name) \<noteq> No_error then (st, copy_ec fs (src, name), False)
      else
        let st1 = st((dest, name) := st (src, name))
        in if \<not> is_html name then (st1, No_error, True)
           else if size_ec fs (dest, name) \<noteq> No_error then (st1, size_ec fs (dest, name), False)
           else (case st1 (dest, name) of
                   None \<Rightarrow> (st1, No_error, False)
                 | Some copied \<Rightarrow>
                     (case setup_html host port (read_in (reading fs (dest, name)) copied) of
                        None \<Rightarrow> (st1, No_error, False)
                      | Some buffer \<Rightarrow>
                          (st1((dest, name) \<mapsto> written_out (writing fs (dest, name)) copied buffer), No_error, True))))"

fun preprocess_files ::
  "fs_answers \<Rightarrow> string \<Rightarrow> string \<Rightarrow> string \<Rightarrow> string \<Rightarrow> string list \<Rightarrow> contents \<Rightarrow> contents \<times> error_code \<times> bool" where
  "preprocess_files fs src dest host port [] st = (st, No_error, True)"
| "preprocess_files fs src dest host port (name # names) st =
     (case preprocess_file fs src dest host port name st of
        (st', ec, ok) \<Rightarrow> if ok then preprocess_files fs src dest host port names st' else (st', ec, False))"

text \<open>The first of the required files that is not there, with the error code.\<close>

fun missing_file :: "fs_answers \<Rightarrow> string \<Rightarrow> string list \<Rightarrow> error_code option" where
  "missing_file fs src [] = None"
| "missing_file fs src (name # names) =
     (case is_regular fs (src, name) of
        (regular, ec) \<Rightarrow> if \<not> regular \<or> ec \<noteq> No_error then Some ec else missing_file fs src names)"

definition html_preprocess ::
  "fs_answers \<Rightarrow> string \<Rightarrow> string \<Rightarrow> string \<Rightarrow> string \<Rightarrow> contents \<Rightarrow> contents \<times> error_code \<times> bool" where
  "html_preprocess fs src dest host port st =
     (if \<not> fst (exists_dir fs src) then (st, snd (exists_dir fs src), False)
      else if \<not> fst (is_dir fs src) then (st, snd (is_dir fs src), False)
      else if \<not> fst (exists_dir fs dest) then (st, snd (exists_dir fs dest), False)
      else if \<not> fst (is_dir fs dest) then (st, snd (is_dir fs dest), False)
      else if fst (equivalent_dirs fs src dest) then (st, snd (equivalent_dirs fs src dest), False)
      else (case missing_file fs src required of
              Some ec \<Rightarrow> (st, ec, False)
            | None \<Rightarrow> preprocess_files fs src dest host port required st))"

text \<open>What becomes of a file when its preparation reports success.\<close>

definition prepared ::
  "fs_answers \<Rightarrow> string \<Rightarrow> string \<Rightarrow> string \<Rightarrow> string \<Rightarrow> string option \<Rightarrow> string option \<Rightarrow> bool" where
  "prepared fs dest host port name source target \<longleftrightarrow>
     (if is_html name then
        \<exists>page buffer. source = Some page \<and>
          setup_html host port (read_in (reading fs (dest, name)) page) = Some buffer \<and>
          target = Some (written_out (writing fs (dest, name)) page buffer)
      else target = source)"

lemma preprocess_file_ok:
  assumes "preprocess_file fs src dest host port name st = (st', ec, True)"
  shows "prepared fs dest host port name (st (src, name)) (st' (dest, name))"
  using assms
  by (auto simp: prepared_def preprocess_file_def Let_def split: if_splits option.splits)

lemma preprocess_file_frame:
  "preprocess_file fs src dest host port name st = (st', ec, ok) \<Longrightarrow> p \<noteq> (dest, name) \<Longrightarrow> st' p = st p"
  by (auto simp: preprocess_file_def Let_def split: if_splits option.splits)

lemma preprocess_files_frame:
  "preprocess_files fs src dest host port names st = (st', ec, ok) \<Longrightarrow> \<forall>n\<in>set names. p \<noteq> (dest, n) \<Longrightarrow> st' p = st p"
proof (induction names arbitrary: st)
  case (Cons name names)
  obtain st1 ec1 ok1 where f: "preprocess_file fs src dest host port name st = (st1, ec1, ok1)"
    by (cases "preprocess_file fs src dest host port name st")
  with Cons.prems(2) have "st1 p = st p" by (auto intro: preprocess_file_frame)
  with Cons f show ?case by (auto split: if_splits)
qed simp

lemma preprocess_files_ok:
  assumes "preprocess_files fs src dest host port names st = (st', ec, True)" "src \<noteq> dest" "distinct names"
    and "name \<in> set names"
  shows "prepared fs dest host port name (st (src, name)) (st' (dest, name))"
  using assms
proof (induction names arbitrary: st)
  case (Cons n names)
  obtain st1 ec1 where f: "preprocess_file fs src dest host port n st = (st1, ec1, True)"
    and rest: "preprocess_files fs src dest host port names st1 = (st', ec, True)"
    using Cons.prems(1) by (auto split: prod.splits if_splits)
  note st1 = preprocess_file_ok [OF f]
  show ?case
  proof (cases "name = n")
    case True
    have "st' (dest, name) = st1 (dest, name)"
      using Cons.prems(3) True by (intro preprocess_files_frame [OF rest]) auto
    with st1 True show ?thesis by simp
  next
    case False
    moreover have "st1 (src, name) = st (src, name)"
      using Cons.prems(2) by (intro preprocess_file_frame [OF f]) auto
    ultimately show ?thesis using Cons.IH [OF rest] Cons.prems by auto
  qed
qed simp

lemma prepared_cases:
  assumes "prepared fs dest host port name source target"
  shows "\<not> is_html name \<Longrightarrow> target = source"
    "\<lbrakk>is_html name; reading fs (dest, name) = Complete; writing fs (dest, name) = Complete\<rbrakk>
      \<Longrightarrow> \<exists>page filled. source = Some page \<and> setup_html host port page = Some filled \<and> target = Some filled"
    "\<lbrakk>is_html name; writing fs (dest, name) = Not_opened\<rbrakk> \<Longrightarrow> target = source"
  using assms by (auto simp: prepared_def)

section \<open>Properties\<close>

text \<open>
  C27. When the preparation of the HTML files reports success, the served directory holds
  each required file: the files that are no pages as they are; a page with both placeholders
  filled in, if the streams that read and write it work; and a page as it was copied, with its
  placeholders, if it cannot be opened for writing, for the success is reported all the same.
  Whatever is reported, at most the required files of the served directory have changed, never
  a file of the source.
\<close>

theorem html_preprocess_correct:
  assumes "html_preprocess fs src dest host port st = (st', ec, ok)" "src \<noteq> dest"
  shows "(ok \<longrightarrow> (\<forall>name\<in>set required.
       (\<not> is_html name \<longrightarrow> st' (dest, name) = st (src, name)) \<and>
       (is_html name \<and> reading fs (dest, name) = Complete \<and> writing fs (dest, name) = Complete \<longrightarrow>
          (\<exists>page filled. st (src, name) = Some page \<and> setup_html host port page = Some filled \<and>
             st' (dest, name) = Some filled)) \<and>
       (is_html name \<and> writing fs (dest, name) = Not_opened \<longrightarrow> st' (dest, name) = st (src, name)))) \<and>
     (\<forall>p. fst p \<noteq> dest \<or> snd p \<notin> set required \<longrightarrow> st' p = st p)"
proof -
  have files: "prepared fs dest host port name (st (src, name)) (st' (dest, name))"
    if "ok" "name \<in> set required" for name
  proof -
    from that have "preprocess_files fs src dest host port required st = (st', ec, True)"
      using assms(1) by (auto simp: html_preprocess_def split: if_splits option.splits)
    moreover have "distinct required" by (simp add: required_def)
    ultimately show ?thesis using assms(2) that(2) by (intro preprocess_files_ok)
  qed
  have "st' p = st p" if "fst p \<noteq> dest \<or> snd p \<notin> set required" for p
    using assms(1) that
    by (auto simp: html_preprocess_def split: if_splits option.splits dest!: preprocess_files_frame [where p = p])
  with prepared_cases [OF files] show ?thesis by blast
qed

text \<open>
  A page of the source, and a file system whose calls all succeed but for the writing of one page.
\<close>

definition sample_page :: string where
  "sample_page = ''value_of_hostName value_of_portNumber''"

definition sample_answers :: fs_answers where
  "sample_answers = \<lparr>exists_dir = \<lambda>_. (True, No_error), is_dir = \<lambda>_. (True, No_error),
     equivalent_dirs = \<lambda>a b. (a = b, No_error), is_regular = \<lambda>_. (True, No_error),
     copy_ec = \<lambda>_. No_error, size_ec = \<lambda>_. No_error,
     reading = \<lambda>_. Complete, writing = \<lambda>p. if snd p = ''index.html'' then Not_opened else Complete\<rparr>"

lemma sample_setup: "setup_html ''h'' ''1'' sample_page = Some ([CHR 0x22] @ ''h'' @ [CHR 0x22] @ '' 1'')"
  by (simp add: setup_html_def replace_placeholder_def sample_page_def c_str_def)

lemma is_html_required [simp]:
  "is_html ''admin_dashboard.html''" "is_html ''index.html''" "is_html ''json_client_multiprotocol.html''"
  "\<not> is_html ''splice_top_horz.png''"
  by (simp_all add: is_html_def)

lemma sample_preprocess:
  "\<exists>st'. html_preprocess sample_answers ''s'' ''d'' ''h'' ''1'' (\<lambda>p. if fst p = ''s'' then Some sample_page else None)
     = (st', No_error, True)"
  by (simp add: html_preprocess_def required_def sample_answers_def preprocess_file_def sample_setup)

theorem html_preprocess_correct_witness:
  "\<exists>st'. html_preprocess sample_answers ''s'' ''d'' ''h'' ''1'' (\<lambda>p. if fst p = ''s'' then Some sample_page else None)
       = (st', No_error, True) \<and>
     st' (''d'', ''admin_dashboard.html'') = Some ([CHR 0x22] @ ''h'' @ [CHR 0x22] @ '' 1'') \<and>
     st' (''d'', ''index.html'') = Some sample_page \<and> st' (''s'', ''index.html'') = Some sample_page"
proof -
  obtain st' where p: "html_preprocess sample_answers ''s'' ''d'' ''h'' ''1''
      (\<lambda>p. if fst p = ''s'' then Some sample_page else None) = (st', No_error, True)"
    using sample_preprocess by blast
  from html_preprocess_correct [OF p] p show ?thesis
    by (intro exI [of _ st']) (auto simp: required_def sample_setup sample_answers_def)
qed

end
