(* ===== verification/Programs.thy ===== *)
theory Programs
  imports Clients Mono_Servers Html_Setup
begin

text \<open>
  The \<^verbatim>\<open>main\<close> functions of the examples: the command line with its defaults, and what the
  programs start with it. The results of the system calls that set a server up are a
  function of the address and the port.
\<close>

type_synonym setup_of = "string \<Rightarrow> string \<Rightarrow> setup_results"

text \<open>Whether the usage is printed, the address and the port, and what the server does.\<close>

record program =
  prog_usage :: bool
  prog_address :: string
  prog_port :: string
  prog_effects :: "server_effect list option"

text \<open>
  The echo server, the WebSocket echo server and the JSON server: the same steps in three
  programs. The JSON server also catches exceptions, and returns 0 then too.
\<close>

definition mono_main :: "setup_of \<Rightarrow> nat \<Rightarrow> string list \<Rightarrow> program" where
  "mono_main setup hw argv =
     (let usage = (length argv \<noteq> 3);
          server_name = (if usage then ''localhost'' else argv ! 1);
          server_port = (if usage then ''7777'' else argv ! 2)
      in \<lparr>prog_usage = usage, prog_address = server_name, prog_port = server_port,
          prog_effects = map_option (\<lambda>(sv, es). es @ run hw 0) (my_server (setup server_name server_port))\<rparr>)"

definition ws_echo_main :: "setup_of \<Rightarrow> nat \<Rightarrow> string list \<Rightarrow> program" where
  "ws_echo_main setup hw argv = mono_main setup hw argv"

definition json_main :: "setup_of \<Rightarrow> nat \<Rightarrow> string list \<Rightarrow> program" where
  "json_main setup hw argv = mono_main setup hw argv"

text \<open>
  What the JSON server prints: its \<^verbatim>\<open>on_run\<close> and \<^verbatim>\<open>on_error\<close>, and \<^verbatim>\<open>on_shutdown\<close> of a session at the
  address \<open>this\<close>. \<open>message\<close> is the text of an error code.
\<close>

abbreviation endl :: string where
  "endl \<equiv> [CHR 0x0A]"

definition json_on_run :: "nat \<Rightarrow> string" where
  "json_on_run thread_count =
     ''Server working with '' @ dec_string thread_count @ '' thread(s)'' @ endl @
     ''Press Ctrl+C (Ctrl+Break) to exit.'' @ endl"

definition json_on_error :: "(error_code \<Rightarrow> string) \<Rightarrow> error_code \<Rightarrow> string" where
  "json_on_error message ec = ''Error:'' @ message ec"

definition json_on_shutdown :: "string \<Rightarrow> error_code \<Rightarrow> error_code \<Rightarrow> severity list \<times> string" where
  "json_on_shutdown this shut_down_ec close_ec =
     (on_shutdown_log shut_down_ec close_ec, ''shutdown session '' @ this @ endl)"

fun json_console :: "(error_code \<Rightarrow> string) \<Rightarrow> server_effect list \<Rightarrow> string" where
  "json_console message [] = []"
| "json_console message (On_run n # es) = json_on_run n @ json_console message es"
| "json_console message (Server_on_error ec # es) = json_on_error message ec @ json_console message es"
| "json_console message (e # es) = json_console message es"

text \<open>The lines it logs when it starts, with what the machine and the compiler fill in.\<close>

record launch =
  local_time :: string
  working_directory :: string
  std_lib_version :: string
  cplusplus_version :: string
  boost_lib_version :: string
  compiler :: string
  platform :: string
  is_debug :: bool
  build_date :: string
  build_time :: string
  boost_version :: nat

definition json_banner :: "launch \<Rightarrow> string list \<Rightarrow> string" where
  "json_banner l argv =
     ''Launched: json_server at '' @ local_time l @ endl @
     ''working directory: '' @ working_directory l @ endl @
     concat (map (\<lambda>i. ''argv['' @ dec_string i @ '']='' @ argv ! i @ endl) [0..<length argv]) @
     ''std lib version: '' @ std_lib_version l @ endl @
     ''C++ version: '' @ cplusplus_version l @ endl @
     ''Boost version: '' @ boost_lib_version l @ endl @
     ''Compiler: '' @ compiler l @ endl @
     ''Platform: '' @ platform l @ endl @
     (if is_debug l then ''Is Debug'' else ''Is Release'') @ endl @
     ''Build: '' @ build_date l @ '' '' @ build_time l @ endl @
     ''BOOST_VERSION='' @ dec_string (boost_version l) @ endl @
     ''1st[] is index value.'' @ '' 2nd[] is thread.'' @ '' 3rd[] is date.'' @ '' 4th[] is level.'' @
     '' 5th[] is this.'' @ '' 6th[] is file name @ line number.'' @ '' 7th[] is function name'' @
     '' 8th[] is class address''"

text \<open>
  The clients print their usage for every number of arguments but one, although they take
  two: the same test as in the servers would ask for two. \<open>host\<close> is the default address.
\<close>

definition client_command_line :: "string \<Rightarrow> string list \<Rightarrow> bool \<times> string \<times> string" where
  "client_command_line host argv =
     (length argv \<noteq> 2, (if length argv \<noteq> 3 then host else argv ! 1),
      (if length argv \<noteq> 3 then ''7777'' else argv ! 2))"

text \<open>
  The results of resolving and connecting depend on the address. The echo client prints the
  number of handlers \<^verbatim>\<open>run\<close> reports and its error code, the serialization client nothing.
\<close>

type_synonym connect_results = "string \<Rightarrow> string \<Rightarrow> error_code \<times> error_code"

definition echo_client_main ::
  "connect_results \<Rightarrow> string \<Rightarrow> string list
     \<Rightarrow> (bool \<times> string \<times> string) \<times> (error_code + (tcp_handler, string, client_session) connection)" where
  "echo_client_main results input argv =
     (let cl = client_command_line ''localhost'' argv; (ec1, ec2) = results (fst (snd cl)) (snd (snd cl))
      in (cl, client_run ec1 ec2 input))"

text \<open>
  \<^verbatim>\<open>serialization_test\<close>: a message saved and loaded again through a pointer to its base class
  has the same text. Exceptions of the archive and of the cast are caught, and fail the
  assertion, as does a different text; without assertions (\<open>asserting\<close>) neither is noticed.
\<close>

definition serialization_test :: "bool \<Rightarrow> (msg_ptr \<Rightarrow> string) \<Rightarrow> (string \<Rightarrow> msg_ptr option) \<Rightarrow> 64 word \<Rightarrow> unit outcome" where
  "serialization_test asserting save load utc =
     (let failed = (if asserting then Assertion_failure else Returns ())
      in case load (save (Some (Client_echo_timed ''coucou'' utc))) of
           Some (Some (Client_echo_timed msg sent)) \<Rightarrow> if msg = ''coucou'' then Returns () else failed
         | Some (Some (Server_echo_timed msg sent server_sent)) \<Rightarrow> failed
         | Some None \<Rightarrow> null_dereferenced asserting
         | None \<Rightarrow> failed)"

definition serialize_client_main ::
  "client_env \<Rightarrow> connect_results \<Rightarrow> string list
     \<Rightarrow> ((bool \<times> string \<times> string) \<times> (error_code + (client_handler, msg_ptr, serialize_client) connection)) outcome" where
  "serialize_client_main env results argv =
     (case serialization_test (client_checked env) (client_save env) (client_load env) (made_at env) of
        Assertion_failure \<Rightarrow> Assertion_failure
      | Uncaught_exception \<Rightarrow> Uncaught_exception
      | Undefined_behaviour \<Rightarrow> Undefined_behaviour
      | Returns _ \<Rightarrow>
          let cl = client_command_line ''localhost'' argv; (ec1, ec2) = results (fst (snd cl)) (snd (snd cl))
          in Returns (cl, serialize_run ec1 ec2))"

text \<open>The raw client, whose connection throws when it fails; \<open>host\<close> is the name of the machine.\<close>

definition raw_client_main ::
  "string \<Rightarrow> connect_results \<Rightarrow> string \<Rightarrow> string list \<Rightarrow> (bool \<times> string \<times> string) \<times> socket_call list" where
  "raw_client_main host results input argv =
     (let cl = client_command_line host argv; (ec1, ec2) = results (fst (snd cl)) (snd (snd cl))
      in (cl, if ec1 \<noteq> No_error then [] else if ec2 \<noteq> No_error then [Connect] else raw_client input))"

text \<open>
  The multi protocol server: without three arguments the environment has to name the
  directory of the sources; the HTML files are prepared in the working directory
  (\<open>cwd\<close>, with its error), and a failure of that ends the program with 1.
\<close>

record multi_program =
  exit_code :: nat
  started :: "(string \<times> string \<times> string \<times> server_effect list option) option"

definition refused :: multi_program where
  "refused = \<lparr>exit_code = 1, started = None\<rparr>"

definition multi_main ::
  "setup_of \<Rightarrow> nat \<Rightarrow> fs_answers \<Rightarrow> error_code \<times> string \<Rightarrow> string option \<Rightarrow> string list \<Rightarrow> contents
     \<Rightarrow> contents \<times> multi_program" where
  "multi_main setup hw fs cwd splice_root argv st =
     (let cla = (length argv \<noteq> 4)
      in if cla \<and> splice_root = None then (st, refused)
         else
           let server_name = (if cla then ''0.0.0.0'' else argv ! 1);
               server_port = (if cla then ''7777'' else argv ! 2);
               src = (if cla then the splice_root @ ''/examples/html_clients'' else argv ! 3);
               dest = snd cwd
           in if fst cwd \<noteq> No_error then (st, refused)
              else
                let host = (if server_name = ''0.0.0.0'' then ''localhost'' else server_name)
                in (case html_preprocess fs src dest host server_port st of
                      (st', ec, ok) \<Rightarrow>
                        if \<not> ok then (st', refused)
                        else (st', \<lparr>exit_code = 0,
                          started = Some (server_name, server_port, dest,
                            map_option (\<lambda>(sv, es). es @ run hw 0)
                              (my_server (setup server_name server_port)))\<rparr>)))"

section \<open>Properties\<close>

text \<open>
  A server program accepts connections exactly when its acceptor could be opened: the
  effects of \<^verbatim>\<open>main\<close> are the report of the first error of the setup, if any, then the
  first accept, unless \<^verbatim>\<open>open\<close> itself failed, and then one event loop; only an
  address that cannot be resolved has no defined behaviour.
\<close>

lemma mono_main_effects:
  "prog_effects (mono_main setup hw argv) =
     (let r = setup (prog_address (mono_main setup hw argv)) (prog_port (mono_main setup hw argv));
          errors = filter (\<lambda>ec. ec \<noteq> No_error) [open_ec r, option_ec r, bind_ec r, listen_ec r]
      in if resolve_ec r \<noteq> No_error then None
         else Some (map Server_on_error (take 1 errors) @
           (if open_ec r = No_error then [Construct_session, On_wait_connect, Async_accept] else []) @
           [On_run 1, Io_service_run]))"
  by (simp add: mono_main_def my_server_def ez_server_def start_accept_def run_def Let_def)

text \<open>The console of the JSON server: the first error of its setup, if any, and one thread.\<close>

lemma json_console_lines:
  assumes "prog_effects (json_main setup hw argv) = Some es"
  shows "\<exists>errors. length errors \<le> 1 \<and>
     json_console message es = concat (map (json_on_error message) errors) @ json_on_run 1"
proof -
  have skip: "json_console message (map Server_on_error errors @ es') =
      concat (map (json_on_error message) errors) @ json_console message es'" for errors es'
    by (induction errors) auto
  obtain errors accept where "es = map Server_on_error (take 1 errors) @ accept @ [On_run 1, Io_service_run]"
    "accept = [] \<or> accept = [Construct_session, On_wait_connect, Async_accept]"
    using assms by (auto simp: json_main_def mono_main_effects Let_def simp del: take_Suc_Cons filter.simps split: if_splits)
  then show ?thesis by (intro exI [of _ "take 1 errors"]) (auto simp: skip)
qed

text \<open>
  A multi protocol server that starts serves the files that were prepared for its own
  address.
\<close>

lemma multi_main_prepared:
  assumes "multi_main setup hw fs cwd splice_root argv st = (st', p)" "started p = Some (name, port, dest, es)"
  shows "exit_code p = 0 \<and>
     (\<exists>src ec. html_preprocess fs src dest (if name = ''0.0.0.0'' then ''localhost'' else name) port st
        = (st', ec, True))"
  using assms
  by (auto simp: multi_main_def refused_def Let_def split: if_splits prod.splits) blast+

end
