(* ===== verification/Multi_Server.thy ===== *)
theory Multi_Server
  imports Multi_Sessions
begin

text \<open>
  The multi protocol server as a whole, as its event loop runs it: any number of connections,
  each with the session that owns it at the moment and the operations that session has
  started, the set of log sessions and the lines posted to them. A handler whose session
  refuses the connection runs the chain of \<open>Multi_Echo\<close>, and the next owner starts its own
  operations on the socket. Handlers log while they run, and every line they log is posted to
  the log sessions there are at that moment.
\<close>

section \<open>The owner of a connection\<close>

datatype owner =
    Ws_owner tcp_session
  | Http_owner http_session
  | Log_owner log_session
  | Ser_owner tcp_session
  | Tcp_owner tcp_session
  | Nobody

datatype multi_handler =
    Ws_handler ws_handler
  | Http_handler http_handler
  | Log_handler ws_handler
  | Ser_handler "msg_ptr ser_handler"
  | Tcp_handler tcp_handler

type_synonym owner_step = "(multi_handler, unit, owner) step_of"

text \<open>
  What the handlers depend on outside the program, and what changes from call to call: the
  memory, the clock, and the lines the call logs. Which lines these are depends on the build, on
  addresses and on the thread, so they are any: \<open>call_lines n\<close> before the effect number \<open>n\<close> of
  the handler, or after the last one, and \<open>call_shutdown_line\<close> those that \<^verbatim>\<open>on_shutdown\<close> of
  the base class logs in a log session.
\<close>

record multi_env =
  net :: echo_env
  env_order :: byte_order
  env_json :: multi_json_env
  env_alloc :: "nat \<Rightarrow> bool"
  env_save :: "msg_ptr \<Rightarrow> string"
  env_load :: "string \<Rightarrow> msg_ptr option"

record call_input =
  call_mem :: "32 word \<times> 32 word"
  call_raw :: "8 word list"
  call_now :: "64 word"
  call_lines :: "nat \<Rightarrow> string list"
  call_shutdown_line :: "nat \<Rightarrow> string"

definition net_in :: "multi_env \<Rightarrow> call_input \<Rightarrow> echo_env" where
  "net_in env i = (net env)\<lparr>env_mem := call_mem i\<rparr>"

definition json_in :: "multi_env \<Rightarrow> call_input \<Rightarrow> multi_json_env" where
  "json_in env i = (env_json env)\<lparr>utc_now := call_now i\<rparr>"

abbreviation os_of :: "multi_env \<Rightarrow> error_code \<times> error_code" where
  "os_of env \<equiv> env_os (net env)"

definition owned :: "('s \<Rightarrow> owner) \<Rightarrow> ('h \<Rightarrow> multi_handler) \<Rightarrow> ('h, 'm, 's) step_of \<Rightarrow> owner_step" where
  "owned own hnd r = (own (fst r), map (map_effect_of hnd (\<lambda>m. ())) (snd r))"

fun given_to :: "msg_ptr taken \<Rightarrow> owner_step option" where
  "given_to (Ws_took r) = Some (owned Ws_owner Ws_handler r)"
| "given_to (Http_took r) = Some (owned Http_owner Http_handler r)"
| "given_to (Log_took r) = Some (owned Log_owner Log_handler r)"
| "given_to (Serialization_took r) = Some (owned Ser_owner Ser_handler r)"
| "given_to (Tcp_took r) = Some (owned Tcp_owner Tcp_handler r)"
| "given_to Assertion_failed = None"

text \<open>
  The chain. At its end the TCP session, the last that the socket was moved to, is destroyed.
\<close>

definition hand_on :: "multi_env \<Rightarrow> call_input \<Rightarrow> nat \<Rightarrow> hand_shake_data \<Rightarrow> owner_step option" where
  "hand_on env i protocol_index d =
     (case on_handshake_fail (do_next_handshake (net_in env i)) protocol_index d of
        Taken _ t \<Rightarrow> given_to t
      | Unable_to_connect _ \<Rightarrow>
          (let gone = destructor (os_of env) connected :: (tcp_handler, tcp_session) step
           in Some (owned (\<lambda>s. Nobody) Tcp_handler gone)))"

definition or_hand_on ::
  "multi_env \<Rightarrow> call_input \<Rightarrow> nat \<Rightarrow> ('s \<Rightarrow> owner) \<Rightarrow> ('h \<Rightarrow> multi_handler) \<Rightarrow> ('h, 'm, 's) step_of \<Rightarrow> owner_step option" where
  "or_hand_on env i protocol_index own hnd r =
     (case handed_on (snd r) of None \<Rightarrow> Some (owned own hnd r) | Some d \<Rightarrow> hand_on env i protocol_index d)"

section \<open>The handlers\<close>

text \<open>
  \<^verbatim>\<open>my_ws_session\<close>, with index 4 the first of the chain: \<^verbatim>\<open>on_socket_connected\<close> and its handlers.
  \<^verbatim>\<open>my_log_session\<close> has index 2 and the same handlers, but reads no frames after its handshake,
  and what it writes are the lines of the log.
\<close>

definition multi_on_socket_connected :: "'a tcp_session_scheme \<Rightarrow> (ws_handler, 'a tcp_session_scheme) step" where
  "multi_on_socket_connected s = (s, [Async_read_some On_multi_first_read])"

definition my_ws_handle ::
  "multi_env \<Rightarrow> call_input \<Rightarrow> ws_handler \<Rightarrow> error_code \<Rightarrow> string \<Rightarrow> tcp_session \<Rightarrow> owner_step option" where
  "my_ws_handle env i h ec bs s =
     (let derived = my_ws_derived (json_in env i) (env_order env) (call_raw i);
          next_owner = or_hand_on env i 4 Ws_owner Ws_handler;
          stays = map_option (owned Ws_owner Ws_handler)
      in case h of
           On_multi_first_read \<Rightarrow>
             Option.bind (multi_first_read (env_sha1 (net env)) (env_b64 (net env)) (call_mem i) (os_of env) ec bs s)
               next_owner
         | On_multi_second_read reply \<Rightarrow> next_owner (multi_second_read (os_of env) reply ec s)
         | On_guid_read st \<Rightarrow>
             Option.bind (on_guid_read (env_order env) (call_raw i) (try_handshake ws_guid) (os_of env) st ec bs s)
               (\<lambda>r. Option.bind (resolved derived r) next_owner)
         | On_read_dataframe st \<Rightarrow>
             stays (resolved derived (on_read_dataframe (env_order env) (call_raw i) (os_of env) st ec bs s))
         | On_write_dataframe df \<Rightarrow> stays (Some (on_write_dataframe (os_of env) ec s))
         | _ \<Rightarrow> None)"

definition my_log_handle ::
  "multi_env \<Rightarrow> call_input \<Rightarrow> ws_handler \<Rightarrow> error_code \<Rightarrow> string \<Rightarrow> log_session \<Rightarrow> owner_step option" where
  "my_log_handle env i h ec bs s =
     (let next_owner = or_hand_on env i 2 Log_owner Log_handler
      in case h of
           On_multi_second_read reply \<Rightarrow> next_owner (multi_second_read (os_of env) reply ec s)
         | On_guid_read st \<Rightarrow>
             Option.bind (on_guid_read (env_order env) (call_raw i) (try_handshake log_guid) (os_of env) st ec bs s)
               next_owner
         | On_write_dataframe df \<Rightarrow> Some (owned Log_owner Log_handler (log_on_write_quiet (os_of env) ec s))
         | _ \<Rightarrow> None)"

definition my_http_handle ::
  "multi_env \<Rightarrow> http_handler \<Rightarrow> error_code \<Rightarrow> string \<Rightarrow> http_session \<Rightarrow> owner_step option" where
  "my_http_handle env h ec bs s =
     (case h of
        Handle_read \<Rightarrow>
          map_option (owned Http_owner Http_handler)
            (outcome_option (handle_read (env_doc_root (net env)) (env_fs (net env)) (snd (os_of env)) ec bs s))
      | Handle_write \<Rightarrow>
          map_option (owned Http_owner Http_handler) (outcome_option (handle_write (snd (os_of env)) ec s)))"

definition multi_handle :: "multi_env \<Rightarrow> call_input \<Rightarrow> (multi_handler, unit, owner) handling" where
  "multi_handle env i h ec bs own =
     (case (own, h) of
        (Ws_owner s, Ws_handler k) \<Rightarrow> my_ws_handle env i k ec bs s
      | (Http_owner s, Http_handler k) \<Rightarrow> my_http_handle env k ec bs s
      | (Log_owner s, Log_handler k) \<Rightarrow> my_log_handle env i k ec bs s
      | (Ser_owner s, Ser_handler k) \<Rightarrow>
          map_option (owned Ser_owner Ser_handler)
            (my_ser_handle (assertions (env_json env)) (env_alloc env) (env_save env) (env_load env)
               (os_of env) (call_now i) k ec bs s)
      | (Tcp_owner s, Tcp_handler k) \<Rightarrow>
          map_option (owned Tcp_owner Tcp_handler) (my_tcp_handle (os_of env) k ec bs s)
      | _ \<Rightarrow> None)"

text \<open>What a read can bring: the serialization session asks for an exact number of bytes.\<close>

fun multi_fits :: "multi_handler \<Rightarrow> string \<Rightarrow> bool" where
  "multi_fits (Ser_handler k) bs = ser_fits k bs"
| "multi_fits k bs = fits_buffer k bs"

section \<open>The state of the server\<close>

text \<open>
  Every connection by the address of its session, the set of log sessions, and the lines
  posted to log sessions that have not been sent. The signals of a log session, called in its
  handlers, change the set; the lines of every handler add to what is posted, each by the set
  as it is when the line is logged.
\<close>

record multi_state =
  conns :: "nat \<Rightarrow> (multi_handler, unit, owner) connection option"
  log_set :: "nat set"
  posted :: "(nat \<times> string) multiset"

fun log_effect :: "call_input \<Rightarrow> nat \<Rightarrow> owner \<Rightarrow> (multi_handler, unit) effect_of \<Rightarrow> log_state \<Rightarrow> log_state option" where
  "log_effect i self (Log_owner s) On_handshake_success L = log_on_handshake_success self s L"
| "log_effect i self (Log_owner s) (On_shutdown shut_down_ec close_ec) L =
     log_on_shutdown self s (call_shutdown_line i) shut_down_ec close_ec L"
| "log_effect i self own e L = Some L"

fun log_effects ::
  "call_input \<Rightarrow> nat \<Rightarrow> owner \<Rightarrow> nat \<Rightarrow> (multi_handler, unit) effect_of list \<Rightarrow> log_state \<Rightarrow> log_state option" where
  "log_effects i self own n [] L = Some (log_lines (call_lines i n) L)"
| "log_effects i self own n (e # es) L =
     Option.bind (log_effect i self own e (log_lines (call_lines i n) L)) (log_effects i self own (Suc n) es)"

text \<open>
  The handler of a line that has been written logs nothing, for that line would be written to
  the same client again, and so on.
\<close>

definition quiet :: "owner \<Rightarrow> multi_handler \<Rightarrow> error_code \<Rightarrow> bool" where
  "quiet own h ec \<longleftrightarrow>
     (case (own, h) of (Log_owner s, Log_handler (On_write_dataframe df)) \<Rightarrow> ec = No_error | _ \<Rightarrow> False)"

definition logging_in :: "call_input \<Rightarrow> owner \<Rightarrow> multi_handler \<Rightarrow> error_code \<Rightarrow> call_input" where
  "logging_in i own h ec = (if quiet own h ec then i\<lparr>call_lines := \<lambda>n. []\<rparr> else i)"

definition handle_in ::
  "multi_env \<Rightarrow> call_input \<Rightarrow> nat \<Rightarrow> (multi_handler, unit, owner \<times> log_state) handling" where
  "handle_in env i self h ec bs st =
     Option.bind (multi_handle env i h ec bs (fst st))
       (\<lambda>r. map_option (\<lambda>L. ((fst r, L), snd r))
          (log_effects (logging_in i (fst st) h ec) self (fst r) 0 (snd r) (snd st)))"

definition with_log ::
  "log_state \<Rightarrow> ('h, 'm, 's) connection \<Rightarrow> ('h, 'm, 's \<times> log_state) connection" where
  "with_log L c = \<lparr>obj = (obj c, L), pending = pending c, received = received c, written = written c\<rparr>"

text \<open>\<^verbatim>\<open>construct_session\<close>: the session of an accepted connection and its first read.\<close>

definition multi_start :: "(multi_handler, unit, owner) connection" where
  "multi_start = open_connection (owned Ws_owner Ws_handler (multi_on_socket_connected connected))"

definition server_start :: multi_state where
  "server_start = \<lparr>conns = \<lambda>k. None, log_set = {}, posted = {#}\<rparr>"

text \<open>\<^verbatim>\<open>my_server::on_logger\<close>, which the logger calls with every line of the log.\<close>

definition on_logger :: "string \<Rightarrow> multi_state \<Rightarrow> multi_state" where
  "on_logger msg sv = sv\<lparr>posted := posted sv + mset (log_broadcast msg (log_set sv))\<rparr>"

text \<open>What a posted line starts in its session.\<close>

definition send_line :: "multi_env \<Rightarrow> 8 word list \<Rightarrow> string \<Rightarrow> log_session \<Rightarrow> owner_step" where
  "send_line env raw msg s = owned Log_owner Log_handler (log_send (env_order env) raw msg s)"

text \<open>
  The steps: a connection is accepted; an operation of a connection completes and its handler
  runs, with the lines it logs; a line is logged outside the handlers, such as those of accepting
  a connection and of destroying a session, and posted to the sessions that are in the set; a
  posted line is sent; and a session nothing holds any more is destroyed.
\<close>

inductive server_step :: "multi_env \<Rightarrow> multi_state \<Rightarrow> multi_state \<Rightarrow> bool" for env where
  Accepted: "conns sv k = None \<Longrightarrow> server_step env sv (sv\<lparr>conns := (conns sv)(k \<mapsto> multi_start)\<rparr>)"
| Handled: "\<lbrakk>conns sv k = Some c; length (call_raw i) = 4;
     loop_step multi_fits (handle_in env i k) (with_log (log_set sv, posted sv) c) (with_log (S, P) c')\<rbrakk>
     \<Longrightarrow> server_step env sv (sv\<lparr>conns := (conns sv)(k \<mapsto> c'), log_set := S, posted := P\<rparr>)"
| Logged: "server_step env sv (on_logger msg sv)"
| Sent: "\<lbrakk>(k, msg) \<in># posted sv; conns sv k = Some c; obj c = Log_owner s; length raw = 4;
     r = send_line env raw msg s\<rbrakk>
     \<Longrightarrow> server_step env sv (sv\<lparr>posted := posted sv - {#(k, msg)#},
           conns := (conns sv)(k \<mapsto> c\<lparr>obj := fst r, pending := pending c + operations (snd r)\<rparr>)\<rparr>)"
| Destroyed: "\<lbrakk>conns sv k = Some c; pending c = {#}; k \<notin> log_set sv; \<forall>msg. (k, msg) \<notin># posted sv\<rbrakk>
     \<Longrightarrow> server_step env sv (sv\<lparr>conns := (conns sv)(k := None)\<rparr>)"

text \<open>A state in which the handler of some connection can fail, which ends the program.\<close>

definition server_fails :: "multi_env \<Rightarrow> multi_state \<Rightarrow> nat \<Rightarrow> bool" where
  "server_fails env sv k \<longleftrightarrow>
     (\<exists>c i. conns sv k = Some c \<and> length (call_raw i) = 4 \<and>
        loop_fails multi_fits (handle_in env i k) (with_log (log_set sv, posted sv) c))"

end
