(* ===== verification/Multi_Server_Inv.thy ===== *)
theory Multi_Server_Inv
  imports Multi_Server
begin

text \<open>
  The invariants of the multi protocol server: which operations can be pending for which
  owner, what each handler starts, that the set of log sessions is exact, and which handlers
  can fail. They hold in every reachable state, by induction over the steps of the server.
\<close>

section \<open>The operations of each owner\<close>

definition own_read :: "owner \<Rightarrow> multi_handler \<Rightarrow> bool" where
  "own_read own h =
     (case (own, h) of
        (Ws_owner s, Ws_handler k) \<Rightarrow>
          (case k of On_multi_first_read \<Rightarrow> True | On_guid_read st \<Rightarrow> st = frame_parser_init
           | On_read_dataframe st \<Rightarrow> True | _ \<Rightarrow> False)
      | (Http_owner s, Http_handler k) \<Rightarrow> k = Handle_read
      | (Ser_owner s, Ser_handler k) \<Rightarrow> (case k of On_ser_write m \<Rightarrow> False | _ \<Rightarrow> True)
      | (Tcp_owner s, Tcp_handler k) \<Rightarrow> k = On_async_read_string
      | _ \<Rightarrow> False)"

definition own_write :: "owner \<Rightarrow> multi_handler \<Rightarrow> bool" where
  "own_write own h =
     (case (own, h) of
        (Ws_owner s, Ws_handler k) \<Rightarrow>
          (case k of On_multi_second_read reply \<Rightarrow> True | On_write_dataframe df \<Rightarrow> True | _ \<Rightarrow> False)
      | (Http_owner s, Http_handler k) \<Rightarrow> k = Handle_write
      | (Log_owner s, Log_handler k) \<Rightarrow> (case k of On_write_dataframe df \<Rightarrow> True | _ \<Rightarrow> False)
      | (Ser_owner s, Ser_handler k) \<Rightarrow> (case k of On_ser_write m \<Rightarrow> True | _ \<Rightarrow> False)
      | (Tcp_owner s, Tcp_handler k) \<Rightarrow> k = On_write
      | _ \<Rightarrow> False)"

definition own_op :: "owner \<Rightarrow> (multi_handler, unit) effect_of \<Rightarrow> bool" where
  "own_op own p =
     (case p of Async_read_some h \<Rightarrow> own_read own h | Async_write msg h \<Rightarrow> own_write own h | _ \<Rightarrow> False)"

text \<open>The operations that are never pending together with another.\<close>

fun exclusive :: "(multi_handler, unit) effect_of \<Rightarrow> bool" where
  "exclusive (Async_read_some (Ws_handler (On_read_dataframe st))) = False"
| "exclusive (Async_write msg (Ws_handler (On_write_dataframe df))) = False"
| "exclusive (Async_write msg (Log_handler (On_write_dataframe df))) = False"
| "exclusive p = True"

fun is_read :: "('h, 'm) effect_of \<Rightarrow> bool" where
  "is_read (Async_read_some h) = True"
| "is_read p = False"

definition owner_inv :: "(multi_handler, unit, owner) connection \<Rightarrow> bool" where
  "owner_inv c \<longleftrightarrow>
     (\<forall>p\<in>#pending c. own_op (obj c) p) \<and>
     ((\<exists>p\<in>#pending c. exclusive p) \<longrightarrow> size (pending c) = 1) \<and>
     size (filter_mset is_read (pending c)) \<le> 1"

lemma operation_map [simp]: "operation (map_effect_of f g e) = operation e"
  by (cases e) simp_all

lemma operations_map [simp]:
  "operations (map (map_effect_of f g) es) = image_mset (map_effect_of f g) (operations es)"
  by (induction es) simp_all

lemma owned_simps [simp]:
  "fst (owned own hnd r) = own (fst r)"
  "operations (snd (owned own hnd r)) = image_mset (map_effect_of hnd (\<lambda>m. ())) (operations (snd r))"
  by (simp_all add: owned_def)

lemma multi_mem [simp]:
  "env_sha1 (net_in env i) = env_sha1 (net env)" "env_b64 (net_in env i) = env_b64 (net env)"
  "env_os (net_in env i) = os_of env" "env_mem (net_in env i) = call_mem i"
  "env_doc_root (net_in env i) = env_doc_root (net env)" "env_fs (net_in env i) = env_fs (net env)"
  by (simp_all add: net_in_def)

text \<open>What the owners start with.\<close>

lemma http_takes:
  assumes "do_next_handshake env 3 d = Inl t"
  shows "\<exists>s e. t = Http_took (s, [e]) \<and>
     (e = Async_read_some Handle_read \<or> (\<exists>w. e = Async_write w Handle_write))"
  using assms
  by (auto simp: do_next_handshake_def take_or_hand_on_def http_handshake_def http_first_read_def
      write_reply_def Let_def split: if_splits prod.splits tribool.splits option.splits)

lemma http_refuses:
  assumes "do_next_handshake env 3 d = Inr d'" "tag d' = Http" "str_find ws_key_text (hs_bytes d) = None"
  shows "hs_bytes d' = hs_bytes d \<and> fst (Http_Parser.parse parser_init
     (mk_request (fst (env_mem env)) (snd (env_mem env))) (hs_bytes d)) = TFalse"
  using assms
  by (auto simp: do_next_handshake_def take_or_hand_on_def http_handshake_def http_first_read_def
      write_reply_def mk_http_session_def Let_def split: if_splits prod.splits tribool.splits option.splits)

lemma log_takes_guid:
  assumes "do_next_handshake env 2 d = Inl t" "tag d \<noteq> Http"
  shows "t = Log_took (log_connected, [On_handshake_success])"
  using assms
  by (cases "tag d")
     (auto simp: do_next_handshake_def take_or_hand_on_def ws_handshake_def do_custom_handshake_def
       split: if_splits option.splits)

lemma log_refuses_http:
  assumes "tag d = Http" "fst (Http_Parser.parse parser_init
     (mk_request (fst (env_mem env)) (snd (env_mem env))) (hs_bytes d)) = TFalse"
  shows "do_next_handshake env 2 d = Inr d"
proof -
  have "fst (parse_upgrade (env_mem env) (hs_bytes d)) \<noteq> TTrue"
    using assms(2) by (auto simp: parse_upgrade_def rfc_parse_eq rfc_parser_init_def parser_init_def
        split: prod.splits)
  with assms(1) show ?thesis
    by (auto simp: do_next_handshake_def take_or_hand_on_def ws_handshake_def multi_first_write_def
        split: prod.splits)
qed

lemma http_tag_kept:
  assumes "do_next_handshake env 3 d = Inr d'" "tag d' = Http"
  shows "tag d = Http"
  using assms
  by (auto simp: do_next_handshake_def take_or_hand_on_def http_handshake_def split: if_splits option.splits)

text \<open>
  What the chain gives a connection to, when a session refuses it: never a WebSocket session
  again, and a log session only with its handshake done. \<open>None\<close>, a failed assertion, does not
  occur.
\<close>

definition takes_over :: "owner_step \<Rightarrow> bool" where
  "takes_over r \<longleftrightarrow>
     (\<forall>p\<in>#operations (snd r). own_op (fst r) p) \<and> size (operations (snd r)) \<le> 1 \<and>
     (\<forall>s. fst r \<noteq> Ws_owner s) \<and>
     (\<forall>s. fst r = Log_owner s \<longrightarrow> r = (Log_owner log_connected, [On_handshake_success]))"

lemmas own_defs = own_op_def own_read_def own_write_def

lemma hand_on_takes_over:
  assumes "tag d = Http \<longrightarrow> str_find ws_key_text (hs_bytes d) = None"
  shows "\<exists>r. hand_on env i 4 d = Some r \<and> takes_over r"
proof -
  let ?next = "do_next_handshake (net_in env i)"
  show ?thesis
  proof (cases "?next 3 d :: msg_ptr taken + hand_shake_data")
    case (Inl t)
    with http_takes [OF Inl] show ?thesis
      by (auto simp: hand_on_def chain_4 takes_over_def owned_def own_defs)
  next
    case d1: (Inr d1)
    show ?thesis
    proof (cases "?next 2 d1 :: msg_ptr taken + hand_shake_data")
      case t: (Inl t)
      have "tag d1 \<noteq> Http"
      proof
        assume "tag d1 = Http"
        with http_refuses [OF d1 this] assms d1 have "?next 2 d1 = (Inr d1 :: msg_ptr taken + hand_shake_data)"
          by (intro log_refuses_http) (auto dest: http_tag_kept)
        with t show False by simp
      qed
      from log_takes_guid [OF t this] d1 t show ?thesis
        by (simp add: hand_on_def chain_4 takes_over_def owned_def)
    next
      case d2: (Inr d2)
      show ?thesis
        by (simp add: hand_on_def chain_4 d1 d2 next_serialization [unfolded One_nat_def] next_tcp
            takes_over_def owned_def own_defs tcp_defs Let_def)
    qed
  qed
qed

section \<open>What each handler starts\<close>

text \<open>
  After a handler of an exclusive operation: at most one operation, of the owner, and a log
  session only as the chain leaves it.
\<close>

definition one_follows :: "owner_step \<Rightarrow> bool" where
  "one_follows r \<longleftrightarrow>
     (\<forall>p\<in>#operations (snd r). own_op (fst r) p) \<and> size (operations (snd r)) \<le> 1 \<and>
     (\<forall>s. fst r = Log_owner s \<longrightarrow> r = (Log_owner log_connected, [On_handshake_success]))"

lemma takes_over_follows: "takes_over r \<Longrightarrow> one_follows r"
  by (simp add: takes_over_def one_follows_def)

lemma shutdown_follows [simp]:
  "one_follows (owned Ws_owner hnd (shutdown os s))" "one_follows (owned Ser_owner hnd (shutdown os s))"
  "one_follows (owned Tcp_owner hnd (shutdown os s))"
  by (simp_all add: one_follows_def)

lemma multi_first_read_result:
  assumes "multi_first_read sha1 b64 mem os ec bs s = Some r"
  shows "(\<exists>d. handed_on (snd r) = Some d \<and> (tag d = Http \<longrightarrow> str_find ws_key_text (hs_bytes d) = None)) \<or>
     r = shutdown os s \<or> (\<exists>w reply. r = (s, [Async_write w (On_multi_second_read reply)]))"
  using assms
  by (auto simp: multi_first_read_def multi_first_write_def on_error_code_def ws_key_text_def Let_def
      split: if_splits prod.splits ws_status.splits)

lemma on_guid_read_result:
  assumes "on_guid_read ord raw accepts os st ec bs s = Some r"
  shows "(\<exists>d. r = (s, [Handshake_fail d]) \<and> tag d = Ws_guid) \<or> r = shutdown os s \<or> r = (s, []) \<or>
     r = (s, [On_handshake_success])"
  using assms
  by (auto simp: on_guid_read_def do_custom_handshake_def on_error_code_def on_error_def
      split: if_splits prod.splits tribool.splits)

lemma multi_first_read_not_None: "multi_first_read sha1 b64 mem os ec bs s \<noteq> None"
  by (simp add: multi_first_read_def multi_first_write_not_None del: not_None_eq)

lemma or_hand_on_follows:
  assumes "(\<exists>d. handed_on (snd r) = Some d \<and> (tag d = Http \<longrightarrow> str_find ws_key_text (hs_bytes d) = None)) \<or>
      (handed_on (snd r) = None \<and> one_follows (owned Ws_owner Ws_handler r))"
  shows "\<exists>r'. or_hand_on env i 4 Ws_owner Ws_handler r = Some r' \<and> one_follows r'"
  using assms
proof (elim disjE exE conjE)
  fix d assume "handed_on (snd r) = Some d" "tag d = Http \<longrightarrow> str_find ws_key_text (hs_bytes d) = None"
  with hand_on_takes_over [of d env i] takes_over_follows show ?thesis by (auto simp: or_hand_on_def)
qed (simp add: or_hand_on_def)

lemma ws_exclusive_follows:
  assumes "own_op (Ws_owner s) p" "exclusive p" "p = Async_read_some (Ws_handler k) \<or> (\<exists>w. p = Async_write w (Ws_handler k))"
    and "is_read p \<and> ec = No_error \<longrightarrow> fits_buffer k bs" "length (call_raw i) = 4"
  shows "\<exists>r. my_ws_handle env i k ec bs s = Some r \<and> one_follows r"
proof (cases k)
  case On_multi_first_read
  obtain r0 where r0: "multi_first_read (env_sha1 (net env)) (env_b64 (net env)) (call_mem i) (os_of env) ec bs s = Some r0"
    using multi_first_read_not_None by blast
  from multi_first_read_result [OF r0] have "\<exists>r'. or_hand_on env i 4 Ws_owner Ws_handler r0 = Some r' \<and> one_follows r'"
    by (intro or_hand_on_follows) (auto simp: one_follows_def own_defs owned_def)
  with r0 show ?thesis by (simp add: my_ws_handle_def On_multi_first_read)
next
  case (On_multi_second_read reply)
  have "\<exists>r'. or_hand_on env i 4 Ws_owner Ws_handler (multi_second_read (os_of env) reply ec s) = Some r' \<and> one_follows r'"
    by (rule or_hand_on_follows)
       (auto simp: multi_second_read_def on_error_code_def on_bad_request_def guid_read_def one_follows_def own_defs
         split: ws_status.splits)
  then show ?thesis by (simp add: my_ws_handle_def On_multi_second_read)
next
  case (On_guid_read st)
  with assms(1,3) have st: "st = frame_parser_init" "is_read p" by (auto simp: own_defs)
  have "ec = No_error \<longrightarrow> length bs \<le> buffer_size" using assms(4) st(2) by (simp add: fits_buffer_def)
  then obtain r0 where r0: "on_guid_read (env_order env) (call_raw i) (try_handshake ws_guid) (os_of env) st ec bs s = Some r0"
    using on_guid_read_not_None by blast
  let ?d = "my_ws_derived (json_in env i) (env_order env) (call_raw i)"
  from on_guid_read_result [OF r0] obtain r1 where r1: "resolved ?d r0 = Some r1"
    "(\<exists>d. handed_on (snd r1) = Some d \<and> (tag d = Http \<longrightarrow> str_find ws_key_text (hs_bytes d) = None)) \<or>
      (handed_on (snd r1) = None \<and> one_follows (owned Ws_owner Ws_handler r1))"
    by (elim disjE exE conjE)
       (auto simp: my_ws_derived_def ws_on_handshake_success_def read_next_frame_def
         one_follows_def own_defs)
  from or_hand_on_follows [OF r1(2), of env i] r0 r1(1) show ?thesis
    by (simp add: my_ws_handle_def On_guid_read)
qed (use assms in \<open>auto simp: own_defs\<close>)

lemma http_follows: "my_http_handle env k ec bs s = Some r \<Longrightarrow> one_follows r"
  by (cases k)
     (auto simp: my_http_handle_def handle_read_def handle_write_def close_socket_def one_follows_def own_defs
       write_reply_def Let_def split: prod.splits tribool.splits if_splits)

lemma http_None: "my_http_handle env k ec bs s = None \<Longrightarrow> snd (os_of env) \<noteq> No_error"
  by (cases k)
     (auto simp: my_http_handle_def handle_read_def handle_write_def close_socket_def Let_def
       split: prod.splits tribool.splits if_splits)

lemma tcp_follows:
  assumes "k \<noteq> On_first_read"
  shows "\<exists>r. map_option (owned Tcp_owner Tcp_handler) (my_tcp_handle os k ec bs s) = Some r \<and> one_follows r"
  using assms by (cases k; cases "ec = No_error") (auto simp: one_follows_def own_defs)

lemma ser_follows:
  assumes "my_ser_handle checked alloc save load os now k ec bs s = Some r"
  shows "one_follows (owned Ser_owner Ser_handler r)"
proof (cases k)
  case On_read_header
  with assms show ?thesis
    by (auto simp: my_ser_handle_def on_read_header_def on_error_code_def Let_def one_follows_def own_defs
        split: if_splits option.splits)
next
  case (On_read_data sz)
  have echo: "one_follows (owned Ser_owner Ser_handler r')"
    if "call_on_read (my_ser_derived checked save os now) m s = Some r'" for m r'
    using that
    by (auto simp: my_ser_derived_def echo_on_read_def null_dereferenced_def ser_async_write_def on_error_code_def
        Let_def one_follows_def own_defs split: message.splits option.splits if_splits)
  from On_read_data assms echo show ?thesis
    by (auto simp: my_ser_handle_def on_read_data_def on_error_ex_ec_def on_error_code_def Let_def
        one_follows_def split: if_splits option.splits)
next
  case (On_ser_write m)
  with assms show ?thesis
    by (auto simp: my_ser_handle_def ser_on_write_def on_write_msg_def on_error_code_def one_follows_def own_defs
        split: if_splits)
qed

lemma exclusive_handler:
  assumes "multi_handle env i h ec bs own = Some r" "own_op own p" "exclusive p"
    and "p = Async_read_some h \<or> (\<exists>w. p = Async_write w h)"
    and "is_read p \<and> ec = No_error \<longrightarrow> multi_fits h bs" "length (call_raw i) = 4"
  shows "one_follows r"
proof (cases own)
  case (Ws_owner s)
  with assms(2,4) obtain k where k: "h = Ws_handler k"
    by (auto simp: own_defs split: multi_handler.splits)
  have "\<exists>r'. my_ws_handle env i k ec bs s = Some r' \<and> one_follows r'"
    using assms Ws_owner k by (intro ws_exclusive_follows [of s p]) (auto simp: fits_buffer_def)
  with assms(1) Ws_owner k show ?thesis by (auto simp: multi_handle_def)
next
  case (Http_owner s)
  with assms(2,4) obtain k where k: "h = Http_handler k" by (auto simp: own_defs split: multi_handler.splits)
  with Http_owner assms(1) show ?thesis by (auto simp: multi_handle_def intro: http_follows)
next
  case (Log_owner s)
  with assms show ?thesis by (auto simp: own_defs split: multi_handler.splits ws_handler.splits)
next
  case (Ser_owner s)
  with assms(2,4) obtain k where k: "h = Ser_handler k" by (auto simp: own_defs split: multi_handler.splits)
  with assms(1) Ser_owner obtain r0 where
    "my_ser_handle (assertions (env_json env)) (env_alloc env) (env_save env) (env_load env)
       (os_of env) (call_now i) k ec bs s = Some r0" "r = owned Ser_owner Ser_handler r0"
    by (auto simp: multi_handle_def)
  then show ?thesis using ser_follows by simp
next
  case (Tcp_owner s)
  with assms obtain k where k: "h = Tcp_handler k" "k \<noteq> On_first_read"
    by (auto simp: own_defs split: multi_handler.splits)
  with Tcp_owner assms(1) tcp_follows [OF k(2), of "os_of env" ec bs s] show ?thesis
    by (auto simp: multi_handle_def)
next
  case Nobody
  with assms show ?thesis by (simp add: multi_handle_def)
qed

text \<open>After a handler of a frame: only frames, and no second read.\<close>

definition frames_follow :: "bool \<Rightarrow> owner_step \<Rightarrow> bool" where
  "frames_follow reading r \<longleftrightarrow>
     (\<forall>p\<in>#operations (snd r). own_op (fst r) p \<and> \<not> exclusive p) \<and>
     size (filter_mset is_read (operations (snd r))) \<le> (if reading then 1 else 0)"

lemma is_read_map [simp]: "is_read (map_effect_of f g e) = is_read e"
  by (cases e) simp_all

lemma frame_ops [simp]:
  "own_op (Ws_owner s) (Async_read_some (Ws_handler (On_read_dataframe st)))"
  "own_op (Ws_owner s) (Async_write w (Ws_handler (On_write_dataframe df)))"
  "own_op (Log_owner l) (Async_write w (Log_handler (On_write_dataframe df)))"
  by (simp_all add: own_defs)

lemma ws_frames_follow:
  assumes "resolved (my_ws_derived j ord raw) (on_read_dataframe ord raw os st ec bs s) = Some r"
  shows "frames_follow True (owned Ws_owner Ws_handler r)"
proof -
  have json: "frames_follow True (owned Ws_owner Ws_handler r')"
    if r': "resolved (my_ws_derived j ord raw) (s, [On_read m, read_next_frame]) = Some r'" for m r'
  proof -
    obtain s' es where m: "call_on_read (my_ws_derived j ord raw) m s = Some (s', es)"
      "r' = (s', es @ [read_next_frame])"
      using r' by (cases "call_on_read (my_ws_derived j ord raw) m s") (auto simp: resolved_def read_next_frame_def)
    have w: "\<exists>w df. p = Async_write w (On_write_dataframe df)" if "p \<in># operations es" for p
      using my_ws.on_read_writes [OF m(1)] that by auto
    then have "filter_mset is_read (operations es) = {#}" by (fastforce simp: filter_mset_eq_mempty_iff)
    then show ?thesis using w
      by (fastforce simp: frames_follow_def m(2) read_next_frame_def filter_mset_image_mset comp_def)
  qed
  from assms json show ?thesis
    by (auto simp: on_read_dataframe_def on_read_data_frame_def on_error_code_def on_error_def
        frames_follow_def read_next_frame_def
        split: if_splits prod.splits tribool.splits operation_code.splits)
qed

lemma write_follows [simp]:
  "frames_follow b (owned Ws_owner Ws_handler (on_write_dataframe os ec s))"
  "frames_follow b (owned Log_owner Log_handler (log_on_write_quiet os ec l))"
  by (simp_all add: frames_follow_def on_write_dataframe_def log_on_write_quiet_def on_error_def)

lemma frame_handler:
  assumes "multi_handle env i h ec bs own = Some r" "own_op own p" "\<not> exclusive p"
    and "p = Async_read_some h \<or> (\<exists>w. p = Async_write w h)"
  shows "frames_follow (is_read p) r \<and>
     ((\<exists>s s'. own = Ws_owner s \<and> fst r = Ws_owner s') \<or>
      (\<exists>s. own = Log_owner s \<and> r = owned Log_owner Log_handler (log_on_write_quiet (os_of env) ec s)))"
proof (cases own)
  case (Ws_owner s)
  with assms(2-4) obtain k where k: "h = Ws_handler k"
    "(\<exists>st. k = On_read_dataframe st \<and> is_read p) \<or> (\<exists>df. k = On_write_dataframe df)"
    by (auto simp: own_defs split: multi_handler.splits ws_handler.splits)
  with assms(1) Ws_owner show ?thesis
    by (auto simp: multi_handle_def my_ws_handle_def Let_def dest!: ws_frames_follow)
next
  case (Log_owner s)
  with assms(2-4) obtain df where h: "h = Log_handler (On_write_dataframe df)"
    by (auto simp: own_defs split: multi_handler.splits ws_handler.splits)
  with Log_owner assms(1) show ?thesis
    by (auto simp: multi_handle_def my_log_handle_def Let_def)
qed (use assms in \<open>auto simp: own_defs split: multi_handler.splits ser_handler.splits\<close>)

section \<open>The lines of the log\<close>

text \<open>
  What some lines add to the posted ones when the log sessions are \<open>S\<close>: each line once for each
  of them.
\<close>

definition lines_to :: "string list \<Rightarrow> nat set \<Rightarrow> (nat \<times> string) multiset" where
  "lines_to msgs S = mset (concat (map (\<lambda>msg. log_broadcast msg S) msgs))"

lemma lines_to_simps [simp]:
  "lines_to [] S = {#}" "lines_to (msg # msgs) S = mset (log_broadcast msg S) + lines_to msgs S"
  "lines_to (xs @ ys) S = lines_to xs S + lines_to ys S"
  by (simp_all add: lines_to_def)

lemma log_lines_eq [simp]: "log_lines msgs L = (fst L, snd L + lines_to msgs (fst L))"
  by (induction msgs arbitrary: L) (simp_all add: log_lines_def log_line_def ac_simps)

lemma in_lines_to: "x \<in># lines_to msgs S \<Longrightarrow> fst x \<in> S"
  by (cases "finite S") (auto simp: lines_to_def log_broadcast_def)

lemma count_broadcast:
  "finite S \<Longrightarrow> count (mset (log_broadcast msg S)) (k, line) = (if line = msg \<and> k \<in> S then 1 else 0)"
proof -
  assume "finite S"
  moreover have "distinct (log_broadcast msg S)"
    by (auto simp: log_broadcast_def distinct_map inj_on_def)
  ultimately show ?thesis
    by (auto simp: log_broadcast_def distinct_count_atmost_1 image_iff)
qed

lemma count_lines_to:
  "finite S \<Longrightarrow> count (lines_to msgs S) (k, line) = (if k \<in> S then count_list msgs line else 0)"
  by (induction msgs) (auto simp: count_broadcast)

text \<open>What a handler logs: lines for the sessions before its signal, and lines for those after it.\<close>

definition logged :: "log_state \<Rightarrow> log_state \<Rightarrow> bool" where
  "logged L L' \<longleftrightarrow> (\<exists>before after. snd L' = snd L + lines_to before (fst L) + lines_to after (fst L'))"

definition signals :: "owner \<Rightarrow> (multi_handler, unit) effect_of \<Rightarrow> bool" where
  "signals own e \<longleftrightarrow>
     (case (own, e) of
        (Log_owner s, On_handshake_success) \<Rightarrow> True
      | (Log_owner s, On_shutdown a b) \<Rightarrow> True
      | _ \<Rightarrow> False)"

lemma log_effect_no_signal [simp]: "\<not> signals own e \<Longrightarrow> log_effect i k own e L = Some L"
  by (cases own; cases e) (simp_all add: signals_def)

text \<open>All lines of a call that changes no set.\<close>

definition all_lines :: "call_input \<Rightarrow> nat \<Rightarrow> nat \<Rightarrow> string list" where
  "all_lines i n m = concat (map (call_lines i) [n..<Suc m])"

lemma log_effects_no_signal:
  "list_all (\<lambda>e. \<not> signals own e) es \<Longrightarrow>
     log_effects i k own n es L = Some (fst L, snd L + lines_to (all_lines i n (n + length es)) (fst L))"
proof (induction es arbitrary: n L)
  case Nil
  then show ?case by (simp add: all_lines_def)
next
  case (Cons e es)
  have "all_lines i n (n + length (e # es)) = call_lines i n @ all_lines i (Suc n) (Suc n + length es)"
    by (simp add: all_lines_def upt_conv_Cons del: upt_Suc)
  with Cons show ?case by (simp add: ac_simps)
qed

lemma no_signals [simp]: "(\<And>s. own \<noteq> Log_owner s) \<Longrightarrow> list_all (\<lambda>e. \<not> signals own e) es"
  by (cases own) (auto simp: signals_def list_all_iff)

lemma loggedI:
  "snd L' = snd L + lines_to before (fst L) + lines_to after (fst L') \<Longrightarrow> logged L L'"
  unfolding logged_def by blast

lemma logged_same: "logged L (fst L, snd L + lines_to msgs (fst L))"
  unfolding logged_def by (rule exI [of _ msgs], rule exI [of _ "[]"]) simp

lemma logging_in_raw [simp]: "call_raw (logging_in i own h ec) = call_raw i"
  by (simp add: logging_in_def)

section \<open>The set of log sessions\<close>

definition log_open :: "owner \<Rightarrow> bool" where
  "log_open own = (case own of Log_owner s \<Rightarrow> is_open s | _ \<Rightarrow> False)"

definition signalled :: "owner \<Rightarrow> bool" where
  "signalled own = (case own of Log_owner s \<Rightarrow> has_signal s | _ \<Rightarrow> True)"

definition is_log :: "owner \<Rightarrow> bool" where
  "is_log own = (case own of Log_owner s \<Rightarrow> True | _ \<Rightarrow> False)"

lemmas log_defs = log_open_def signalled_def is_log_def

lemma log_open_iff: "log_open own \<longleftrightarrow> (\<exists>s. own = Log_owner s \<and> is_open s)"
  by (cases own) (simp_all add: log_open_def)

lemma is_log_iff: "is_log own \<longleftrightarrow> (\<exists>s. own = Log_owner s)"
  by (cases own) (simp_all add: is_log_def)

text \<open>
  A connection and the set agree: the session is in the set exactly while it is a log session
  with an open socket.
\<close>

definition in_step :: "nat \<Rightarrow> owner \<Rightarrow> nat set \<Rightarrow> bool" where
  "in_step k own S \<longleftrightarrow> signalled own \<and> (k \<in> S \<longleftrightarrow> log_open own)"

definition keeps_log :: "nat \<Rightarrow> owner_step \<Rightarrow> log_state \<Rightarrow> log_state \<Rightarrow> bool" where
  "keeps_log k r L L' \<longleftrightarrow> in_step k (fst r) (fst L') \<and> fst L' - {k} = fst L - {k} \<and> logged L L'"

lemma lines_keep_log:
  assumes "list_all (\<lambda>e. \<not> signals (fst r) e) (snd r)" "in_step k (fst r) (fst L)"
  shows "\<exists>L'. log_effects i k (fst r) 0 (snd r) L = Some L' \<and> keeps_log k r L L'"
  using log_effects_no_signal [OF assms(1)] assms(2) logged_same by (simp add: keeps_log_def)

text \<open>The two handlers that signal: the handshake of a log session, and its shutdown.\<close>

lemma success_logged:
  "log_effects i k (Log_owner log_connected) 0 [On_handshake_success] L =
     Some (insert k (fst L), snd L + lines_to (call_lines i 0) (fst L) + lines_to (call_lines i 1) (insert k (fst L)))"
  by (simp add: log_on_handshake_success_def on_connect_def log_insert_def)

lemma shutdown_logged:
  assumes "has_signal s" "k \<in> fst L"
  shows "log_effects i k (Log_owner s) 0 [Socket_shutdown, Socket_close, On_shutdown a b] L =
     Some (fst L - {k}, snd L +
       lines_to (all_lines i 0 2 @ map (call_shutdown_line i) [0..<length (on_shutdown_log a b)]) (fst L) +
       lines_to (call_lines i 3) (fst L - {k}))"
  using assms
  by (simp add: log_on_shutdown_def on_connect_def log_insert_def all_lines_def numeral_2_eq_2 numeral_3_eq_3
      Let_def ac_simps)

lemma signals_follow:
  assumes "one_follows r" "k \<notin> fst L"
  shows "\<exists>L'. log_effects i k (fst r) 0 (snd r) L = Some L' \<and> keeps_log k r L L'"
proof (cases "\<exists>s. fst r = Log_owner s")
  case True
  with assms(1) have "r = (Log_owner log_connected, [On_handshake_success])" by (auto simp: one_follows_def)
  then show ?thesis
    using success_logged [of i k L] by (auto simp: keeps_log_def in_step_def log_defs logged_def)
next
  case False
  then have "in_step k (fst r) (fst L)" using assms(2) by (cases "fst r") (auto simp: in_step_def log_defs)
  with False show ?thesis by (intro lines_keep_log) auto
qed

lemma signals_write:
  assumes "has_signal s" "k \<in> fst L \<longleftrightarrow> is_open s" "r = owned Log_owner Log_handler (log_on_write_quiet os ec s)"
  shows "\<exists>L'. log_effects i k (fst r) 0 (snd r) L = Some L' \<and> keeps_log k r L L'"
proof (cases "ec \<noteq> No_error \<and> is_open s")
  case True
  with assms(3) have "r = (Log_owner (s\<lparr>is_open := False\<rparr>), [Socket_shutdown, Socket_close, On_shutdown (fst os) (snd os)])"
    by (simp add: owned_def log_on_write_quiet_def tcp_defs)
  moreover have "has_signal (s\<lparr>is_open := False\<rparr>)" "k \<in> fst L" using assms(1,2) True by simp_all
  note shutdown_logged [OF this, of i "fst os" "snd os"]
  moreover from calculation(2) have "logged L (the (log_effects i k (Log_owner (s\<lparr>is_open := False\<rparr>)) 0
      [Socket_shutdown, Socket_close, On_shutdown (fst os) (snd os)] L))"
    by (simp only: option.sel) (rule loggedI, simp only: snd_conv fst_conv)
  ultimately show ?thesis
    using assms(1) by (auto simp: keeps_log_def in_step_def log_defs simp del: log_effects.simps)
next
  case False
  with assms have "r = (Log_owner s, [])" by (auto simp: owned_def log_on_write_quiet_def tcp_defs)
  with assms(1,2) show ?thesis by (intro lines_keep_log) (simp_all add: in_step_def log_defs)
qed

lemma handler_signals:
  assumes "multi_handle env i h ec bs own = Some r" "own_op own p" "in_step k own (fst L)"
    and "p = Async_read_some h \<or> (\<exists>w. p = Async_write w h)"
    and "is_read p \<and> ec = No_error \<longrightarrow> multi_fits h bs" "length (call_raw i) = 4"
  shows "\<exists>L'. log_effects j k (fst r) 0 (snd r) L = Some L' \<and> keeps_log k r L L' \<and> (is_log own \<longrightarrow> is_log (fst r))"
proof (cases "exclusive p")
  case True
  have "\<not> is_log own" using assms(2,4) True
    by (cases own) (auto simp: own_defs is_log_def split: multi_handler.splits ws_handler.splits)
  moreover from this have "k \<notin> fst L" using assms(3) by (cases own) (auto simp: in_step_def log_defs)
  ultimately show ?thesis
    using signals_follow [OF exclusive_handler [OF assms(1,2) True assms(4-6)]] by blast
next
  case False
  from frame_handler [OF assms(1,2) False assms(4)] show ?thesis
  proof (elim conjE disjE exE)
    fix s s' assume own: "own = Ws_owner s" "fst r = Ws_owner s'"
    with assms(3) have "\<exists>L'. log_effects j k (fst r) 0 (snd r) L = Some L' \<and> keeps_log k r L L'"
      by (intro lines_keep_log) (auto simp: in_step_def log_defs)
    with own show ?thesis by (simp add: is_log_def)
  next
    fix s assume own: "own = Log_owner s" "r = owned Log_owner Log_handler (log_on_write_quiet (os_of env) ec s)"
    with assms(3) have "has_signal s" "k \<in> fst L \<longleftrightarrow> is_open s" by (simp_all add: in_step_def log_defs)
    from signals_write [OF this own(2)] show ?thesis using own(2) by (simp add: is_log_def)
  qed
qed

section \<open>Steps of a connection\<close>

lemma own_op_session:
  "own_op (Ws_owner s) q = own_op (Ws_owner s') q" "own_op (Log_owner l) q = own_op (Log_owner l') q"
  by (cases q; simp add: own_defs)+

lemma owner_inv_one:
  assumes "\<forall>p\<in>#pending c. own_op (obj c) p" "size (pending c) \<le> 1"
  shows "owner_inv c"
proof -
  have "size (pending c) = 1" if "p \<in># pending c" for p
    using assms(2) that by (cases "pending c") auto
  moreover have "size (filter_mset is_read (pending c)) \<le> 1"
    by (rule le_trans [OF size_filter_mset_lesseq assms(2)])
  ultimately show ?thesis using assms(1) by (auto simp: owner_inv_def)
qed

lemma owner_inv_step:
  assumes inv: "owner_inv c" "in_step k (obj c) (fst L)" and raw: "length (call_raw i) = 4"
    and step: "loop_step multi_fits (handle_in env i k) (with_log L c) (with_log L' c')"
  shows "owner_inv c' \<and> in_step k (obj c') (fst L') \<and> fst L' - {k} = fst L - {k} \<and> logged L L' \<and>
     (is_log (obj c) \<longrightarrow> is_log (obj c'))"
proof -
  obtain p h ec bs r0 where p: "p \<in># pending c" "p = Async_read_some h \<or> (\<exists>w. p = Async_write w h)"
    and r0: "handle_in env i k h ec bs (obj c, L) = Some r0" "fst r0 = (obj c', L')"
    and ops: "pending c' = pending c - {#p#} + operations (snd r0)"
    and fits: "p = Async_read_some h \<and> ec = No_error \<longrightarrow> multi_fits h bs"
    using step by (rule loop_step_elim) (simp add: with_log_def)
  obtain r where r: "multi_handle env i h ec bs (obj c) = Some r"
    "log_effects (logging_in i (obj c) h ec) k (fst r) 0 (snd r) L = Some L'"
    "fst r = obj c'" "snd r = snd r0"
    using r0 by (auto simp: handle_in_def bind_eq_Some_conv)
  have own: "own_op (obj c) p" using inv(1) p(1) by (simp add: owner_inv_def)
  have fits': "is_read p \<and> ec = No_error \<longrightarrow> multi_fits h bs" using p(2) fits by auto
  note set = handler_signals [where j = "logging_in i (obj c) h ec", OF r(1) own inv(2) p(2) fits' raw]
  obtain rest where rest: "pending c = add_mset p rest" using p(1) by (auto dest: multi_member_split)
  have "owner_inv c'"
  proof (cases "exclusive p")
    case True
    with inv(1) p(1) have "rest = {#}" by (auto simp: owner_inv_def rest)
    with exclusive_handler [OF r(1) own True p(2) fits' raw] r(3,4)
    show ?thesis by (intro owner_inv_one) (auto simp: one_follows_def ops rest)
  next
    case False
    note fr = frame_handler [OF r(1) own False p(2)]
    have same: "own_op (obj c') q = own_op (obj c) q" for q
      using fr r(3) own_op_session by (metis owned_simps(1))
    have "\<not> exclusive q" if "q \<in># rest" for q
    proof
      assume "exclusive q"
      with inv(1) that have "size (pending c) = 1" by (auto simp: owner_inv_def rest)
      with that show False by (auto simp: rest)
    qed
    moreover have "\<forall>q\<in>#rest. own_op (obj c) q" "size (filter_mset is_read (pending c)) \<le> 1"
      using inv(1) by (simp_all add: owner_inv_def rest del: filter_mset_eq_mempty_iff)
    moreover have "\<forall>q\<in>#operations (snd r0). own_op (obj c') q \<and> \<not> exclusive q"
      "size (filter_mset is_read (operations (snd r0))) \<le> (if is_read p then 1 else 0)"
      using fr r(3,4) by (simp_all add: frames_follow_def del: filter_mset_eq_mempty_iff)
    moreover from calculation have "size (filter_mset is_read (rest + operations (snd r0))) \<le> 1"
      by (cases "is_read p") (auto simp: rest simp del: filter_mset_eq_mempty_iff)
    ultimately show ?thesis using same by (auto simp: owner_inv_def ops rest simp del: filter_mset_eq_mempty_iff)
  qed
  moreover have "keeps_log k r L L'" "is_log (obj c) \<longrightarrow> is_log (fst r)" using set r(2) by simp_all
  ultimately show ?thesis using r(3) by (simp add: keeps_log_def)
qed

section \<open>Steps of the server\<close>

definition server_inv :: "multi_state \<Rightarrow> bool" where
  "server_inv sv \<longleftrightarrow>
     finite (log_set sv) \<and>
     (\<forall>k c. conns sv k = Some c \<longrightarrow> owner_inv c \<and> in_step k (obj c) (log_set sv)) \<and>
     (\<forall>k\<in>log_set sv. conns sv k \<noteq> None) \<and>
     (\<forall>(k, msg)\<in>#posted sv. \<exists>c. conns sv k = Some c \<and> is_log (obj c))"

lemma server_inv_start: "server_inv server_start"
  by (simp add: server_inv_def server_start_def)

lemma multi_start_inv: "owner_inv multi_start" "k \<notin> S \<Longrightarrow> in_step k (obj multi_start) S"
proof -
  show "owner_inv multi_start"
    by (rule owner_inv_one)
       (simp_all add: multi_start_def open_connection_def multi_on_socket_connected_def own_defs)
  show "k \<notin> S \<Longrightarrow> in_step k (obj multi_start) S"
    by (simp add: multi_start_def open_connection_def multi_on_socket_connected_def in_step_def log_defs)
qed

lemma send_line_result:
  "\<exists>w df. send_line env raw msg s = (Log_owner s, [Async_write w (Log_handler (On_write_dataframe df))])"
  by (auto simp: send_line_def log_send_def ws_async_write_def owned_def split: prod.splits)

lemma sent_inv:
  assumes "owner_inv c" "obj c = Log_owner s" "r = send_line env raw msg s"
  shows "owner_inv (c\<lparr>obj := fst r, pending := pending c + operations (snd r)\<rparr>)"
proof -
  obtain w df where r: "r = (Log_owner s, [Async_write w (Log_handler (On_write_dataframe df))])"
    using send_line_result assms(3) by blast
  have "\<not> exclusive p" if "p \<in># pending c" for p
    using assms(1,2) that
    by (cases p) (auto simp: owner_inv_def own_defs split: multi_handler.splits ws_handler.splits)
  with assms(1,2) show ?thesis by (auto simp: owner_inv_def r)
qed

lemma in_log_set:
  assumes "server_inv sv"
  shows "k \<in> log_set sv \<longleftrightarrow> (\<exists>c. conns sv k = Some c \<and> log_open (obj c))"
  using assms by (cases "conns sv k") (auto simp: server_inv_def in_step_def)

lemma server_inv_step:
  assumes "server_step env sv sv'" "server_inv sv"
  shows "server_inv sv'"
  using assms
proof (induction rule: server_step.induct)
  case (Accepted sv k)
  then have "k \<notin> log_set sv" "\<forall>(j, msg)\<in>#posted sv. j \<noteq> k" by (auto simp: server_inv_def)
  with Accepted show ?case by (auto simp: server_inv_def multi_start_inv)
next
  case (Handled sv k c i S P c')
  then have "owner_inv c" "in_step k (obj c) (fst (log_set sv, posted sv))" by (auto simp: server_inv_def)
  note step = owner_inv_step [OF this Handled.hyps(2,3), simplified]
  have others: "j \<in> S \<longleftrightarrow> j \<in> log_set sv" if "j \<noteq> k" for j using step that by blast
  have conn: "conns sv k = Some c" by (rule Handled.hyps(1))
  have "S - {k} = log_set sv - {k}" "finite (log_set sv)"
    using step Handled.prems by (simp_all add: server_inv_def)
  then have "finite S" by (metis finite_Diff finite_Diff_insert infinite_remove)
  moreover have "owner_inv d \<and> in_step j (obj d) S" if "((conns sv)(k \<mapsto> c')) j = Some d" for j d
    using Handled.prems that step others by (cases "j = k") (simp_all add: server_inv_def in_step_def)
  moreover have "((conns sv)(k \<mapsto> c')) j \<noteq> None" if "j \<in> S" for j
    using Handled.prems that others by (cases "j = k") (simp_all add: server_inv_def)
  moreover have "\<exists>d. ((conns sv)(k \<mapsto> c')) (fst x) = Some d \<and> is_log (obj d)" if x: "x \<in># P" for x
  proof -
    have old: "\<exists>d. ((conns sv)(k \<mapsto> c')) j = Some d \<and> is_log (obj d)"
      if "\<exists>d. conns sv j = Some d \<and> is_log (obj d)" for j
      using that conn step by (cases "j = k") auto
    have was_in: "\<exists>d. conns sv j = Some d \<and> is_log (obj d)" if "j \<in> log_set sv" for j
      using that in_log_set [OF Handled.prems, of j] by (auto simp: log_open_iff is_log_iff)
    obtain before after where "P = posted sv + lines_to before (log_set sv) + lines_to after S"
      using step by (auto simp: logged_def)
    with x consider "x \<in># posted sv" | "fst x \<in> log_set sv" | "fst x \<in> S" by (auto dest: in_lines_to)
    then show ?thesis
    proof cases
      case 1
      then have "\<exists>d. conns sv (fst x) = Some d \<and> is_log (obj d)"
        using Handled.prems by (auto simp: server_inv_def)
      then show ?thesis by (rule old)
    next
      case 2
      then show ?thesis by (intro old was_in)
    next
      case 3
      show ?thesis
      proof (cases "fst x = k")
        case True
        with 3 step show ?thesis by (auto simp: in_step_def log_open_iff is_log_iff)
      next
        case False
        with 3 others have "fst x \<in> log_set sv" by simp
        then show ?thesis by (intro old was_in)
      qed
    qed
  qed
  ultimately show ?case
    unfolding server_inv_def
    by (intro conjI allI impI ballI; simp del: fun_upd_apply not_None_eq add: case_prod_beta)
next
  case (Logged sv msg)
  have "\<exists>c. conns sv k = Some c \<and> is_log (obj c)" if "k \<in> log_set sv" for k
    using in_log_set [OF Logged] that by (auto simp: log_open_iff is_log_iff)
  with Logged show ?case by (auto simp: server_inv_def on_logger_def log_broadcast_def)
next
  case (Sent k msg sv c s raw r)
  have "fst r = Log_owner s" using send_line_result [of env raw msg s] Sent.hyps(5) by auto
  with Sent sent_inv [of c s r env raw msg] show ?case
    by (auto simp: server_inv_def is_log_def dest!: in_diffD) fastforce+
next
  case (Destroyed sv k c)
  then show ?case by (fastforce simp: server_inv_def)
qed

lemma server_inv_reachable: "(server_step env)\<^sup>*\<^sup>* server_start sv \<Longrightarrow> server_inv sv"
  by (induction rule: rtranclp_induct) (auto intro: server_inv_start server_inv_step)

section \<open>Which handlers can fail\<close>

lemma resolved_None:
  assumes "resolved d (s, [On_read m, read_next_frame]) = None"
  shows "call_on_read d m s = None"
  using assms by (cases "call_on_read d m s") (auto simp: resolved_def read_next_frame_def)

lemma my_ws_on_read_None:
  assumes "my_ws_on_read j ord raw m s = None"
  shows "assertions j"
proof (rule ccontr)
  assume "\<not> assertions j"
  then have "multi_json_answer j m = Inl e \<Longrightarrow> e = Ptree_error" for e
    by (cases "read_tree j m")
       (auto simp: multi_json_answer_def json_get_id_def client_echo_of_json_def boost_assert_def
         and_then_Inl_iff split: option.splits if_splits)
  with assms show False
    by (cases "multi_json_answer j m") (auto simp: my_ws_on_read_def split: option.splits json_error.splits)
qed

lemma ws_frames_None:
  assumes "resolved (my_ws_derived j ord raw) (on_read_dataframe ord raw os st ec bs s) = None"
  shows "assertions j"
proof -
  have "\<exists>m. resolved (my_ws_derived j ord raw) (s, [On_read m, read_next_frame]) = None"
  proof (rule ccontr)
    assume "\<nexists>m. resolved (my_ws_derived j ord raw) (s, [On_read m, read_next_frame]) = None"
    with assms show False
      by (auto simp: on_read_dataframe_def on_read_data_frame_def on_error_code_def on_error_def
          my_ws.resolved_next simp del: not_None_eq
          split: if_splits prod.splits tribool.splits operation_code.splits)
  qed
  then obtain m where "resolved (my_ws_derived j ord raw) (s, [On_read m, read_next_frame]) = None" by blast
  from resolved_None [OF this] show ?thesis using my_ws_on_read_None by (simp add: my_ws_derived_def)
qed

lemma ser_None:
  fixes s :: "'a tcp_session_scheme"
  assumes "my_ser_handle checked alloc save load os now k ec bs s = None"
  shows "checked \<or> (\<exists>n. \<not> alloc n) \<or> (\<exists>d. load d = Some None)"
proof (rule ccontr)
  assume "\<not> (checked \<or> (\<exists>n. \<not> alloc n) \<or> (\<exists>d. load d = Some None))"
  then have quiet: "\<not> checked" "alloc n" "load d \<noteq> Some None" for n d by simp_all
  have "call_on_read (my_ser_derived checked save os now) (Some m) s \<noteq> None" for m and s :: "'a tcp_session_scheme"
    using quiet(1) by (cases m) (simp_all add: my_ser_derived_def echo_on_read_def)
  then have never: "\<lbrakk>call_on_read (my_ser_derived False save os now) m s = None; load d = Some m\<rbrakk> \<Longrightarrow> False"
    for d m and s :: "'a tcp_session_scheme"
    using quiet(1) quiet(3) [of d] by (cases m) (simp, simp del: not_None_eq)
  with assms quiet show False
    by (cases k)
       (auto simp: my_ser_handle_def on_read_header_def on_read_data_def on_error_ex_ec_def on_error_code_def
         ser_on_write_def on_write_msg_def Let_def simp del: not_None_eq split: if_splits option.splits
         dest: never)
qed

text \<open>
  The sessions whose handlers can end the program, and what that takes: assertions; a socket
  whose closing reports an error; a size that cannot be allocated, or an archive that holds a
  null pointer.
\<close>

definition can_end :: "multi_env \<Rightarrow> owner \<Rightarrow> bool" where
  "can_end env own \<longleftrightarrow>
     (case own of
        Ws_owner s \<Rightarrow> assertions (env_json env)
      | Http_owner s \<Rightarrow> snd (os_of env) \<noteq> No_error
      | Ser_owner s \<Rightarrow> assertions (env_json env) \<or> (\<exists>n. \<not> env_alloc env n) \<or> (\<exists>d. env_load env d = Some None)
      | _ \<Rightarrow> False)"

lemma handler_None:
  assumes "multi_handle env i h ec bs own = None" "own_op own p"
    and "p = Async_read_some h \<or> (\<exists>w. p = Async_write w h)"
    and "is_read p \<and> ec = No_error \<longrightarrow> multi_fits h bs" "length (call_raw i) = 4"
  shows "can_end env own"
proof (cases own)
  case (Ws_owner s)
  with assms(2,3) obtain k where k: "h = Ws_handler k" by (auto simp: own_defs split: multi_handler.splits)
  have n: "my_ws_handle env i k ec bs s = None" using assms(1) by (simp add: multi_handle_def Ws_owner k)
  have "\<not> exclusive p"
  proof
    assume "exclusive p"
    with assms Ws_owner k have "\<exists>r. my_ws_handle env i k ec bs s = Some r \<and> one_follows r"
      by (intro ws_exclusive_follows [of s p]) (auto simp: fits_buffer_def)
    with n show False by simp
  qed
  with assms(2,3) Ws_owner k have "(\<exists>st. k = On_read_dataframe st) \<or> (\<exists>df. k = On_write_dataframe df)"
    by (auto simp: own_defs split: ws_handler.splits)
  with n Ws_owner show ?thesis
    by (auto simp: can_end_def my_ws_handle_def Let_def json_in_def dest!: ws_frames_None)
next
  case (Http_owner s)
  with assms(2,3) obtain k where k: "h = Http_handler k" by (auto simp: own_defs split: multi_handler.splits)
  with Http_owner assms(1) have "my_http_handle env k ec bs s = None" by (simp add: multi_handle_def)
  from http_None [OF this] Http_owner show ?thesis by (simp add: can_end_def)
next
  case (Log_owner s)
  with assms(2,3) obtain df where "h = Log_handler (On_write_dataframe df)"
    by (auto simp: own_defs split: multi_handler.splits ws_handler.splits)
  with Log_owner assms(1) show ?thesis by (simp add: multi_handle_def my_log_handle_def Let_def)
next
  case (Tcp_owner s)
  with assms(2,3) obtain k where k: "h = Tcp_handler k" "k \<noteq> On_first_read"
    by (auto simp: own_defs split: multi_handler.splits)
  with Tcp_owner assms(1) tcp_follows [OF k(2), of "os_of env" ec bs s] show ?thesis
    by (auto simp: multi_handle_def)
next
  case (Ser_owner s)
  with assms(2,3) obtain k where k: "h = Ser_handler k" by (auto simp: own_defs split: multi_handler.splits)
  from assms(1) Ser_owner k have "my_ser_handle (assertions (env_json env)) (env_alloc env) (env_save env)
      (env_load env) (os_of env) (call_now i) k ec bs s = None" by (simp add: multi_handle_def)
  from ser_None [OF this] Ser_owner show ?thesis by (simp add: can_end_def)
qed (use assms in \<open>auto simp: own_defs\<close>)

lemma server_fails_cases:
  assumes "server_inv sv" "server_fails env sv k"
  shows "\<exists>c. conns sv k = Some c \<and> can_end env (obj c)"
proof -
  obtain c i where c: "conns sv k = Some c" "length (call_raw i) = 4"
    and fails: "loop_fails multi_fits (handle_in env i k) (with_log (log_set sv, posted sv) c)"
    using assms(2) by (auto simp: server_fails_def)
  have inv: "owner_inv c" "in_step k (obj c) (fst (log_set sv, posted sv))" using assms(1) c(1) by (auto simp: server_inv_def)
  obtain p h ec bs where p: "p \<in># pending c" "p = Async_read_some h \<or> (\<exists>w. p = Async_write w h)"
    "is_read p \<and> ec = No_error \<longrightarrow> multi_fits h bs" "handle_in env i k h ec bs (obj c, log_set sv, posted sv) = None"
    using fails by cases (auto simp: with_log_def intro: that)
  have own: "own_op (obj c) p" using inv(1) p(1) by (simp add: owner_inv_def)
  have "multi_handle env i h ec bs (obj c) = None"
  proof (rule ccontr)
    assume "multi_handle env i h ec bs (obj c) \<noteq> None"
    then obtain r where r: "multi_handle env i h ec bs (obj c) = Some r" by blast
    from handler_signals [where j = "logging_in i (obj c) h ec", OF r own inv(2) p(2,3) c(2)] p(4) r
    show False by (auto simp: handle_in_def)
  qed
  from handler_None [OF this own p(2,3) c(2)] c(1) show ?thesis by blast
qed

text \<open>
  The messages a client ends the server with, assertions or not: an archive from which a null
  pointer is loaded, sent with its header. The handler of the data asks it for its identifier.
\<close>

lemma null_message_ends_server:
  fixes i :: call_input
  assumes "conns sv k = Some c" "obj c = Ser_owner s" "env_load env d = Some None"
    and "Async_read_some (Ser_handler (On_read_data (length d))) \<in># pending c" "length (call_raw i) = 4"
  shows "server_fails env sv k"
proof -
  have "outcome_option (null_dereferenced b) = None" for b by (simp add: null_dereferenced_def)
  then have "multi_handle env i (Ser_handler (On_read_data (length d))) No_error d (Ser_owner s) = None"
    using assms(3)
    by (simp add: multi_handle_def my_ser_handle_def on_read_data_def resolved_def my_ser_derived_def
        echo_on_read_def)
  then have "handle_in env i k (Ser_handler (On_read_data (length d))) No_error d (Ser_owner s, L) = None" for L
    by (simp add: handle_in_def)
  with assms(2,4) have "loop_fails multi_fits (handle_in env i k) (with_log (log_set sv, posted sv) c)"
    by (intro loop_fails.intros(1) [where h = "Ser_handler (On_read_data (length d))" and bs = d])
       (simp_all add: with_log_def)
  with assms(1,5) show ?thesis unfolding server_fails_def by blast
qed

section \<open>Properties\<close>


text \<open>A server without assertions to which one client has connected.\<close>

definition sample_env :: multi_env where
  "sample_env = \<lparr>net = \<lparr>env_doc_root = ''/www'', env_fs = sample_fs, env_sha1 = \<lambda>_. [], env_b64 = sample_b64,
       env_mem = (0, 0), env_os = (No_error, No_error)\<rparr>,
     env_order = Little,
     env_json = \<lparr>assertions = False, read_tree = \<lambda>_. None, write_tree = \<lambda>_. [], utc_now = 0\<rparr>,
     env_alloc = \<lambda>_. True, env_save = \<lambda>_. [], env_load = \<lambda>_. None\<rparr>"

definition one_client :: multi_state where
  "one_client = server_start\<lparr>conns := (conns server_start)(7 \<mapsto> multi_start)\<rparr>"

lemma one_client_reachable: "(server_step sample_env)\<^sup>*\<^sup>* server_start one_client"
proof -
  have "server_step sample_env server_start one_client"
    unfolding one_client_def by (rule Accepted) (simp add: server_start_def)
  then show ?thesis by blast
qed


end
