(* ===== verification/Multi_Runs.thy ===== *)
theory Multi_Runs
  imports Multi_Server_Inv
begin

text \<open>
  Whole exchanges with the multi protocol server, as runs of its event loop from any state in
  which a client has just connected: a browser is served its page, the GUID a client sends
  after its upgrade decides which session gets the connection, and a line of the log is
  delivered to a connected log session.
\<close>

section \<open>Single steps\<close>

text \<open>
  One call of a handler, that logs the lines \<open>before\<close> until its signal and the lines \<open>after\<close>
  from then on.
\<close>

definition call_with :: "string list \<Rightarrow> string list \<Rightarrow> call_input" where
  "call_with before after = \<lparr>call_mem = (0, 0), call_raw = [0, 0, 0, 0], call_now = 0,
     call_lines = \<lambda>n. if n = 0 then before else if n = 1 then after else [], call_shutdown_line = \<lambda>n. []\<rparr>"

lemma call_with [simp]:
  "length (call_raw (call_with b a)) = 4" "call_lines (call_with b a) 0 = b"
  "call_lines (call_with b a) (Suc 0) = a" "call_lines (call_with b a) (Suc (Suc n)) = []"
  by (simp_all add: call_with_def)

lemma all_lines_with [simp]: "all_lines (call_with b []) 0 n = b"
  by (induction n) (simp_all add: all_lines_def call_with_def)

lemma logging_in [simp]:
  "logging_in i (Ws_owner s) h ec = i" "logging_in i (Http_owner x) h ec = i"
  "logging_in i (Log_owner l) (Log_handler (On_write_dataframe df)) No_error = i\<lparr>call_lines := \<lambda>n. []\<rparr>"
  by (simp_all add: logging_in_def quiet_def)

lemma multi_start:
  "multi_start = \<lparr>obj = Ws_owner connected, pending = {#Async_read_some (Ws_handler On_multi_first_read)#},
     received = [], written = []\<rparr>"
  by (simp add: multi_start_def open_connection_def multi_on_socket_connected_def owned_def)

text \<open>
  An operation completes without error; its handler leaves the set of log sessions as \<open>S\<close> and
  what is posted as \<open>P\<close>.
\<close>

lemma read_step:
  assumes "conns sv k = Some \<lparr>obj = own, pending = add_mset (Async_read_some h) p, received = rs, written = ws\<rparr>"
    and "multi_fits h bs" "multi_handle env i h No_error bs own = Some (own', es)" "length (call_raw i) = 4"
    and "log_effects (logging_in i own h No_error) k own' 0 es (log_set sv, posted sv) = Some (S, P)"
  shows "server_step env sv (sv\<lparr>conns := (conns sv)(k \<mapsto>
     \<lparr>obj = own', pending = p + operations es, received = rs @ [bs], written = ws\<rparr>), log_set := S, posted := P\<rparr>)"
proof (rule Handled [OF assms(1,4)])
  let ?L = "(log_set sv, posted sv)"
  let ?c = "\<lparr>obj = (own, ?L), pending = add_mset (Async_read_some h) p, received = rs, written = ws\<rparr>"
  have "handle_in env i k h No_error bs (own, ?L) = Some ((own', S, P), es)"
    using assms(3,5) by (simp add: handle_in_def)
  with assms(2) have "loop_step multi_fits (handle_in env i k) ?c
      (completed (Async_read_some h) ((own', S, P), es) (?c\<lparr>received := received ?c @ [bs]\<rparr>))"
    by (intro Read_done) simp_all
  then show "loop_step multi_fits (handle_in env i k)
      (with_log ?L \<lparr>obj = own, pending = add_mset (Async_read_some h) p, received = rs, written = ws\<rparr>)
      (with_log (S, P) \<lparr>obj = own', pending = p + operations es, received = rs @ [bs], written = ws\<rparr>)"
    by (simp add: completed_def with_log_def)
qed

lemma write_step:
  assumes "conns sv k = Some \<lparr>obj = own, pending = add_mset (Async_write msg h) p, received = rs, written = ws\<rparr>"
    and "multi_handle env i h No_error [] own = Some (own', es)" "length (call_raw i) = 4"
    and "log_effects (logging_in i own h No_error) k own' 0 es (log_set sv, posted sv) = Some (S, P)"
  shows "server_step env sv (sv\<lparr>conns := (conns sv)(k \<mapsto>
     \<lparr>obj = own', pending = p + operations es, received = rs, written = ws @ [(msg, No_error)]\<rparr>),
     log_set := S, posted := P\<rparr>)"
proof (rule Handled [OF assms(1,3)])
  let ?L = "(log_set sv, posted sv)"
  let ?c = "\<lparr>obj = (own, ?L), pending = add_mset (Async_write msg h) p, received = rs, written = ws\<rparr>"
  have "handle_in env i k h No_error [] (own, ?L) = Some ((own', S, P), es)"
    using assms(2,4) by (simp add: handle_in_def)
  then have "loop_step multi_fits (handle_in env i k) ?c
      (completed (Async_write msg h) ((own', S, P), es) (?c\<lparr>written := written ?c @ [(msg, No_error)]\<rparr>))"
    by (intro Write_done) simp_all
  then show "loop_step multi_fits (handle_in env i k)
      (with_log ?L \<lparr>obj = own, pending = add_mset (Async_write msg h) p, received = rs, written = ws\<rparr>)
      (with_log (S, P) \<lparr>obj = own', pending = p + operations es, received = rs, written = ws @ [(msg, No_error)]\<rparr>)"
    by (simp add: completed_def with_log_def)
qed

text \<open>A handler that leaves no log session behind, and logs some lines.\<close>

lemma lines_posted:
  "(\<And>s. own \<noteq> Log_owner s) \<Longrightarrow>
     log_effects (call_with lines []) k own 0 es L = Some (fst L, snd L + lines_to lines (fst L))"
  using log_effects_no_signal [OF no_signals, of own "call_with lines []" k 0 es L] by simp

lemma quiet_call [simp]: "(\<And>s. own \<noteq> Log_owner s) \<Longrightarrow> log_effects (call_with [] []) k own 0 es L = Some L"
  using lines_posted [of own "[]"] by simp

section \<open>A browser\<close>

lemma plain_request_taken:
  assumes "wf_request r" "str_find ws_key_text (print_request r) = None"
  shows "\<exists>s. multi_handle env i (Ws_handler On_multi_first_read) No_error (print_request r) (Ws_owner connected) =
     Some (Http_owner s, [Async_write (concat (Http_Message.to_buffers
       (Request_Handler.handle_request (env_doc_root (net env)) (env_fs (net env)) r
          \<lparr>status = Ok, rep_headers = [], content = []\<rparr>))) (Http_handler Handle_write)]) \<and> is_open s"
proof -
  let ?w = "concat (Http_Message.to_buffers (Request_Handler.handle_request (env_doc_root (net env))
     (env_fs (net env)) r \<lparr>status = Ok, rep_headers = [], content = []\<rparr>))"
  have "\<exists>s. do_next_handshake (net_in env i) 3 \<lparr>tag = Http, hs_bytes = print_request r\<rparr> =
      (Inl (Http_took (s, [Async_write ?w Handle_write])) :: msg_ptr taken + hand_shake_data) \<and> is_open s"
    using next_http_request [OF assms, where env = "net_in env i" and ?'a = msg_ptr] by simp
  with assms(2) show ?thesis
    by (auto simp: multi_handle_def my_ws_handle_def multi_first_read_def ws_key_text_def [symmetric]
        or_hand_on_def hand_on_def chain_4 owned_def)
qed

section \<open>A client that upgrades\<close>

lemma guids_of_others [simp]:
  "ws_guid \<noteq> log_guid" "ws_guid \<noteq> serialization_guid" "ws_guid \<noteq> tcp_guid"
  "log_guid \<noteq> ws_guid" "serialization_guid \<noteq> ws_guid" "tcp_guid \<noteq> ws_guid"
  by (simp_all add: ws_guid_def log_guid_def serialization_guid_def tcp_guid_def)

text \<open>The session a GUID stands for, as it takes the connection, and what it starts.\<close>

definition by_guid :: "string \<Rightarrow> owner \<times> (multi_handler, unit) effect_of multiset" where
  "by_guid g =
     (if g = ws_guid then
        (Ws_owner connected, {#Async_read_some (Ws_handler (On_read_dataframe frame_parser_init))#})
      else if g = log_guid then (Log_owner log_connected, {#})
      else if g = serialization_guid then (Ser_owner connected, {#Async_read_some (Ser_handler On_read_header)#})
      else if g = tcp_guid then (Tcp_owner connected, {#Async_read_some (Tcp_handler On_async_read_string)#})
      else (Nobody, {#}))"

lemma hand_on_guid:
  assumes "g \<noteq> ws_guid"
  shows "\<exists>r. hand_on env i 4 \<lparr>tag = Ws_guid, hs_bytes = g\<rparr> = Some r \<and>
     (fst r, operations (snd r)) = by_guid g \<and> (g = log_guid \<longrightarrow> snd r = [On_handshake_success])"
  using assms
  by (auto simp: hand_on_def chain_4 next_http_guid next_log_guid next_serialization [unfolded One_nat_def]
      next_tcp by_guid_def owned_def tcp_defs Let_def)

lemma guid_frame_handled:
  assumes "env_order env = Little" "length key = 4" "g \<noteq> []" "length g \<le> buffer_size" "length (call_raw i) = 4"
  shows "\<exists>r. multi_handle env i (Ws_handler (On_guid_read frame_parser_init)) No_error
       (map byte_char (rfc_frame True Text_frame (Some key) (map char_byte g))) (Ws_owner connected) = Some r \<and>
     (fst r, operations (snd r)) = by_guid g \<and> (g = log_guid \<longrightarrow> snd r = [On_handshake_success])"
proof -
  note read = guid_frame_read [where raw = "call_raw i" and os = "os_of env"
      and accepts = "try_handshake ws_guid" and s = connected, OF assms(5,2-4)]
  show ?thesis
  proof (cases "g = ws_guid")
    case True
    with read assms(1) show ?thesis
      by (simp add: multi_handle_def my_ws_handle_def or_hand_on_def owned_def by_guid_def my_ws_derived_def
          ws_on_handshake_success_def read_next_frame_def del: rfc_frame.simps)
  next
    case False
    with read assms(1) hand_on_guid [OF False, of env i] show ?thesis
      by (simp add: multi_handle_def my_ws_handle_def or_hand_on_def del: rfc_frame.simps)
  qed
qed

lemma guid_signals:
  fixes L :: log_state and k :: nat and before after :: "string list"
  assumes "(fst r, ops) = by_guid g" "g = log_guid \<longrightarrow> snd r = [On_handshake_success]"
  defines "S \<equiv> (if g = log_guid then insert k (fst L) else fst L)"
  defines "i \<equiv> (if g = log_guid then call_with before after else call_with (before @ after) [])"
  shows "log_effects i k (fst r) 0 (snd r) L = Some (S, snd L + lines_to before (fst L) + lines_to after S)"
proof (cases "g = log_guid")
  case True
  with assms(1,2) have "r = (Log_owner log_connected, [On_handshake_success])"
    by (cases r) (auto simp: by_guid_def)
  with True show ?thesis using success_logged [of i k L] by (simp add: S_def i_def)
next
  case False
  with assms(1) have "fst r \<noteq> Log_owner s" for s by (auto simp: by_guid_def split: if_splits)
  from lines_posted [OF this, of "before @ after" k "snd r" L] False show ?thesis
    by (simp add: S_def i_def ac_simps)
qed

lemma rfc_frame_longer:
  "length (rfc_frame a_fin op (Some key) data) \<le> n \<Longrightarrow> length data \<le> n"
  by simp

text \<open>The request of an upgrade and what answers it.\<close>

lemma upgrade_handled:
  fixes env :: multi_env
  assumes "wf_request r" "h \<in> set (req_headers r)" "hname h = ''Sec-WebSocket-Key''"
  defines "reply \<equiv> ws_handle_request (env_sha1 (net env)) (env_b64 (net env)) r"
  shows "multi_handle env i (Ws_handler On_multi_first_read) No_error (print_request r) (Ws_owner connected) =
      Some (Ws_owner connected, [Async_write (concat (the (ws_to_buffers reply))) (Ws_handler (On_multi_second_read reply))])"
    and "multi_handle env i (Ws_handler (On_multi_second_read reply)) No_error [] (Ws_owner connected) =
      Some (Ws_owner connected, [Async_read_some (Ws_handler (On_guid_read frame_parser_init))])"
  using upgrade_answered [where s = connected, OF assms(1-3), of "env_sha1 (net env)" "env_b64 (net env)"]
    guid_awaited [where s = connected, OF assms(2,3), of _ "env_sha1 (net env)" "env_b64 (net env)"]
  by (simp_all add: reply_def multi_handle_def my_ws_handle_def or_hand_on_def owned_def)

lemma upgrade_run:
  assumes "conns sv k = Some multi_start" "wf_request r" "h \<in> set (req_headers r)" "hname h = ''Sec-WebSocket-Key''"
    and "length (print_request r) \<le> buffer_size" "env_order env = Little" "length key = 4" "g \<noteq> []"
    and "length (rfc_frame True Text_frame (Some key) (map char_byte g)) \<le> buffer_size"
  defines "S \<equiv> (if g = log_guid then insert k (log_set sv) else log_set sv)"
  shows "(server_step env)\<^sup>*\<^sup>* sv
     (sv\<lparr>conns := (conns sv)(k \<mapsto> \<lparr>obj = fst (by_guid g), pending = snd (by_guid g),
        received = [print_request r, map byte_char (rfc_frame True Text_frame (Some key) (map char_byte g))],
        written = [(concat (the (ws_to_buffers (ws_handle_request (env_sha1 (net env)) (env_b64 (net env)) r))), No_error)]\<rparr>),
      log_set := S, posted := posted sv + lines_to before (log_set sv) + lines_to after S\<rparr>)"
proof -
  let ?reply = "ws_handle_request (env_sha1 (net env)) (env_b64 (net env)) r"
  let ?w = "concat (the (ws_to_buffers ?reply))"
  let ?frame = "map byte_char (rfc_frame True Text_frame (Some key) (map char_byte g))"
  let ?quiet = "call_with [] []"
  let ?i = "if g = log_guid then call_with before after else call_with (before @ after) []"
  let ?sv1 = "sv\<lparr>conns := (conns sv)(k \<mapsto> \<lparr>obj = Ws_owner connected,
     pending = {#Async_write ?w (Ws_handler (On_multi_second_read ?reply))#},
     received = [print_request r], written = []\<rparr>), log_set := log_set sv, posted := posted sv\<rparr>"
  let ?sv2 = "?sv1\<lparr>conns := (conns ?sv1)(k \<mapsto> \<lparr>obj = Ws_owner connected,
     pending = {#Async_read_some (Ws_handler (On_guid_read frame_parser_init))#},
     received = [print_request r], written = [(?w, No_error)]\<rparr>), log_set := log_set ?sv1, posted := posted ?sv1\<rparr>"
  have "print_request r \<noteq> []" by (simp add: print_request_def)
  with assms(5) have fits: "multi_fits (Ws_handler On_multi_first_read) (print_request r)"
    by (simp add: fits_buffer_def)
  have "server_step env sv ?sv1"
    using read_step [where i = ?quiet and S = "log_set sv" and P = "posted sv",
        OF assms(1) [unfolded multi_start] fits upgrade_handled(1) [OF assms(2-4)]] by simp
  moreover have "server_step env ?sv1 ?sv2"
    using write_step [where sv = ?sv1 and k = k and p = "{#}" and rs = "[print_request r]" and ws = "[]" and msg = ?w
        and i = ?quiet and S = "log_set sv" and P = "posted sv", OF _ upgrade_handled(2) [OF assms(2-4)]] by simp
  ultimately have run: "(server_step env)\<^sup>*\<^sup>* sv ?sv2"
    by (rule converse_rtranclp_into_rtranclp [OF _ r_into_rtranclp])
  have i: "length (call_raw ?i) = 4" by simp
  obtain own es where taken: "multi_handle env ?i (Ws_handler (On_guid_read frame_parser_init)) No_error
       ?frame (Ws_owner connected) = Some (own, es)"
    and own: "(own, operations es) = by_guid g" "g = log_guid \<longrightarrow> es = [On_handshake_success]"
    using guid_frame_handled [OF assms(6-8) _ i] rfc_frame_longer [OF assms(9)] by fastforce
  have log: "log_effects ?i k own 0 es (log_set ?sv2, posted ?sv2) =
      Some (S, posted sv + lines_to before (log_set sv) + lines_to after S)"
    using guid_signals [where r = "(own, es)" and ops = "operations es" and g = g and k = k
        and L = "(log_set ?sv2, posted ?sv2)" and before = before and after = after] own
    by (simp add: S_def)
  let ?sv3 = "?sv2\<lparr>conns := (conns ?sv2)(k \<mapsto> \<lparr>obj = own, pending = {#} + operations es,
     received = [print_request r] @ [?frame], written = [(?w, No_error)]\<rparr>),
     log_set := S, posted := posted sv + lines_to before (log_set sv) + lines_to after S\<rparr>"
  have "multi_fits (Ws_handler (On_guid_read frame_parser_init)) ?frame"
    using assms(9) by (simp add: fits_buffer_def)
  from read_step [where sv = ?sv2 and k = k and p = "{#}" and rs = "[print_request r]" and ws = "[(?w, No_error)]",
      OF _ this taken i, unfolded logging_in, OF _ log]
  have "server_step env ?sv2 ?sv3" by simp
  with run have "(server_step env)\<^sup>*\<^sup>* sv ?sv3" by (rule rtranclp.rtrancl_into_rtrancl)
  moreover have "own = fst (by_guid g)" "operations es = snd (by_guid g)"
    by (simp_all flip: own(1))
  ultimately show ?thesis by (simp del: rfc_frame.simps)
qed

section \<open>A line of the log\<close>

text \<open>What a posted line starts, on any memory.\<close>

lemma send_line_text:
  assumes "length msg + 4 \<noteq> 65536"
  shows "\<exists>df. send_line env raw msg s = (Log_owner s, [Async_write
     (text_frame (msg @ ''<br>'')) (Log_handler (On_write_dataframe df))])"
  using ws_async_write_text [where msg = "msg @ ''<br>''" and s = s and ord = "env_order env" and raw = raw] assms
  by (auto simp: send_line_def log_send_def owned_def ws_async_write_def simp del: rfc_frame.simps split: prod.splits)

section \<open>Properties\<close>

text \<open>
  C4. The GUID a WebSocket client sends decides which protocol it gets. From any state of the
  server in which the client has just connected, an upgrade request and then the GUID as a
  masked text frame, each read in one piece, lead to a state in which the request has been
  answered with the 101 reply and the connection belongs to the session whose GUID it is, with
  the read that session starts with and nothing else pending; exactly with the GUID of the log
  session is the client in the set of log sessions; and with an unknown GUID nobody owns it.
  Nothing else changes but that lines are posted, whichever the handlers log: those up to the
  signal of the log session (\<open>before\<close>) to the log sessions there were, and those after it to the
  log sessions there are then.
\<close>

theorem upgrade_dispatch:
  assumes "conns sv k = Some multi_start" "wf_request r" "h \<in> set (req_headers r)" "hname h = ''Sec-WebSocket-Key''"
    and "length (print_request r) \<le> buffer_size" "env_order env = Little" "length key = 4" "g \<noteq> []"
    and "length (rfc_frame True Text_frame (Some key) (map char_byte g)) \<le> buffer_size"
    and "S = (if g = log_guid then insert k (log_set sv) else log_set sv)"
  shows "(server_step env)\<^sup>*\<^sup>* sv
     (sv\<lparr>conns := (conns sv)(k \<mapsto> \<lparr>obj = fst (by_guid g), pending = snd (by_guid g),
        received = [print_request r, map byte_char (rfc_frame True Text_frame (Some key) (map char_byte g))],
        written = [(concat (the (ws_to_buffers (ws_handle_request (env_sha1 (net env)) (env_b64 (net env)) r))), No_error)]\<rparr>),
      log_set := S, posted := posted sv + lines_to before (log_set sv) + lines_to after S\<rparr>)"
  unfolding assms(10) by (rule upgrade_run [OF assms(1-9)])

text \<open>
  C38. A browser gets its page through the port all protocols share: from any state of the server
  in which it has just connected, a well-formed request without the text of the WebSocket key
  header, read in one piece, is handed to the HTTP session, which writes the reply of the
  request handler and, unless closing reports an error, closes the connection. Nothing else of
  the server changes but that the lines the handlers log, whichever they are, are posted, each
  to all the log sessions there are.
\<close>

theorem browser_served:
  assumes "conns sv k = Some multi_start" "wf_request r" "str_find ws_key_text (print_request r) = None"
    and "length (print_request r) \<le> buffer_size" "snd (os_of env) = No_error"
  shows "\<exists>s. \<not> is_open s \<and> (server_step env)\<^sup>*\<^sup>* sv (sv\<lparr>conns := (conns sv)(k \<mapsto>
     \<lparr>obj = Http_owner s, pending = {#}, received = [print_request r],
      written = [(concat (Http_Message.to_buffers (Request_Handler.handle_request (env_doc_root (net env))
        (env_fs (net env)) r \<lparr>status = Ok, rep_headers = [], content = []\<rparr>)), No_error)]\<rparr>),
      posted := posted sv + lines_to lines (log_set sv)\<rparr>)"
proof -
  let ?w = "concat (Http_Message.to_buffers (Request_Handler.handle_request (env_doc_root (net env))
     (env_fs (net env)) r \<lparr>status = Ok, rep_headers = [], content = []\<rparr>))"
  obtain s where taken: "multi_handle env (call_with [] []) (Ws_handler On_multi_first_read) No_error (print_request r)
      (Ws_owner connected) = Some (Http_owner s, [Async_write ?w (Http_handler Handle_write)])"
    using plain_request_taken [OF assms(2,3)] by blast
  let ?sv1 = "sv\<lparr>conns := (conns sv)(k \<mapsto> \<lparr>obj = Http_owner s, pending = {#Async_write ?w (Http_handler Handle_write)#},
     received = [print_request r], written = []\<rparr>), log_set := log_set sv, posted := posted sv\<rparr>"
  let ?sv2 = "?sv1\<lparr>conns := (conns ?sv1)(k \<mapsto> \<lparr>obj = Http_owner (s\<lparr>is_open := False\<rparr>), pending = {#},
     received = [print_request r], written = [(?w, No_error)]\<rparr>), log_set := log_set ?sv1,
     posted := posted sv + lines_to lines (log_set sv)\<rparr>"
  have "print_request r \<noteq> []" by (simp add: print_request_def)
  with assms(4) have fits: "multi_fits (Ws_handler On_multi_first_read) (print_request r)"
    by (simp add: fits_buffer_def)
  have "server_step env sv ?sv1"
    using read_step [where S = "log_set sv" and P = "posted sv", OF assms(1) [unfolded multi_start] fits taken] by simp
  moreover have "server_step env ?sv1 ?sv2"
    using write_step [of ?sv1 k "Http_owner s" ?w "Http_handler Handle_write" "{#}" "[print_request r]" "[]" env
        "call_with lines []" "Http_owner (s\<lparr>is_open := False\<rparr>)" "[Socket_shutdown, Socket_close]"]
      lines_posted [of "Http_owner (s\<lparr>is_open := False\<rparr>)" lines k "[Socket_shutdown, Socket_close]"] assms(5)
    by (simp add: multi_handle_def my_http_handle_def handle_write_def close_socket_def owned_def)
  ultimately have "(server_step env)\<^sup>*\<^sup>* sv ?sv2"
    by (rule converse_rtranclp_into_rtranclp [OF _ r_into_rtranclp])
  then show ?thesis by (intro exI [of _ "s\<lparr>is_open := False\<rparr>"]) simp
qed


text \<open>
  C40. A line of the log is delivered: in every reachable state, a line that is logged while a
  log session's socket is open can be posted, sent and written to its client, as one unmasked
  text frame with a line break of HTML at the end, after what was written before, and the other
  sessions' copies stay posted; unless the frame's text has 65536 bytes.
\<close>

theorem log_line_delivered:
  assumes "(server_step env)\<^sup>*\<^sup>* server_start sv" "conns sv k = Some c" "obj c = Log_owner s" "is_open s"
    and "length msg + 4 \<noteq> 65536"
  shows "(server_step env)\<^sup>*\<^sup>* sv
     (sv\<lparr>posted := posted sv + mset (log_broadcast msg (log_set sv)) - {#(k, msg)#},
      conns := (conns sv)(k \<mapsto> c\<lparr>written := written c @ [(text_frame (msg @ ''<br>''), No_error)]\<rparr>)\<rparr>)"
proof -
  note inv = server_inv_reachable [OF assms(1)]
  let ?w = "text_frame (msg @ ''<br>'')"
  obtain p rs ws where c: "c = \<lparr>obj = Log_owner s, pending = p, received = rs, written = ws\<rparr>"
    using assms(3) by (cases c) simp
  have "k \<in> log_set sv" using assms(2-4) by (simp add: in_log_set [OF inv] log_open_iff)
  moreover have "finite (log_set sv)" using inv by (simp add: server_inv_def)
  ultimately have posted: "(k, msg) \<in># posted (on_logger msg sv)"
    by (simp add: on_logger_def log_broadcast_def)
  obtain df where sent: "send_line env [0, 0, 0, 0] msg s = (Log_owner s, [Async_write ?w (Log_handler (On_write_dataframe df))])"
    using send_line_text [OF assms(5)] by blast
  let ?sv1 = "on_logger msg sv"
  let ?sv2 = "?sv1\<lparr>posted := posted ?sv1 - {#(k, msg)#}, conns := (conns ?sv1)(k \<mapsto> \<lparr>obj = Log_owner s,
     pending = add_mset (Async_write ?w (Log_handler (On_write_dataframe df))) p, received = rs, written = ws\<rparr>)\<rparr>"
  let ?sv3 = "?sv2\<lparr>conns := (conns ?sv2)(k \<mapsto> \<lparr>obj = Log_owner s, pending = p + operations [],
     received = rs, written = ws @ [(?w, No_error)]\<rparr>), log_set := log_set ?sv2, posted := posted ?sv2\<rparr>"
  have "server_step env sv ?sv1" by (rule Logged)
  moreover have "server_step env ?sv1 ?sv2"
    using Sent [where sv = ?sv1 and env = env, OF posted _ _ _ sent [symmetric], of c] assms(2)
    by (simp add: on_logger_def c)
  moreover have "server_step env ?sv2 ?sv3"
    by (rule write_step [where h = "Log_handler (On_write_dataframe df)" and own = "Log_owner s"
          and own' = "Log_owner s" and es = "[]" and i = "call_with [] []"])
       (simp_all add: multi_handle_def my_log_handle_def log_on_write_quiet_def owned_def)
  ultimately have "(server_step env)\<^sup>*\<^sup>* sv ?sv3"
    by (meson converse_rtranclp_into_rtranclp r_into_rtranclp)
  then show ?thesis by (cases sv) (simp add: on_logger_def c del: rfc_frame.simps)
qed


section \<open>A run\<close>

lemma sample_request_text:
  "print_request sample_request = ''GET /a HTTP/1.1'' @ crlf @ ''Host: x'' @ crlf @ crlf"
  by (simp add: print_request_def sample_request_def print_header_def version_text_def dec_string_def
      base_digits.simps digit_char_def char_of_def bit_Suc_0_iff)

theorem browser_served_witness:
  "\<exists>sv. (server_step sample_env)\<^sup>*\<^sup>* one_client sv \<and> map_option pending (conns sv 7) = Some {#} \<and>
     map_option received (conns sv 7) = Some [print_request sample_request]"
proof -
  have "conns one_client 7 = Some multi_start" by (simp add: one_client_def)
  moreover have "str_find ws_key_text (print_request sample_request) = None"
    by (simp add: sample_request_text ws_key_text_def crlf_def)
  moreover have "length (print_request sample_request) \<le> buffer_size"
    by (simp add: sample_request_text crlf_def buffer_size_def)
  moreover have "snd (os_of sample_env) = No_error" by (simp add: sample_env_def)
  ultimately obtain s where "(server_step sample_env)\<^sup>*\<^sup>* one_client (one_client\<lparr>conns := (conns one_client)(7 \<mapsto>
      \<lparr>obj = Http_owner s, pending = {#}, received = [print_request sample_request],
       written = [(concat (Http_Message.to_buffers (Request_Handler.handle_request (env_doc_root (net sample_env))
        (env_fs (net sample_env)) sample_request \<lparr>status = Ok, rep_headers = [], content = []\<rparr>)), No_error)]\<rparr>),
       posted := posted one_client + lines_to [''line''] (log_set one_client)\<rparr>)"
    using browser_served [OF _ wf_sample_request, of one_client 7 sample_env "[''line'']"] by blast
  then show ?thesis by (intro exI conjI, assumption) simp_all
qed

lemma upgrade_sample:
  assumes "g \<noteq> []" "length g < 126"
  shows "\<lparr>hname = ''Sec-WebSocket-Key'', hvalue = ''x''\<rparr> \<in> set (req_headers upgrade_request)"
    "length (print_request upgrade_request) \<le> buffer_size" "env_order sample_env = Little" "length [1, 2, 3, 4 :: 8 word] = 4"
    "length (rfc_frame True Text_frame (Some [1, 2, 3, 4]) (map char_byte g)) \<le> buffer_size"
    "conns one_client 7 = Some multi_start"
  using assms
  by (simp_all add: upgrade_request_def print_upgrade_request [unfolded upgrade_request_def] crlf_def sample_env_def
      one_client_def buffer_size_def rfc_length_def)


text \<open>The line of the connection is posted to nobody, that after the signal to the new client.\<close>

lemma lines_to_7: "lines_to [''connected''] (log_set one_client) = {#}" "posted one_client = {#}"
  "lines_to [''line''] (insert 7 (log_set one_client)) = {#(7, ''line'')#}"
  by (simp_all add: one_client_def server_start_def log_broadcast_def)

theorem upgrade_dispatch_witness:
  "\<exists>sv. (server_step sample_env)\<^sup>*\<^sup>* one_client sv \<and> map_option obj (conns sv 7) = Some (Log_owner log_connected) \<and>
     7 \<in> log_set sv \<and> posted sv = {#(7, ''line'')#}"
proof -
  have g: "log_guid \<noteq> []" "length log_guid < 126" by (simp_all add: log_guid_def)
  note sample = upgrade_sample [OF g]
  have "hname \<lparr>hname = ''Sec-WebSocket-Key'', hvalue = ''x''\<rparr> = ''Sec-WebSocket-Key''" by simp
  note upgrade_dispatch [OF sample(6) wf_upgrade_request sample(1) this sample(2-4) g(1) sample(5) refl,
      where before = "[''connected'']" and after = "[''line'']"]
  then show ?thesis by (intro exI conjI, assumption) (simp_all add: by_guid_def lines_to_7 del: lines_to_simps)
qed

text \<open>The same run again: a state with a connected client of the log.\<close>

lemma log_client_reachable:
  "\<exists>sv. (server_step sample_env)\<^sup>*\<^sup>* server_start sv \<and> map_option obj (conns sv 7) = Some (Log_owner log_connected)"
proof -
  have g: "log_guid \<noteq> []" "length log_guid < 126" by (simp_all add: log_guid_def)
  note sample = upgrade_sample [OF g]
  have "hname \<lparr>hname = ''Sec-WebSocket-Key'', hvalue = ''x''\<rparr> = ''Sec-WebSocket-Key''" by simp
  note upgrade_run [OF sample(6) wf_upgrade_request sample(1) this sample(2-4) g(1) sample(5), where before = "[]" and after = "[]"]
  note rtranclp_trans [OF one_client_reachable this]
  then show ?thesis by (intro exI conjI, assumption) (simp_all add: by_guid_def)
qed

theorem log_line_delivered_witness:
  "\<exists>sv. (server_step sample_env)\<^sup>*\<^sup>* server_start sv \<and>
     map_option (last \<circ> written) (conns sv 7) = Some (text_frame ''hello<br>'', No_error)"
proof -
  obtain sv c where run: "(server_step sample_env)\<^sup>*\<^sup>* server_start sv" "conns sv 7 = Some c"
    "obj c = Log_owner log_connected"
    using log_client_reachable by auto
  have "is_open log_connected" "length ''hello'' + 4 \<noteq> 65536" by simp_all
  from rtranclp_trans [OF run(1) log_line_delivered [OF run this]] show ?thesis
    by (intro exI conjI, assumption) (simp_all del: rfc_frame.simps)
qed

section \<open>Who gets the lines\<close>

definition open_log_sessions :: "multi_state \<Rightarrow> nat set" where
  "open_log_sessions sv = {k. \<exists>c s. conns sv k = Some c \<and> obj c = Log_owner s \<and> is_open s}"

lemma log_set_open: "server_inv sv \<Longrightarrow> log_set sv = open_log_sessions sv"
  by (auto simp: open_log_sessions_def in_log_set log_open_iff)

text \<open>What a step adds to the posted lines and takes from them.\<close>

lemma step_posts:
  assumes "server_step env sv sv'" "server_inv sv"
  shows "\<exists>sent before after. sent \<subseteq># posted sv \<and> size sent \<le> 1 \<and>
     posted sv' = posted sv - sent + lines_to before (log_set sv) + lines_to after (log_set sv')"
  using assms
proof (induction rule: server_step.induct)
  case (Handled sv k c i S P c')
  then have "owner_inv c" "in_step k (obj c) (fst (log_set sv, posted sv))" by (auto simp: server_inv_def)
  from owner_inv_step [OF this Handled.hyps(2,3)] have "logged (log_set sv, posted sv) (S, P)" by blast
  then show ?case unfolding logged_def by (intro exI [of _ "{#}"]) auto
next
  case (Logged sv msg)
  show ?case by (rule exI [of _ "{#}"], rule exI [of _ "[msg]"], rule exI [of _ "[]"]) (simp add: on_logger_def)
next
  case (Sent k msg sv c s raw r)
  then show ?case
    by (intro exI [of _ "{#(k, msg)#}"] exI [of _ "[] :: string list"]) (simp add: mset_subset_eq_single)
qed (intro exI [of _ "{#}"] exI [of _ "[] :: string list"], simp)+

text \<open>
  A log session that closes is posted a line once more: when a write to its client fails, its
  shutdown closes the socket, logs, and signals only then. The line waits for a closed socket.
\<close>

lemma last_line_to_closed_session:
  assumes "(server_step env)\<^sup>*\<^sup>* server_start sv" "conns sv k = Some c" "obj c = Log_owner s" "is_open s"
    and "Async_write w (Log_handler (On_write_dataframe df)) \<in># pending c" "ec \<noteq> No_error"
  shows "\<exists>sv' c' s'. server_step env sv sv' \<and> (k, line) \<in># posted sv' \<and> k \<notin> log_set sv' \<and>
     conns sv' k = Some c' \<and> obj c' = Log_owner s' \<and> \<not> is_open s'"
proof -
  note inv = server_inv_reachable [OF assms(1)]
  let ?L = "(log_set sv, posted sv)" and ?s = "s\<lparr>is_open := False\<rparr>"
  let ?i = "(call_with [] [])\<lparr>call_shutdown_line := \<lambda>n. line\<rparr>"
  let ?es = "[Socket_shutdown, Socket_close, On_shutdown (fst (os_of env)) (snd (os_of env))]"
  let ?n = "length (on_shutdown_log (fst (os_of env)) (snd (os_of env)))"
  have fin: "finite (log_set sv)" and "in_step k (obj c) (log_set sv)"
    using inv assms(2) by (simp_all add: server_inv_def)
  then have k: "k \<in> fst ?L" "has_signal ?s" "finite (log_set sv)"
    using assms(3,4) by (simp_all add: in_step_def log_defs)
  obtain P where P: "log_effects ?i k (Log_owner ?s) 0 ?es ?L = Some (log_set sv - {k}, P)"
    and new: "set_mset (lines_to (map (call_shutdown_line ?i) [0..<?n]) (log_set sv)) \<subseteq> set_mset P"
    using shutdown_logged [OF k(2,1), of ?i "fst (os_of env)" "snd (os_of env)"] by auto
  have "0 < ?n" by (auto simp: on_shutdown_log_def)
  then have "map (call_shutdown_line ?i) [0..<?n] = line # map (call_shutdown_line ?i) [1..<?n]"
    by (simp add: upt_conv_Cons)
  with new k have posted: "(k, line) \<in># P" by (auto simp: log_broadcast_def simp del: upt_Suc)
  have "multi_handle env ?i (Log_handler (On_write_dataframe df)) ec [] (Log_owner s) = Some (Log_owner ?s, ?es)"
    using assms(4,6) by (simp add: multi_handle_def my_log_handle_def log_on_write_quiet_def owned_def tcp_defs)
  moreover have "\<not> quiet (Log_owner s) (Log_handler (On_write_dataframe df)) ec" using assms(6) by (simp add: quiet_def)
  ultimately have h: "handle_in env ?i k (Log_handler (On_write_dataframe df)) ec [] (Log_owner s, ?L) =
      Some ((Log_owner ?s, log_set sv - {k}, P), ?es)"
    using P by (simp add: handle_in_def logging_in_def del: log_effects.simps)
  let ?c = "with_log ?L c"
  obtain c' where c': "completed (Async_write w (Log_handler (On_write_dataframe df)))
      ((Log_owner ?s, log_set sv - {k}, P), ?es) (?c\<lparr>written := written ?c @ [(w, ec)]\<rparr>) =
      with_log (log_set sv - {k}, P) c'" "obj c' = Log_owner ?s"
    by (rule that [of "c\<lparr>obj := Log_owner ?s, written := written c @ [(w, ec)],
        pending := pending c - {#Async_write w (Log_handler (On_write_dataframe df))#}\<rparr>"])
       (simp_all add: completed_def with_log_def)
  have "loop_step multi_fits (handle_in env ?i k) ?c (with_log (log_set sv - {k}, P) c')"
    unfolding c'(1) [symmetric]
    by (rule Write_done) (use assms(3,5) h in \<open>simp_all add: with_log_def\<close>)
  from Handled [OF assms(2) _ this] c'(2) posted show ?thesis
    by (intro exI conjI, assumption?) auto
qed



end
