(* ===== verification/Multi_Hub.thy ===== *)
theory Multi_Hub
  imports Multi_Runs
begin

text \<open>
  What the multi protocol server promises, without sockets and handlers: every client is
  undecided until the server has chosen one protocol for it, the clients of the log are
  subscribers until they leave, and every line of the log is delivered to the subscribers of
  the moment it was logged, between two handlers or while one runs. The server refines this hub; the set of log sessions, which the
  hub does not have, implements the subscribers.
\<close>

section \<open>The hub\<close>

datatype stage =
    Undecided
  | Http_client
  | Log_client bool
  | Serialization_client
  | Tcp_client
  | Refused_client

record hub =
  stages :: "nat \<Rightarrow> stage option"
  outbox :: "(nat \<times> string) multiset"

definition hub_start :: hub where
  "hub_start = \<lparr>stages = \<lambda>k. None, outbox = {#}\<rparr>"

definition subscribers :: "hub \<Rightarrow> nat set" where
  "subscribers h = {k. stages h k = Some (Log_client True)}"

text \<open>A line is published: it waits for every subscriber there is.\<close>

definition publish :: "string \<Rightarrow> hub \<Rightarrow> hub" where
  "publish msg h = h\<lparr>outbox := outbox h + image_mset (\<lambda>k. (k, msg)) (mset_set (subscribers h))\<rparr>"

text \<open>
  A client arrives; a protocol is chosen for it, once; a subscriber leaves the log; a line is
  published; a line is delivered; a client is gone, when it is no subscriber and nothing is
  left for it.
\<close>

inductive hub_step :: "hub \<Rightarrow> hub \<Rightarrow> bool" where
  Arrives: "stages h k = None \<Longrightarrow> hub_step h (h\<lparr>stages := (stages h)(k \<mapsto> Undecided)\<rparr>)"
| Decides: "\<lbrakk>stages h k = Some Undecided; t \<noteq> Undecided; t \<noteq> Log_client False\<rbrakk>
     \<Longrightarrow> hub_step h (h\<lparr>stages := (stages h)(k \<mapsto> t)\<rparr>)"
| Unsubscribes: "stages h k = Some (Log_client True)
     \<Longrightarrow> hub_step h (h\<lparr>stages := (stages h)(k \<mapsto> Log_client False)\<rparr>)"
| Publishes: "hub_step h (publish msg h)"
| Delivers: "\<lbrakk>(k, msg) \<in># outbox h; stages h k = Some (Log_client b)\<rbrakk>
     \<Longrightarrow> hub_step h (h\<lparr>outbox := outbox h - {#(k, msg)#}\<rparr>)"
| Gone: "\<lbrakk>stages h k = Some t; t \<noteq> Log_client True; \<forall>msg. (k, msg) \<notin># outbox h\<rbrakk>
     \<Longrightarrow> hub_step h (h\<lparr>stages := (stages h)(k := None)\<rparr>)"

section \<open>The abstraction\<close>

fun stage_of :: "owner \<Rightarrow> stage" where
  "stage_of (Ws_owner s) = Undecided"
| "stage_of (Http_owner s) = Http_client"
| "stage_of (Log_owner s) = Log_client (is_open s)"
| "stage_of (Ser_owner s) = Serialization_client"
| "stage_of (Tcp_owner s) = Tcp_client"
| "stage_of Nobody = Refused_client"

definition hub_of :: "multi_state \<Rightarrow> hub" where
  "hub_of sv = \<lparr>stages = \<lambda>k. map_option (\<lambda>c. stage_of (obj c)) (conns sv k), outbox = posted sv\<rparr>"

lemma stages_hub_of [simp]:
  "stages (hub_of sv) k = map_option (\<lambda>c. stage_of (obj c)) (conns sv k)" "outbox (hub_of sv) = posted sv"
  by (simp_all add: hub_of_def)

lemma stage_of_iff [simp]:
  "stage_of own = Log_client b \<longleftrightarrow> (\<exists>s. own = Log_owner s \<and> is_open s = b)"
  "stage_of own = Undecided \<longleftrightarrow> (\<exists>s. own = Ws_owner s)"
  by (cases own; simp)+

text \<open>A step of one connection is one choice at most.\<close>

definition stage_step :: "stage \<Rightarrow> stage \<Rightarrow> bool" where
  "stage_step a b \<longleftrightarrow> a = b \<or> (a = Undecided \<and> b \<noteq> Log_client False) \<or> (a = Log_client True \<and> b = Log_client False)"

lemma handler_stage:
  assumes "multi_handle env i h ec bs own = Some r" "own_op own p"
    and "p = Async_read_some h \<or> (\<exists>w. p = Async_write w h)"
    and "is_read p \<and> ec = No_error \<longrightarrow> multi_fits h bs" "length (call_raw i) = 4"
  shows "stage_step (stage_of own) (stage_of (fst r))"
proof (cases "exclusive p")
  case True
  have choice: "stage_of (fst r) \<noteq> Log_client False"
    using exclusive_handler [OF assms(1,2) True assms(3-5)] by (auto simp: one_follows_def)
  have same: "stage_of (fst r) = stage_of own" if "\<And>s. own \<noteq> Ws_owner s"
    using assms(1-3) True that
    by (cases own)
       (auto simp: multi_handle_def my_http_handle_def own_defs split: multi_handler.splits ws_handler.splits http_handler.splits)
  show ?thesis
  proof (cases "\<exists>s. own = Ws_owner s")
    case True
    then have "stage_of own = Undecided" by simp
    with choice show ?thesis unfolding stage_step_def by blast
  next
    case False
    with same show ?thesis by (simp add: stage_step_def)
  qed
next
  case False
  from frame_handler [OF assms(1,2) False assms(3)] show ?thesis
  proof (elim conjE disjE exE)
    fix s s' assume "own = Ws_owner s" "fst r = Ws_owner s'"
    then show ?thesis by (simp add: stage_step_def)
  next
    fix s assume "own = Log_owner s" "r = owned Log_owner Log_handler (log_on_write_quiet (os_of env) ec s)"
    then show ?thesis
      by (cases "ec = No_error"; cases "is_open s")
         (simp_all add: stage_step_def log_on_write_quiet_def on_error_def shutdown_def)
  qed
qed

lemma connection_stage:
  assumes inv: "owner_inv c" and raw: "length (call_raw i) = 4"
    and step: "loop_step multi_fits (handle_in env i k) (with_log L c) (with_log L' c')"
  shows "stage_step (stage_of (obj c)) (stage_of (obj c'))"
proof -
  obtain p h ec bs r0 where p: "p \<in># pending c" "p = Async_read_some h \<or> (\<exists>w. p = Async_write w h)"
    and r0: "handle_in env i k h ec bs (obj c, L) = Some r0" "fst r0 = (obj c', L')"
    and fits: "p = Async_read_some h \<and> ec = No_error \<longrightarrow> multi_fits h bs"
    using step by (rule loop_step_elim) (simp add: with_log_def)
  obtain r where r: "multi_handle env i h ec bs (obj c) = Some r" "fst r = obj c'"
    using r0 by (auto simp: handle_in_def bind_eq_Some_conv)
  have "own_op (obj c) p" using inv p(1) by (simp add: owner_inv_def)
  with handler_stage [OF r(1) this p(2) _ raw] p(2) fits r(2) show ?thesis by auto
qed

lemma stage_step_hub:
  assumes "stages h k = Some a" "stage_step a b"
  shows "h\<lparr>stages := (stages h)(k \<mapsto> b)\<rparr> = h \<or> hub_step h (h\<lparr>stages := (stages h)(k \<mapsto> b)\<rparr>)"
proof (cases "a = b")
  case True
  with assms(1) have "(stages h)(k \<mapsto> b) = stages h" by auto
  then show ?thesis by simp
next
  case False
  with assms show ?thesis
    using Decides [of h k b] Unsubscribes [of h k] by (auto simp: stage_step_def)
qed

lemma subscribers_hub_of:
  assumes "server_inv sv"
  shows "subscribers (hub_of sv) = log_set sv"
  by (auto simp: subscribers_def in_log_set [OF assms] log_open_iff)

lemma broadcast_mset:
  assumes "finite S"
  shows "mset (log_broadcast msg S) = image_mset (\<lambda>k. (k, msg)) (mset_set S)"
proof -
  have "mset (sorted_list_of_set S) = mset_set S"
    using mset_set_set [of "sorted_list_of_set S"] assms by simp
  then show ?thesis by (simp add: log_broadcast_def)
qed

lemma hub_of_update:
  "hub_of (sv\<lparr>conns := (conns sv)(k \<mapsto> c), log_set := S, posted := P\<rparr>) =
     (hub_of sv)\<lparr>stages := (stages (hub_of sv))(k \<mapsto> stage_of (obj c)), outbox := P\<rparr>"
  by (auto simp: hub_of_def)

lemma fold_publish:
  "finite (subscribers h) \<Longrightarrow>
     fold publish msgs h = h\<lparr>outbox := outbox h + lines_to msgs (subscribers h)\<rparr>"
proof (induction msgs arbitrary: h)
  case (Cons msg msgs)
  have "subscribers (publish msg h) = subscribers h" by (simp add: publish_def subscribers_def)
  with Cons show ?case by (simp add: publish_def broadcast_mset ac_simps)
qed simp

text \<open>
  The handler of a connection in the hub: the lines until its signal are published, the stage of
  its client changes or not, and the lines from then on are published.
\<close>

definition hub_moves :: "hub \<Rightarrow> hub \<Rightarrow> bool" where
  "hub_moves h h' \<longleftrightarrow>
     (\<exists>before after h1. (h1 = fold publish before h \<or> hub_step (fold publish before h) h1) \<and>
        h' = fold publish after h1)"

lemma publish_steps: "hub_step\<^sup>*\<^sup>* h (fold publish msgs h)"
  by (induction msgs arbitrary: h) (auto intro: Publishes converse_rtranclp_into_rtranclp)

lemma hub_moves_steps:
  assumes "hub_moves h h'"
  shows "hub_step\<^sup>*\<^sup>* h h'"
proof -
  obtain before after h1 where "hub_step\<^sup>*\<^sup>* (fold publish before h) h1" "h' = fold publish after h1"
    using assms unfolding hub_moves_def by blast
  with publish_steps [of h before] publish_steps [of h1 after] show ?thesis
    by (metis rtranclp_trans)
qed

lemma hub_step_moves: "h' = h \<or> hub_step h h' \<Longrightarrow> hub_moves h h'"
  unfolding hub_moves_def by (rule exI [of _ "[]"], rule exI [of _ "[]"]) simp

lemma handled_hub_moves:
  assumes inv: "server_inv sv" "conns sv k = Some c" and raw: "length (call_raw i) = 4"
    and step: "loop_step multi_fits (handle_in env i k) (with_log (log_set sv, posted sv) c) (with_log (S, P) c')"
  shows "hub_moves (hub_of sv) (hub_of (sv\<lparr>conns := (conns sv)(k \<mapsto> c'), log_set := S, posted := P\<rparr>))"
proof -
  let ?sv = "sv\<lparr>conns := (conns sv)(k \<mapsto> c'), log_set := S, posted := P\<rparr>"
  have inv': "server_inv ?sv" by (rule server_inv_step [OF Handled [OF inv(2) raw step] inv(1)])
  have fin: "finite (log_set sv)" "finite S" using inv(1) inv' by (simp_all add: server_inv_def)
  have c: "owner_inv c" "in_step k (obj c) (fst (log_set sv, posted sv))"
    using inv by (auto simp: server_inv_def)
  obtain before after where P: "P = posted sv + lines_to before (log_set sv) + lines_to after S"
    using owner_inv_step [OF c raw step] by (auto simp: logged_def)
  let ?h = "(hub_of sv)\<lparr>outbox := posted sv + lines_to before (log_set sv)\<rparr>"
  let ?h1 = "?h\<lparr>stages := (stages ?h)(k \<mapsto> stage_of (obj c'))\<rparr>"
  have h: "fold publish before (hub_of sv) = ?h"
    by (simp add: fold_publish subscribers_hub_of [OF inv(1)] fin)
  have "subscribers ?h1 = subscribers (hub_of ?sv)" by (auto simp: subscribers_def)
  then have "hub_of ?sv = fold publish after ?h1"
    using subscribers_hub_of [OF inv'] fin(2)
    by (simp add: fold_publish hub_of_update P)
  moreover have "?h1 = ?h \<or> hub_step ?h ?h1"
    using connection_stage [OF c(1) raw step] inv(2) by (intro stage_step_hub) simp_all
  ultimately show ?thesis unfolding hub_moves_def using h by metis
qed

lemma hub_simulates:
  assumes "server_step env sv sv'" "server_inv sv"
  shows "hub_moves (hub_of sv) (hub_of sv')"
  using assms
proof (induction rule: server_step.induct)
  case (Accepted sv k)
  have "stages (hub_of sv) k = None" using Accepted by simp
  from Arrives [OF this] show ?case
    using hub_of_update [where sv = sv and k = k and c = multi_start and S = "log_set sv" and P = "posted sv"]
    by (intro hub_step_moves)
       (simp add: multi_start_def open_connection_def multi_on_socket_connected_def hub_of_def)
next
  case (Handled sv k c i S P c')
  show ?case by (rule handled_hub_moves [OF Handled.prems Handled.hyps])
next
  case (Logged sv msg)
  then have "finite (log_set sv)" by (simp add: server_inv_def)
  then have "hub_of (on_logger msg sv) = publish msg (hub_of sv)"
    using subscribers_hub_of [OF Logged]
    by (simp add: publish_def on_logger_def broadcast_mset) (simp add: hub_of_def)
  then show ?case using Publishes [of "hub_of sv" msg] by (intro hub_step_moves) simp
next
  case (Sent k msg sv c s raw r)
  have r: "fst r = Log_owner s" using send_line_result [of env raw msg s] Sent.hyps(5) by auto
  have "hub_of (sv\<lparr>posted := posted sv - {#(k, msg)#},
        conns := (conns sv)(k \<mapsto> c\<lparr>obj := fst r, pending := pending c + operations (snd r)\<rparr>)\<rparr>) =
      (hub_of sv)\<lparr>outbox := outbox (hub_of sv) - {#(k, msg)#}\<rparr>"
    using r Sent.hyps(2,3) by (auto simp: hub_of_def)
  moreover have "hub_step (hub_of sv) ((hub_of sv)\<lparr>outbox := outbox (hub_of sv) - {#(k, msg)#}\<rparr>)"
    using Sent.hyps(1-3) by (intro Delivers [where b = "is_open s"]) simp_all
  ultimately show ?case by (intro hub_step_moves) simp
next
  case (Destroyed sv k c)
  have "stage_of (obj c) \<noteq> Log_client True"
    using Destroyed.hyps(1,3) in_log_set [OF Destroyed.prems, of k] by (auto simp: log_open_iff)
  with Destroyed.hyps have "hub_step (hub_of sv) ((hub_of sv)\<lparr>stages := (stages (hub_of sv))(k := None)\<rparr>)"
    by (intro Gone) auto
  moreover have "hub_of (sv\<lparr>conns := (conns sv)(k := None)\<rparr>) =
      (hub_of sv)\<lparr>stages := (stages (hub_of sv))(k := None)\<rparr>"
    by (auto simp: hub_of_def)
  ultimately show ?case by (intro hub_step_moves) simp
qed

section \<open>Properties\<close>

text \<open>
  C5. The multi protocol server refines the hub: whatever it does from its start is a run of the
  hub, and each of its steps is one step of the hub or none, with lines of the log published
  before it and after it, which are those the handler logs while it runs. So a client is given
  to one protocol only, and never back; a line of the log goes to the subscribers there are
  when it is logged, each of them once, whether or not they leave before it is sent; and a
  client of the log is only forgotten after it has left.
\<close>

theorem server_refines_hub:
  assumes "(server_step env)\<^sup>*\<^sup>* server_start sv"
  shows "hub_step\<^sup>*\<^sup>* hub_start (hub_of sv) \<and>
     (\<forall>sv'. server_step env sv sv' \<longrightarrow> hub_moves (hub_of sv) (hub_of sv'))"
proof
  show "hub_step\<^sup>*\<^sup>* hub_start (hub_of sv)"
    using assms
  proof (induction rule: rtranclp_induct)
    case base
    then show ?case by (simp add: hub_start_def hub_of_def server_start_def)
  next
    case (step sv1 sv2)
    note hub_moves_steps [OF hub_simulates [OF step.hyps(2) server_inv_reachable [OF step.hyps(1)]]]
    with step.IH show ?case by (rule rtranclp_trans)
  qed
  show "\<forall>sv'. server_step env sv sv' \<longrightarrow> hub_moves (hub_of sv) (hub_of sv')"
    using hub_simulates server_inv_reachable [OF assms] by blast
qed

theorem server_refines_hub_witness:
  "\<exists>h. hub_step\<^sup>*\<^sup>* hub_start h \<and> stages h 7 = Some (Log_client True)"
proof -
  obtain sv where run: "(server_step sample_env)\<^sup>*\<^sup>* server_start sv"
    and obj: "map_option obj (conns sv 7) = Some (Log_owner log_connected)"
    using log_client_reachable by blast
  from obj have "stages (hub_of sv) 7 = Some (Log_client True)" by auto
  with server_refines_hub [OF run] show ?thesis by blast
qed

end
