(* ===== verification/Spec2Isabelle.thy ===== *)
theory Spec2Isabelle
  imports Boost_Log Programs Multi_Hub
begin

text \<open>
  A verification development for splice (\<^verbatim>\<open>src/splice\<close>), a C++ library on Boost.Asio for
  servers that speak several protocols on one port, and for its examples (\<^verbatim>\<open>src/examples\<close>): a
  multi protocol server with two clients, two mono protocol echo servers with a client, and a
  JSON server.

  \<^bold>\<open>The program.\<close> A server (\<^verbatim>\<open>server.hxx\<close>) accepts connections. In a mono protocol server each
  connection is a session of one class; in a multi protocol server the first session class
  reads, and a session that does not recognise what it read hands the bytes and the socket to
  the next class (\<^verbatim>\<open>multi_protocol.hxx\<close>). The session classes derive from \<^verbatim>\<open>tcp_session\<close>:
  HTTP with a request parser and a file server, WebSockets with a handshake, frames and a
  session, and serialized objects with a length header. All work is done in completion
  handlers that Asio calls with the result of an operation a previous handler started.

  \<^bold>\<open>How it is modelled.\<close> A class is a record and a derived class extends it. A member function
  is a function from the old state to the new state and the list of effects in the order the
  code performs them (\<open>('h, 's) step\<close>): operations started (with the handler that will be
  called), socket calls, and calls of the derived class (\<open>On_read\<close>, \<open>On_handshake_success\<close>,
  \<open>Handshake_fail\<close>). The three parsers are functions from a state, the message so far and one
  element to a three-valued result, a state and a message. Integers whose width matters are
  words; a \<^verbatim>\<open>char\<close> is signed; sizes have 64 bits. Where the C++ fails an assertion, reads or
  writes out of bounds or lets an exception escape, the model has a value for it (\<open>None\<close>, or
  \<open>Assertion_failure\<close> and \<open>Uncaught_exception\<close>). Memory that the code does not initialise
  (two integers of a request, the masking key of a frame) is an argument. So is what lies
  outside the repository: the file system, SHA-1, the Base64 iterators of Boost, the archives,
  the JSON library, the clock, the results of system calls and the byte order of the machine.
  What a property needs of these is a hypothesis of it.

  A connection (\<open>Event_Loop\<close>) is a session with the operations it has pending. A step
  (\<open>loop_step\<close>) completes any one of them, with an error or with data the operation can bring,
  and runs its handler; a session with nothing pending is destroyed, which closes its socket.
  The multi protocol server (\<open>Multi_Server\<close>) is the steps of any number of connections with
  the state they share, which is the set of log sessions and the lines posted to them.

  \<^bold>\<open>The theories of the library.\<close>
  \<^item> \<open>Prelude\<close>: the three-valued result, signed characters, and the locale
    \<open>incremental_parser\<close> of the \<^verbatim>\<open>parse\<close> loop all parsers share. It proves that input may be
    cut into pieces anywhere, and is interpreted for each parser.
  \<^item> \<open>Cpp_Std\<close>: the parts of the standard library on strings and number formatting.
  \<^item> \<open>Http_Message\<close>: \<^verbatim>\<open>http/header.hpp\<close>, \<^verbatim>\<open>request.hpp\<close>, \<^verbatim>\<open>reply.hxx\<close>. The wire form of a reply can
    be read back.
  \<^item> \<open>Http_Parser\<close>: \<^verbatim>\<open>http/request_parser.hxx\<close>. Every well-formed request is recognised,
    everything recognised is well formed, \<^verbatim>\<open>headers.back()\<close> is safe.
  \<^item> \<open>Request_Handler\<close>: \<^verbatim>\<open>http/request_handler.hxx\<close> and \<^verbatim>\<open>mime_types.hxx\<close>. Percent decoding, files
    below the document root only, the right content and headers.
  \<^item> \<open>Tcp_Session\<close>: \<^verbatim>\<open>common_types.hpp\<close> and \<^verbatim>\<open>tcp_session.hxx\<close>. A socket is shut down once.
  \<^item> \<open>Event_Loop\<close>: what Asio does with the handlers. The locale \<open>one_operation\<close> is for sessions
    that have at most one operation pending, \<open>bounded_handlers\<close> for sessions whose handlers
    can only run a bounded number of times, by a rank of the handlers.
  \<^item> \<open>Http_Session\<close>: \<^verbatim>\<open>http/http_session.hxx\<close>. The answer does not depend on how a request is cut,
    except for upgrade requests.
  \<^item> \<open>Ws_Http\<close>: the HTTP half of \<^verbatim>\<open>web_socket/rfc6455_engine.hpp\<close>. Its parser equals the first
    one; the accept key is that of RFC 6455.
  \<^item> \<open>Ws_Frame\<close> and \<open>Ws_Frame_Parser\<close>: the data frames of the same file. The locale
    \<open>network_order\<close> is the contract of the byte order conversions, for 16 and 64 bits. Frames
    are compared with the framing of RFC 6455 (\<open>rfc_frame\<close>), in both directions.
  \<^item> \<open>Ws_Handshake\<close> and \<open>Ws_Session\<close>: \<^verbatim>\<open>web_socket/ws_handshake.hxx\<close> and \<^verbatim>\<open>ws_session.hxx\<close>. The
    handshake from the request to the GUID, what a connection delivers, and what happens to
    frames that are cut in two. No handler of the handshake fails.
  \<^item> \<open>Serialization\<close>: \<^verbatim>\<open>serialization_session.hxx\<close> and \<^verbatim>\<open>serialization_engine.hxx\<close>, shown to agree.
    The locale \<open>length_prefixed\<close> is the contract of the header format.
  \<^item> \<open>Server\<close>: \<^verbatim>\<open>server.hxx\<close>, \<^verbatim>\<open>mono_protocol.hxx\<close>, \<^verbatim>\<open>multi_protocol.hxx\<close>. The accept loop, and the
    chain of protocols with the locale \<open>protocol_chain\<close>.
  \<^item> \<open>Logger\<close> and \<open>Boost_Log\<close>: the text of the lines in \<^verbatim>\<open>logger/log_interface.hpp\<close>, in the loggers
    of the examples and in the adapters to Boost.Log.

  \<^bold>\<open>The theories of the examples.\<close>
  \<^item> \<open>Mono_Echo\<close>: \<^verbatim>\<open>mono_protocol_echo/echo_server\<close> and \<^verbatim>\<open>echo_client\<close>. The server answers in order
    and can always go on; the client ends.
  \<^item> \<open>Ws_Echo\<close>: \<^verbatim>\<open>mono_protocol_echo/echo_ws_server\<close>. The locale \<open>ws_application\<close> is what a class
    derived from \<^verbatim>\<open>ws_session\<close> has to keep, and gives an invariant of its connections;
    \<open>total_ws_application\<close> extends it by handlers that do not fail.
  \<^item> \<open>Property_Tree\<close> and \<open>Json_Server\<close>: \<^verbatim>\<open>json_server\<close>, with the interface of the JSON library it
    uses. Both questions with their answers, the bounds of a shortened path.
  \<^item> \<open>Mono_Server\<close>: a mono protocol server with all its clients, from the constructor and the accept
    loop of \<open>Server\<close> and the steps of its sessions. The locale \<open>mono_server\<close> is what it needs of a
    session class; in it every connection of the server is a run of its own session, and every
    such run can happen in the server. \<open>Mono_Servers\<close> interprets it for the echo server and the
    JSON server, and for every \<open>ws_application\<close> by a sublocale. All connections are sound at once,
    the accept loop never ends, and the messages that end the JSON server are exactly known.
  \<^item> \<open>Multi_Echo\<close>: the chain of \<^verbatim>\<open>multi_protocol_echo/server\<close>, which puts the sessions into the
    chain and interprets \<open>protocol_chain\<close> on them. Which bytes reach which session.
  \<^item> \<open>Multi_Sessions\<close>: its sessions after they got a connection. \<open>Html_Setup\<close>: its preparation
    of the HTML files.
  \<^item> \<open>Multi_Server\<close>, \<open>Multi_Server_Inv\<close>: the whole server and its invariant. Every pending
    operation belongs to the owner of the connection, reads do not overlap, the set of log
    sessions is exact, and it is known which handlers can end the program.
  \<^item> \<open>Multi_Runs\<close>: runs of the whole server from any state, for a browser, for a client that
    upgrades, and for a line of the log.
  \<^item> \<open>Multi_Hub\<close>: the abstract specification of the server, a hub of clients with one protocol
    each and subscribers of the log, and the simulation that the server refines it.
  \<^item> \<open>Clients\<close>: \<^verbatim>\<open>raw_client\<close> and \<^verbatim>\<open>serialize_client\<close>, with the server's sessions as their peers.
  \<^item> \<open>Programs\<close>: the \<^verbatim>\<open>main\<close> functions, and what the JSON server prints and logs.

  \<^bold>\<open>Termination.\<close> There is no fuel: the parsers and loops recurse on their input, the read loop of
  a file on its rest, the digits of a number on the number and the abbreviating loop of the log
  on the distance to its end. Sequences of reads, accepts and calls are lists of any length.
  The event loops are step relations, whose end is proved by a weight where the program ends.

  \<^bold>\<open>Hypotheses.\<close> Frame payloads are shorter than \<open>2 ^ 64\<close> bytes, as vectors are. Base64 input has
  at most 54 bytes (72 characters, where the iterators would break the line); the code encodes
  20. The archive of one message is shorter than \<open>16 ^ 8\<close> bytes where it has to fit its header,
  and an archive loads what it saved. Where frames are received, the machine is little endian:
  the parser is wrong on others, as \<open>big_endian_length_misread\<close> shows.

  \<^bold>\<open>Not modelled.\<close> The preprocessor settings, include lists and class
  declarations without code; the sinks, filters and formatters of Boost.Log with their setup in
  \<^verbatim>\<open>json_server/main.cpp\<close>; the console lines of the echo servers; the
  strand and the mutexes (a handler is one step, which they guarantee, and the servers run in
  one thread); signal handling; the handshake timer, whose code is commented out; the bodies of
  the JSON library, the archives and SHA-1, which are third party code. In
  \<open>Multi_Server\<close> the step that destroys a session forgets the connection; the
  shutdown its destructor runs would matter for log sessions only, which the invariant shows to
  be closed by then.
\<close>

end
